(* ===== verification/Prelude.thy ===== *)
theory Prelude
  imports Main "HOL-Library.Word" "HOL-Library.AList"
begin

text \<open>
  What every theory of the development shares: the collections of simplification rules, the
  Go maps, the Go integers and times, and the Go expressions that can panic.

  A Go \<open>map[string]string\<close> is the list of its entries in the order a \<open>range\<close> loop visits
  them (Go leaves that order open, so a result that matters is stated through \<open>map_of\<close>);
  reading is \<open>map_of\<close>, storing is \<open>AList.update\<close>. A map that may be \<open>nil\<close> is an option of
  such a list. A Go \<open>int\<close> is an \<open>int\<close> (64 bits: where the code can leave that range the
  wrap-around is written out), an \<open>int32\<close> is a \<open>32 word\<close>.
\<close>

section \<open>Collections of rules\<close>

named_theorems go_simps \<open>equations that run a program tree\<close>
named_theorems model_defs \<open>the definitions of the operations of the code\<close>

section \<open>Go maps\<close>

type_synonym gomap = "(string \<times> string) list"

text \<open>Reading a map that may be nil: a nil map has no entries.\<close>

definition gomap_get :: "gomap option \<Rightarrow> string \<Rightarrow> string option" where
  "gomap_get m k = (case m of None \<Rightarrow> None | Some xs \<Rightarrow> map_of xs k)"

text \<open>The value form \<open>m[k]\<close> of the lookup gives the zero value for an absent key.\<close>

definition gomap_val :: "gomap option \<Rightarrow> string \<Rightarrow> string" where
  "gomap_val m k = (case gomap_get m k of None \<Rightarrow> '''' | Some v \<Rightarrow> v)"

lemma gomap_get_None [simp]: "gomap_get None k = None"
  by (simp add: gomap_get_def)

lemma gomap_get_Some [simp]: "gomap_get (Some xs) k = map_of xs k"
  by (simp add: gomap_get_def)

lemma gomap_val_get: "gomap_get m k = Some v \<Longrightarrow> gomap_val m k = v"
  by (simp add: gomap_val_def)

section \<open>Integers and times\<close>

type_synonym int32 = "32 word"

definition int32_of :: "int \<Rightarrow> int32" where
  "int32_of i = word_of_int i"

definition int_of_int32 :: "int32 \<Rightarrow> int" where
  "int_of_int32 w = sint w"

lemma int_of_int32_of: "- (2 ^ 31) \<le> i \<Longrightarrow> i < 2 ^ 31 \<Longrightarrow> int_of_int32 (int32_of i) = i"
  unfolding int_of_int32_def int32_of_def sint_sbintrunc'
  by (rule signed_take_bit_int_eq_self) simp_all

lemma int_of_int32_less: "int_of_int32 w < 2 ^ 31"
  using sint_less [of w] by (simp add: int_of_int32_def)

lemma int_of_int32_le: "int_of_int32 w \<le> 2147483647"
  using int_of_int32_less [of w] by simp

lemma int32_of_inj:
  assumes "int32_of i = int32_of j" "- (2 ^ 31) \<le> i" "i < 2 ^ 31" "- (2 ^ 31) \<le> j" "j < 2 ^ 31"
  shows "i = j"
  using assms int_of_int32_of by metis

text \<open>
  A point in time is the number of nanoseconds since Go's zero time, a duration is a 64-bit
  number of nanoseconds. \<open>time.Second * d\<close> wraps, \<open>t.Sub u\<close> saturates.
\<close>

type_synonym gotime = int

definition seconds :: "int \<Rightarrow> int" where
  "seconds n = sint (word_of_int (1000000000 * n) :: 64 word)"

definition time_Sub :: "gotime \<Rightarrow> gotime \<Rightarrow> int" where
  "time_Sub t u = max (- (2 ^ 63)) (min (2 ^ 63 - 1) (t - u))"

lemma seconds_small: "0 \<le> n \<Longrightarrow> n < 2 ^ 33 \<Longrightarrow> seconds n = 1000000000 * n"
  unfolding seconds_def sint_sbintrunc' by (rule signed_take_bit_int_eq_self) simp_all

section \<open>Lists\<close>

lemma last_conv_nth_int: "xs \<noteq> [] \<Longrightarrow> xs ! nat (int (length xs) - 1) = last xs"
  by (cases xs rule: rev_cases) (simp_all add: nat_add_distrib)

end
