(* ===== verification/KubeTypes.thy ===== *)
theory KubeTypes
  imports Prelude
begin

text \<open>
  The Kubernetes objects the program handles, with the fields the program reads or writes;
  what it only passes on is one field named \<open>_rest\<close>. They are the data of
  \<open>k8s.io/api/core/v1\<close> and \<open>k8s.io/apimachinery\<close>, so no entry of the map points here.
  The second part holds the error values and the options of a delete call.
\<close>

section \<open>Metadata\<close>

record NamespacedName =
  nn_Namespace :: string
  nn_Name :: string

abbreviation NN :: "string \<Rightarrow> string \<Rightarrow> NamespacedName" where
  "NN ns n \<equiv> \<lparr>nn_Namespace = ns, nn_Name = n\<rparr>"

record TypeMeta =
  tm_Kind :: string
  tm_APIVersion :: string

record GroupVersionKind =
  gvk_Group :: string
  gvk_Version :: string
  gvk_Kind :: string

record OwnerReference =
  or_APIVersion :: string
  or_Kind :: string
  or_Name :: string
  or_UID :: string
  or_Controller :: bool
  or_BlockOwnerDeletion :: bool

record ObjectMeta =
  Name :: string
  Namespace :: string
  Annotations :: "gomap option"
  Labels :: "gomap option"
  Finalizers :: "string list"
  OwnerReferences :: "OwnerReference list"
  UID :: string
  ResourceVersion :: string
  DeletionTimestamp :: "gotime option"
  CreationTimestamp :: gotime

text \<open>The zero value of the Go struct, which a composite literal starts from.\<close>

definition ObjectMeta_zero :: ObjectMeta where
  "ObjectMeta_zero = \<lparr>Name = '''', Namespace = '''', Annotations = None, Labels = None,
     Finalizers = [], OwnerReferences = [], UID = '''', ResourceVersion = '''',
     DeletionTimestamp = None, CreationTimestamp = 0\<rparr>"

text \<open>\<open>IsZero\<close> of a \<open>*metav1.Time\<close>: nil, or the zero time.\<close>

definition IsZero :: "gotime option \<Rightarrow> bool" where
  "IsZero t = (case t of None \<Rightarrow> True | Some u \<Rightarrow> u = 0)"

lemma IsZero_None [simp]: "IsZero None"
  by (simp add: IsZero_def)

lemma IsZero_Some [simp]: "IsZero (Some t) \<longleftrightarrow> t = 0"
  by (simp add: IsZero_def)

text \<open>
  The API server removes an object that is being deleted as soon as an update empties its finalizers; the arguments are the
  metadata of the stored and of the new version.
\<close>

definition let_go :: "ObjectMeta \<Rightarrow> ObjectMeta \<Rightarrow> bool" where
  "let_go old new \<longleftrightarrow> \<not> IsZero (DeletionTimestamp old) \<and> Finalizers old \<noteq> [] \<and> Finalizers new = []"

lemma let_go_kept [simp]:
  "IsZero (DeletionTimestamp old) \<Longrightarrow> \<not> let_go old new" "Finalizers new \<noteq> [] \<Longrightarrow> \<not> let_go old new"
  "Finalizers new = Finalizers old \<Longrightarrow> \<not> let_go old new"
  by (simp_all add: let_go_def)

lemma let_go_cong: "Finalizers new = Finalizers new' \<Longrightarrow> let_go old new = let_go old new'"
  by (simp add: let_go_def)

section \<open>Objects of core/v1\<close>

type_synonym PodPhase = string
type_synonym PVCPhase = string

definition PodRunning :: PodPhase where [simp]: "PodRunning = ''Running''"
definition PodReady :: string where [simp]: "PodReady = ''Ready''"
definition ConditionTrue :: string where [simp]: "ConditionTrue = ''True''"
definition ClaimPending :: PVCPhase where [simp]: "ClaimPending = ''Pending''"
definition ClaimBound :: PVCPhase where [simp]: "ClaimBound = ''Bound''"
definition VolumeAvailable :: string where [simp]: "VolumeAvailable = ''Available''"
definition ReclaimRetain :: string where [simp]: "ReclaimRetain = ''Retain''"
definition ResourceStorage :: string where [simp]: "ResourceStorage = ''storage''"
definition NamespaceAll :: string where [simp]: "NamespaceAll = ''''"

record ClaimSource =
  ClaimName :: string
  cs_ReadOnly :: bool

record Volume =
  v_Name :: string
  PersistentVolumeClaim :: "ClaimSource option"
  v_rest :: string

record PodSpec =
  Volumes :: "Volume list"
  pod_NodeName :: string
  Hostname :: string
  Subdomain :: string
  PodSpec_rest :: string

record PodCondition =
  pc_Type :: string
  pc_Status :: string

record Pod =
  pod_TypeMeta :: TypeMeta
  pod_Meta :: ObjectMeta
  pod_Spec :: PodSpec
  pod_Phase :: PodPhase
  pod_Conditions :: "PodCondition list"

type_synonym Quantity = int

record PVCSpec =
  AccessModes :: "string list"
  StorageClassName :: "string option"
  VolumeName :: string
  Requests :: "(string \<times> Quantity) list"
  PVCSpec_rest :: string

record PVC =
  pvc_TypeMeta :: TypeMeta
  pvc_Meta :: ObjectMeta
  pvc_Spec :: PVCSpec
  pvc_Phase :: PVCPhase

record ServiceSpec =
  svc_Selector :: gomap
  ServiceSpec_rest :: string

record Service =
  svc_TypeMeta :: TypeMeta
  svc_Meta :: ObjectMeta
  svc_Spec :: ServiceSpec

record PV =
  pv_Meta :: ObjectMeta
  pv_ReclaimPolicy :: string
  pv_StorageClassName :: string
  pv_ClaimRef :: "string option"
  pv_Phase :: string
  pv_rest :: string

record NodeCondition =
  nc_Type :: string
  nc_Status :: string
  nc_LastTransitionTime :: gotime

record Node =
  node_Meta :: ObjectMeta
  node_Conditions :: "NodeCondition list"

record LabelSelector =
  MatchLabels :: gomap
  LabelSelector_rest :: string

section \<open>Errors and delete options\<close>

text \<open>
  An error is the API server's NotFound, any other error of the API machinery, or one made by
  \<open>errors.New\<close> in the program. \<open>client.IgnoreNotFound\<close> turns the first kind into nil.
\<close>

datatype go_error = NotFound | ApiError string | ErrorsNew string

definition IgnoreNotFound :: "go_error \<Rightarrow> go_error option" where
  "IgnoreNotFound e = (if e = NotFound then None else Some e)"

lemma IgnoreNotFound_eq_None [simp]: "IgnoreNotFound e = None \<longleftrightarrow> e = NotFound"
  by (simp add: IgnoreNotFound_def)

datatype delete_option = GracePeriodSeconds int | PropagationPolicy string

end
