(* ===== verification/ApiV1.thy ===== *)
theory ApiV1
  imports KubeTypes
begin

text \<open>
  The custom resource, \<open>api/v1\<close>: the group and version, the spec, the two status lists (one
  entry per ordinal, kept side by side), and the well-formedness the operations preserve.
\<close>

section \<open>Group and version (api/v1/groupversion\_info.go)\<close>

record GroupVersionT =
  gv_Group :: string
  gv_Version :: string

definition GroupVersion :: GroupVersionT where
  "GroupVersion = \<lparr>gv_Group = ''iapetos.foundary-cloud.io'', gv_Version = ''v1''\<rparr>"

text \<open>\<open>GroupVersion.String()\<close>, the finalizer and the marker annotation of the program.\<close>

definition GroupVersion_String :: string where
  "GroupVersion_String = gv_Group GroupVersion @ ''/'' @ gv_Version GroupVersion"

section \<open>Types (api/v1/statefulpod\_types.go)\<close>

record StatefulPodSpec =
  Size :: "int32 option"
  Selector :: "LabelSelector option"
  PVRecyclePolicy :: string
  ServiceTemplate :: "ServiceSpec option"
  PodTemplate :: PodSpec
  PVCTemplate :: "PVCSpec option"
  PVNames :: "string list"

record PodStatus =
  PodName :: string
  ps_Status :: PodPhase
  ps_Index :: "int32 option"
  NodeName :: string

record PVCStatus =
  pvs_Index :: "int32 option"
  PVCName :: string
  pvs_Status :: PVCPhase
  Capacity :: string
  pvs_AccessModes :: "string list"
  StorageClass :: string
  PVName :: string

record StatefulPodStatus =
  PodStatusMes :: "PodStatus list"
  PVCStatusMes :: "PVCStatus list"

record StatefulPod =
  sp_TypeMeta :: TypeMeta
  sp_Meta :: ObjectMeta
  Spec :: StatefulPodSpec
  Status :: StatefulPodStatus

text \<open>Short names for the two lists and their assignment.\<close>

abbreviation pods_of :: "StatefulPod \<Rightarrow> PodStatus list" where
  "pods_of sp \<equiv> PodStatusMes (Status sp)"

abbreviation pvcs_of :: "StatefulPod \<Rightarrow> PVCStatus list" where
  "pvcs_of sp \<equiv> PVCStatusMes (Status sp)"

abbreviation set_pods :: "PodStatus list \<Rightarrow> StatefulPod \<Rightarrow> StatefulPod" where
  "set_pods xs sp \<equiv> sp\<lparr>Status := (Status sp)\<lparr>PodStatusMes := xs\<rparr>\<rparr>"

abbreviation set_pvcs :: "PVCStatus list \<Rightarrow> StatefulPod \<Rightarrow> StatefulPod" where
  "set_pvcs xs sp \<equiv> sp\<lparr>Status := (Status sp)\<lparr>PVCStatusMes := xs\<rparr>\<rparr>"

abbreviation sp_key :: "StatefulPod \<Rightarrow> NamespacedName" where
  "sp_key sp \<equiv> NN (Namespace (sp_Meta sp)) (Name (sp_Meta sp))"

section \<open>What the runtime supplies\<close>

text \<open>
  The configuration the program reads at its start (\<open>initconfig/init_toml.go\<close>), and two functions of
  the Kubernetes libraries the templates and the status use.
\<close>

record PodConfig =
  pod_Timeout :: int
  Ready :: int

record NodeConfig =
  node_Timeout :: int

record Config =
  cfg_Node :: NodeConfig
  cfg_Pod :: PodConfig

record Env =
  cfg :: Config
  NewControllerRef :: "StatefulPod \<Rightarrow> GroupVersionKind \<Rightarrow> OwnerReference"
  Quantity_String :: "Quantity \<Rightarrow> string"

section \<open>Well-formed status\<close>

text \<open>
  The two lists have the same length and entry \<open>i\<close> of each says it is the entry of ordinal
  \<open>i\<close>.
\<close>

definition wf_status :: "StatefulPodStatus \<Rightarrow> bool" where
  "wf_status st \<longleftrightarrow> length (PodStatusMes st) = length (PVCStatusMes st) \<and>
     (\<forall>i < length (PodStatusMes st). ps_Index (PodStatusMes st ! i) = Some (int32_of (int i)) \<and>
        pvs_Index (PVCStatusMes st ! i) = Some (int32_of (int i)))"

abbreviation wf_sp :: "StatefulPod \<Rightarrow> bool" where
  "wf_sp sp \<equiv> wf_status (Status sp)"

lemma wf_status_length: "wf_status st \<Longrightarrow> length (PVCStatusMes st) = length (PodStatusMes st)"
  by (simp add: wf_status_def)

lemma wf_status_append:
  assumes "wf_status st" "ps_Index p = Some (int32_of (int (length (PodStatusMes st))))"
    "pvs_Index v = Some (int32_of (int (length (PodStatusMes st))))"
  shows "wf_status (st\<lparr>PodStatusMes := PodStatusMes st @ [p], PVCStatusMes := PVCStatusMes st @ [v]\<rparr>)"
  using assms by (auto simp: wf_status_def nth_append less_Suc_eq)

lemma wf_status_update:
  assumes "wf_status st" "i < length (PodStatusMes st)"
    "ps_Index p = Some (int32_of (int i))" "pvs_Index v = Some (int32_of (int i))"
  shows "wf_status (st\<lparr>PodStatusMes := (PodStatusMes st)[i := p], PVCStatusMes := (PVCStatusMes st)[i := v]\<rparr>)"
  using assms by (auto simp: wf_status_def nth_list_update)

lemma wf_status_take:
  assumes "wf_status st"
  shows "wf_status (st\<lparr>PodStatusMes := take n (PodStatusMes st), PVCStatusMes := take n (PVCStatusMes st)\<rparr>)"
  using assms by (auto simp: wf_status_def)

lemma wf_status_pod:
  assumes "wf_status st" "i < length (PodStatusMes st)" "ps_Index p = ps_Index (PodStatusMes st ! i)"
  shows "wf_status (st\<lparr>PodStatusMes := (PodStatusMes st)[i := p]\<rparr>)"
  using assms by (auto simp: wf_status_def nth_list_update)

lemma wf_status_pvc:
  assumes "wf_status st" "i < length (PVCStatusMes st)" "pvs_Index v = pvs_Index (PVCStatusMes st ! i)"
  shows "wf_status (st\<lparr>PVCStatusMes := (PVCStatusMes st)[i := v]\<rparr>)"
  using assms by (auto simp: wf_status_def nth_list_update)

end
