(* ===== verification/Prog.thy ===== *)
theory Prog
  imports ApiV1
begin

text \<open>
  A Go function that talks to the API server is a tree of the calls it makes: each node is one
  call of the client (one atomic request), its children are what the function does next for each
  answer. \<open>client.Client\<close> itself is no part of the tree. It enters as a parameter where a tree is
  run: \<open>run cl m w\<close> makes the calls of \<open>m\<close> one after the other on a world \<open>w\<close>, and
  \<open>meets C Q R m\<close> is about every client at once. The interleaving of several workers, in the
  theory Interleaving, runs the same trees one call at a time.

  A run ends in a result, in a Go panic, or out of fuel: the two \<open>goto\<close> loops of the program can
  run forever and take their number of rounds as an argument.
\<close>

section \<open>Program trees\<close>

datatype 'o req = Get NamespacedName | Create 'o | Update 'o | Delete 'o "delete_option list"

text \<open>The answer to a call: an error, or the object (for a delete, the one that was passed).\<close>

type_synonym 'o resp = "go_error + 'o"

datatype go_panic = IndexOutOfRange | SliceOutOfRange | NilDereference

datatype 'a prog =
    Ret 'a
  | Panic go_panic
  | OutOfFuel
  | CallSP "StatefulPod req" "StatefulPod resp \<Rightarrow> 'a prog"
  | CallPod "Pod req" "Pod resp \<Rightarrow> 'a prog"
  | CallPVC "PVC req" "PVC resp \<Rightarrow> 'a prog"
  | CallSvc "Service req" "Service resp \<Rightarrow> 'a prog"
  | CallPV "PV req" "PV resp \<Rightarrow> 'a prog"
  | CallNode "Node req" "Node resp \<Rightarrow> 'a prog"
  | Now "gotime \<Rightarrow> 'a prog"

text \<open>\<open>bnd m f\<close> does \<open>m\<close> and then \<open>f\<close> with its result.\<close>

primrec bnd :: "'a prog \<Rightarrow> ('a \<Rightarrow> 'b prog) \<Rightarrow> 'b prog" where
  "bnd (Ret a) f = f a"
| "bnd (Panic p) f = Panic p"
| "bnd OutOfFuel f = OutOfFuel"
| "bnd (CallSP r k) f = CallSP r (\<lambda>x. bnd (k x) f)"
| "bnd (CallPod r k) f = CallPod r (\<lambda>x. bnd (k x) f)"
| "bnd (CallPVC r k) f = CallPVC r (\<lambda>x. bnd (k x) f)"
| "bnd (CallSvc r k) f = CallSvc r (\<lambda>x. bnd (k x) f)"
| "bnd (CallPV r k) f = CallPV r (\<lambda>x. bnd (k x) f)"
| "bnd (CallNode r k) f = CallNode r (\<lambda>x. bnd (k x) f)"
| "bnd (Now k) f = Now (\<lambda>x. bnd (k x) f)"

lemma bnd_Ret_right [simp]: "bnd m Ret = m"
  by (induction m) auto

lemma bnd_assoc: "bnd (bnd m f) g = bnd m (\<lambda>x. bnd (f x) g)"
  by (induction m) auto

section \<open>Go expressions that can panic\<close>

definition go_index :: "'a list \<Rightarrow> int \<Rightarrow> 'a prog" where
  "go_index xs i = (if 0 \<le> i \<and> i < int (length xs) then Ret (xs ! nat i) else Panic IndexOutOfRange)"

definition go_assign :: "'a list \<Rightarrow> int \<Rightarrow> ('a \<Rightarrow> 'a) \<Rightarrow> 'a list prog" where
  "go_assign xs i f =
     (if 0 \<le> i \<and> i < int (length xs) then Ret (xs[nat i := f (xs ! nat i)])
      else Panic IndexOutOfRange)"

text \<open>
  \<open>xs[:n]\<close>. Go allows an \<open>n\<close> up to the capacity; a list has no capacity beyond its length
  here, so an \<open>n\<close> beyond the length panics.
\<close>

definition go_slice_to :: "'a list \<Rightarrow> int \<Rightarrow> 'a list prog" where
  "go_slice_to xs n = (if 0 \<le> n \<and> n \<le> int (length xs) then Ret (take (nat n) xs) else Panic SliceOutOfRange)"

definition go_deref :: "'a option \<Rightarrow> 'a prog" where
  "go_deref p = (case p of None \<Rightarrow> Panic NilDereference | Some x \<Rightarrow> Ret x)"

lemma go_index_nat [simp]: "i < length xs \<Longrightarrow> go_index xs (int i) = Ret (xs ! i)"
  by (simp add: go_index_def)

lemma go_assign_nat [simp]: "i < length xs \<Longrightarrow> go_assign xs (int i) f = Ret (xs[i := f (xs ! i)])"
  by (simp add: go_assign_def)

lemma go_slice_to_nat [simp]: "n \<le> length xs \<Longrightarrow> go_slice_to xs (int n) = Ret (take n xs)"
  by (simp add: go_slice_to_def)

lemma go_deref_simps [simp]: "go_deref (Some x) = Ret x" "go_deref None = Panic NilDereference"
  by (simp_all add: go_deref_def)

section \<open>Running a tree against a client\<close>

text \<open>
  A client answers each kind of call and may change the world \<open>'w\<close>, which holds whatever is
  outside the program: the API server, its cache, the kubelet, other clients.
\<close>

record 'w client =
  sp_srv :: "StatefulPod req \<Rightarrow> 'w \<Rightarrow> StatefulPod resp \<times> 'w"
  pod_srv :: "Pod req \<Rightarrow> 'w \<Rightarrow> Pod resp \<times> 'w"
  pvc_srv :: "PVC req \<Rightarrow> 'w \<Rightarrow> PVC resp \<times> 'w"
  svc_srv :: "Service req \<Rightarrow> 'w \<Rightarrow> Service resp \<times> 'w"
  pv_srv :: "PV req \<Rightarrow> 'w \<Rightarrow> PV resp \<times> 'w"
  node_srv :: "Node req \<Rightarrow> 'w \<Rightarrow> Node resp \<times> 'w"
  clock :: "'w \<Rightarrow> gotime \<times> 'w"

datatype 'a outcome = Done 'a | Panicked go_panic | NoFuel

primrec run :: "'w client \<Rightarrow> 'a prog \<Rightarrow> 'w \<Rightarrow> 'a outcome \<times> 'w" where
  "run cl (Ret a) w = (Done a, w)"
| "run cl (Panic p) w = (Panicked p, w)"
| "run cl OutOfFuel w = (NoFuel, w)"
| "run cl (CallSP r k) w = (case sp_srv cl r w of (x, w') \<Rightarrow> run cl (k x) w')"
| "run cl (CallPod r k) w = (case pod_srv cl r w of (x, w') \<Rightarrow> run cl (k x) w')"
| "run cl (CallPVC r k) w = (case pvc_srv cl r w of (x, w') \<Rightarrow> run cl (k x) w')"
| "run cl (CallSvc r k) w = (case svc_srv cl r w of (x, w') \<Rightarrow> run cl (k x) w')"
| "run cl (CallPV r k) w = (case pv_srv cl r w of (x, w') \<Rightarrow> run cl (k x) w')"
| "run cl (CallNode r k) w = (case node_srv cl r w of (x, w') \<Rightarrow> run cl (k x) w')"
| "run cl (Now k) w = (case clock cl w of (x, w') \<Rightarrow> run cl (k x) w')"

lemma run_bnd [simp]:
  "run cl (bnd m f) w = (case run cl m w of
     (Done a, w') \<Rightarrow> run cl (f a) w' | (Panicked p, w') \<Rightarrow> (Panicked p, w') | (NoFuel, w') \<Rightarrow> (NoFuel, w'))"
  by (induction m arbitrary: w) (auto split: prod.splits)

lemma run_bnd_Done: "run cl m w = (Done a, w') \<Longrightarrow> run cl (bnd m f) w = run cl (f a) w'"
  by simp

section \<open>Contracts: every client at once\<close>

text \<open>
  A contract says of each kind of object which requests a program makes (\<open>guar\<close>) and which
  answers it relies on (\<open>rely\<close>). \<open>meets C Q R m\<close>: whatever answers within \<open>C\<close> the program
  \<open>m\<close> gets, all its requests are within \<open>C\<close>, its result satisfies \<open>Q\<close> and its panics \<open>R\<close>.
\<close>

record 'o side =
  guar :: "'o req \<Rightarrow> bool"
  rely :: "'o req \<Rightarrow> 'o resp \<Rightarrow> bool"

definition free_side :: "'o side" where
  "free_side = \<lparr>guar = (\<lambda>_. True), rely = (\<lambda>_ _. True)\<rparr>"

lemma free_side_simps [simp]: "guar free_side r" "rely free_side r x"
  by (simp_all add: free_side_def)

record contract =
  c_sp :: "StatefulPod side"
  c_pod :: "Pod side"
  c_pvc :: "PVC side"
  c_svc :: "Service side"
  c_pv :: "PV side"
  c_node :: "Node side"

definition free_contract :: contract where
  "free_contract = \<lparr>c_sp = free_side, c_pod = free_side, c_pvc = free_side, c_svc = free_side,
     c_pv = free_side, c_node = free_side\<rparr>"

primrec meets :: "contract \<Rightarrow> ('a \<Rightarrow> bool) \<Rightarrow> (go_panic \<Rightarrow> bool) \<Rightarrow> 'a prog \<Rightarrow> bool" where
  "meets C Q R (Ret a) = Q a"
| "meets C Q R (Panic p) = R p"
| "meets C Q R OutOfFuel = True"
| "meets C Q R (CallSP r k) = (guar (c_sp C) r \<and> (\<forall>x. rely (c_sp C) r x \<longrightarrow> meets C Q R (k x)))"
| "meets C Q R (CallPod r k) = (guar (c_pod C) r \<and> (\<forall>x. rely (c_pod C) r x \<longrightarrow> meets C Q R (k x)))"
| "meets C Q R (CallPVC r k) = (guar (c_pvc C) r \<and> (\<forall>x. rely (c_pvc C) r x \<longrightarrow> meets C Q R (k x)))"
| "meets C Q R (CallSvc r k) = (guar (c_svc C) r \<and> (\<forall>x. rely (c_svc C) r x \<longrightarrow> meets C Q R (k x)))"
| "meets C Q R (CallPV r k) = (guar (c_pv C) r \<and> (\<forall>x. rely (c_pv C) r x \<longrightarrow> meets C Q R (k x)))"
| "meets C Q R (CallNode r k) = (guar (c_node C) r \<and> (\<forall>x. rely (c_node C) r x \<longrightarrow> meets C Q R (k x)))"
| "meets C Q R (Now k) = (\<forall>t. meets C Q R (k t))"

lemma meets_bnd [simp]: "meets C Q R (bnd m f) = meets C (\<lambda>a. meets C Q R (f a)) R m"
  by (induction m) auto

lemma meets_mono: "meets C Q R m \<Longrightarrow> (\<And>a. Q a \<Longrightarrow> Q' a) \<Longrightarrow> meets C Q' R m"
  by (induction m) auto

text \<open>The sequencing rule the proofs use: the first part by its own lemma.\<close>

lemma meets_bndI: "meets C P R m \<Longrightarrow> (\<And>a. P a \<Longrightarrow> meets C Q R (f a)) \<Longrightarrow> meets C Q R (bnd m f)"
  by (auto intro: meets_mono)

text \<open>Rules that follow the control flow of a program without simplifying it.\<close>

lemma meets_if: "(b \<Longrightarrow> meets C Q R m) \<Longrightarrow> (\<not> b \<Longrightarrow> meets C Q R n) \<Longrightarrow> meets C Q R (if b then m else n)"
  by simp

lemma meets_sum:
  "(\<And>e. r = Inl e \<Longrightarrow> meets C Q R (f e)) \<Longrightarrow> (\<And>x. r = Inr x \<Longrightarrow> meets C Q R (g x)) \<Longrightarrow>
   meets C Q R (case r of Inl e \<Rightarrow> f e | Inr x \<Rightarrow> g x)"
  by (cases r) auto

lemma meets_option:
  "(r = None \<Longrightarrow> meets C Q R m) \<Longrightarrow> (\<And>x. r = Some x \<Longrightarrow> meets C Q R (f x)) \<Longrightarrow>
   meets C Q R (case r of None \<Rightarrow> m | Some x \<Rightarrow> f x)"
  by (cases r) auto

lemma meets_pair: "(\<And>a b. r = (a, b) \<Longrightarrow> meets C Q R (f a b)) \<Longrightarrow> meets C Q R (case r of (a, b) \<Rightarrow> f a b)"
  by (cases r) auto

lemma meets_Let: "(\<And>x. x = v \<Longrightarrow> meets C Q R (f x)) \<Longrightarrow> meets C Q R (let x = v in f x)"
  by (simp add: Let_def)

lemma meets_Ret: "Q a \<Longrightarrow> meets C Q R (Ret a)"
  by simp

lemmas meets_flow = meets_if meets_sum meets_option meets_pair meets_Let meets_Ret

text \<open>A client keeps a contract when its answers are those relied on.\<close>

definition answers :: "'w client \<Rightarrow> contract \<Rightarrow> bool" where
  "answers cl C \<longleftrightarrow>
     (\<forall>r w. rely (c_sp C) r (fst (sp_srv cl r w))) \<and> (\<forall>r w. rely (c_pod C) r (fst (pod_srv cl r w))) \<and>
     (\<forall>r w. rely (c_pvc C) r (fst (pvc_srv cl r w))) \<and> (\<forall>r w. rely (c_svc C) r (fst (svc_srv cl r w))) \<and>
     (\<forall>r w. rely (c_pv C) r (fst (pv_srv cl r w))) \<and> (\<forall>r w. rely (c_node C) r (fst (node_srv cl r w)))"

text \<open>What a contract proves of a run against a client that keeps it.\<close>

fun outcome_ok :: "('a \<Rightarrow> bool) \<Rightarrow> (go_panic \<Rightarrow> bool) \<Rightarrow> 'a outcome \<Rightarrow> bool" where
  "outcome_ok Q R (Done a) = Q a"
| "outcome_ok Q R (Panicked p) = R p"
| "outcome_ok Q R NoFuel = True"

lemma meets_run:
  assumes "answers cl C" "meets C Q R m"
  shows "outcome_ok Q R (fst (run cl m w))"
  using assms(2)
proof (induction m arbitrary: w)
  case (CallSP r k) then show ?case using assms(1) by (auto simp: answers_def split: prod.splits) (metis fst_conv rangeI)
next
  case (CallPod r k) then show ?case using assms(1) by (auto simp: answers_def split: prod.splits) (metis fst_conv rangeI)
next
  case (CallPVC r k) then show ?case using assms(1) by (auto simp: answers_def split: prod.splits) (metis fst_conv rangeI)
next
  case (CallSvc r k) then show ?case using assms(1) by (auto simp: answers_def split: prod.splits) (metis fst_conv rangeI)
next
  case (CallPV r k) then show ?case using assms(1) by (auto simp: answers_def split: prod.splits) (metis fst_conv rangeI)
next
  case (CallNode r k) then show ?case using assms(1) by (auto simp: answers_def split: prod.splits) (metis fst_conv rangeI)
qed (auto split: prod.splits)

text \<open>
  The same for a client that keeps the contract only while the world satisfies \<open>I\<close>, which every request
  within the contract preserves. \<open>upholds\<close> is this for one kind of object.
\<close>

definition upholds :: "('w \<Rightarrow> bool) \<Rightarrow> 'o side \<Rightarrow> ('o req \<Rightarrow> 'w \<Rightarrow> 'o resp \<times> 'w) \<Rightarrow> bool" where
  "upholds I S f \<longleftrightarrow> (\<forall>r w. I w \<longrightarrow> guar S r \<longrightarrow> rely S r (fst (f r w)) \<and> I (snd (f r w)))"

definition upheld :: "'w client \<Rightarrow> contract \<Rightarrow> ('w \<Rightarrow> bool) \<Rightarrow> bool" where
  "upheld cl C I \<longleftrightarrow> upholds I (c_sp C) (sp_srv cl) \<and> upholds I (c_pod C) (pod_srv cl) \<and> upholds I (c_pvc C) (pvc_srv cl) \<and>
     upholds I (c_svc C) (svc_srv cl) \<and> upholds I (c_pv C) (pv_srv cl) \<and> upholds I (c_node C) (node_srv cl) \<and>
     (\<forall>w. I w \<longrightarrow> I (snd (clock cl w)))"

lemma upholds_step:
  assumes "upholds I S f" "guar S r \<and> (\<forall>x. rely S r x \<longrightarrow> P x)" "I w"
  obtains x w' where "f r w = (x, w')" "I w'" "P x"
  using assms unfolding upholds_def by (cases "f r w") fastforce

lemma run_upheld:
  assumes "upheld cl C I" "meets C Q R m" "I w"
  shows "I (snd (run cl m w)) \<and> outcome_ok Q R (fst (run cl m w))"
  using assms(2,3)
proof (induction m arbitrary: w)
  case (CallSP r k)
  have "upholds I (c_sp C) (sp_srv cl)" using assms(1) by (simp add: upheld_def)
  then show ?case by (rule upholds_step [where I = I and P = "\<lambda>x. meets C Q R (k x)", OF _ CallSP.prems(1) [unfolded meets.simps] CallSP.prems(2)]) (simp add: CallSP.IH)
next
  case (CallPod r k)
  have "upholds I (c_pod C) (pod_srv cl)" using assms(1) by (simp add: upheld_def)
  then show ?case by (rule upholds_step [where I = I and P = "\<lambda>x. meets C Q R (k x)", OF _ CallPod.prems(1) [unfolded meets.simps] CallPod.prems(2)]) (simp add: CallPod.IH)
next
  case (CallPVC r k)
  have "upholds I (c_pvc C) (pvc_srv cl)" using assms(1) by (simp add: upheld_def)
  then show ?case by (rule upholds_step [where I = I and P = "\<lambda>x. meets C Q R (k x)", OF _ CallPVC.prems(1) [unfolded meets.simps] CallPVC.prems(2)]) (simp add: CallPVC.IH)
next
  case (CallSvc r k)
  have "upholds I (c_svc C) (svc_srv cl)" using assms(1) by (simp add: upheld_def)
  then show ?case by (rule upholds_step [where I = I and P = "\<lambda>x. meets C Q R (k x)", OF _ CallSvc.prems(1) [unfolded meets.simps] CallSvc.prems(2)]) (simp add: CallSvc.IH)
next
  case (CallPV r k)
  have "upholds I (c_pv C) (pv_srv cl)" using assms(1) by (simp add: upheld_def)
  then show ?case by (rule upholds_step [where I = I and P = "\<lambda>x. meets C Q R (k x)", OF _ CallPV.prems(1) [unfolded meets.simps] CallPV.prems(2)]) (simp add: CallPV.IH)
next
  case (CallNode r k)
  have "upholds I (c_node C) (node_srv cl)" using assms(1) by (simp add: upheld_def)
  then show ?case by (rule upholds_step [where I = I and P = "\<lambda>x. meets C Q R (k x)", OF _ CallNode.prems(1) [unfolded meets.simps] CallNode.prems(2)]) (simp add: CallNode.IH)
next
  case (Now k)
  obtain t w' where t: "clock cl w = (t, w')" by fastforce
  then have "I w'" using assms(1) Now.prems(2) by (auto simp: upheld_def)
  with Now.prems(1) show ?case by (simp add: t Now.IH)
qed simp_all

end
