(* ===== verification/Tools.thy ===== *)
theory Tools
  imports Prog
begin

text \<open>
  \<open>tools/tools.go\<close> and the part of \<open>strconv\<close> it uses: decimal printing (\<open>strconv.Itoa\<close>, the
  \<open>%v\<close> of \<open>fmt\<close>) and \<open>strconv.Atoi\<close> with its clamping on overflow. The lemmas: printing and
  reading back an index gives the index, printed numbers are injective and hold digits only, and
  the finalizer list operations behave as membership and removal of the first occurrence.
\<close>

section \<open>strconv\<close>

definition digit_char :: "nat \<Rightarrow> char" where
  "digit_char d = char_of (48 + d)"

definition digit_val :: "char \<Rightarrow> nat option" where
  "digit_val c = (let n = of_char c in if 48 \<le> n \<and> n \<le> 57 then Some (n - 48) else None)"

fun nat_Itoa :: "nat \<Rightarrow> string" where
  "nat_Itoa n = (if n < 10 then [digit_char n] else nat_Itoa (n div 10) @ [digit_char (n mod 10)])"

declare nat_Itoa.simps [simp del]

definition Itoa :: "int \<Rightarrow> string" where
  "Itoa i = (if i < 0 then CHR ''-'' # nat_Itoa (nat (- i)) else nat_Itoa (nat i))"

text \<open>
  \<open>ParseUint(s, 10, 64)\<close>: a character that is no digit is a syntax error (\<open>None\<close>), passing
  \<open>2 ^ 64 - 1\<close> stops the scan at once with that value.
\<close>

fun ParseUint_loop :: "nat \<Rightarrow> string \<Rightarrow> nat option" where
  "ParseUint_loop n [] = Some n"
| "ParseUint_loop n (c # cs) =
     (case digit_val c of
        None \<Rightarrow> None
      | Some d \<Rightarrow> if 10 * n + d > 2 ^ 64 - 1 then Some (2 ^ 64 - 1) else ParseUint_loop (10 * n + d) cs)"

definition ParseUint :: "string \<Rightarrow> nat option" where
  "ParseUint s = (if s = [] then None else ParseUint_loop 0 s)"

text \<open>
  The value part of \<open>strconv.Atoi\<close>: an optional sign, then digits; 0 with a syntax error, the
  nearest 64-bit value with a range error.
\<close>

definition Atoi_value :: "string \<Rightarrow> int" where
  "Atoi_value s =
     (let neg = (s \<noteq> [] \<and> hd s = CHR ''-'');
          rest = (if s \<noteq> [] \<and> (hd s = CHR ''-'' \<or> hd s = CHR ''+'') then tl s else s)
      in case ParseUint rest of
           None \<Rightarrow> 0
         | Some n \<Rightarrow> if neg then max (- (2 ^ 63)) (- int n) else min (2 ^ 63 - 1) (int n))"

section \<open>tools.go\<close>

definition StringToInt :: "string \<Rightarrow> int" where
  "StringToInt str = Atoi_value str"

fun MatchStringFromArray :: "string list \<Rightarrow> string \<Rightarrow> bool" where
  "MatchStringFromArray [] value = False"
| "MatchStringFromArray (v # vs) value = (if v = value then True else MatchStringFromArray vs value)"

fun RemoveString :: "string list \<Rightarrow> string \<Rightarrow> string list" where
  "RemoveString [] value = []"
| "RemoveString (v # vs) value = (if v = value then vs else v # RemoveString vs value)"

definition IntToIntr32 :: "int \<Rightarrow> int32 option" where
  "IntToIntr32 index = Some (int32_of index)"

section \<open>Printing and reading back\<close>

lemma digit_val_char [simp]: "d < 10 \<Longrightarrow> digit_val (digit_char d) = Some d"
  by (simp add: digit_val_def digit_char_def)

lemma ParseUint_loop_append:
  "ParseUint_loop n xs = Some m \<Longrightarrow> m < 2 ^ 64 - 1 \<Longrightarrow> ParseUint_loop n (xs @ ys) = ParseUint_loop m ys"
proof (induction n xs rule: ParseUint_loop.induct)
  case (2 n c cs)
  then show ?case by (auto split: option.splits if_splits)
qed simp

lemma ParseUint_loop_Itoa: "n < 2 ^ 64 \<Longrightarrow> ParseUint_loop 0 (nat_Itoa n) = Some n"
proof (induction n rule: nat_Itoa.induct)
  case (1 n)
  show ?case
  proof (cases "n < 10")
    case True
    then show ?thesis by (simp add: nat_Itoa.simps [of n])
  next
    case False
    with 1 have "ParseUint_loop 0 (nat_Itoa (n div 10)) = Some (n div 10)" by simp
    moreover have "n div 10 < 2 ^ 64 - 1" using "1.prems" by simp
    ultimately have "ParseUint_loop 0 (nat_Itoa (n div 10) @ [digit_char (n mod 10)]) =
        ParseUint_loop (n div 10) [digit_char (n mod 10)]"
      by (rule ParseUint_loop_append)
    also have "\<dots> = Some n" using "1.prems" by simp
    finally show ?thesis using False by (simp add: nat_Itoa.simps [of n])
  qed
qed

lemma nat_Itoa_digits: "c \<in> set (nat_Itoa n) \<Longrightarrow> \<exists>d < 10. c = digit_char d"
proof (induction n rule: nat_Itoa.induct)
  case (1 n)
  show ?case
  proof (cases "n < 10")
    case True
    with "1.prems" show ?thesis by (auto simp: nat_Itoa.simps [of n])
  next
    case False
    with "1.prems" have "c \<in> set (nat_Itoa (n div 10)) \<or> c = digit_char (n mod 10)"
      by (auto simp: nat_Itoa.simps [of n])
    moreover have "n mod 10 < 10" by simp
    ultimately show ?thesis using "1.IH" False by blast
  qed
qed

lemma of_char_digit: "d < 10 \<Longrightarrow> of_char (digit_char d) = 48 + d"
  by (simp add: digit_char_def)

lemma digit_char_not_sign:
  assumes "d < 10"
  shows "digit_char d \<noteq> CHR ''-''" "digit_char d \<noteq> CHR ''+''"
proof -
  have *: "(of_char (digit_char d) :: nat) = 48 + d" using assms by (rule of_char_digit)
  show "digit_char d \<noteq> CHR ''-''"
  proof
    assume "digit_char d = CHR ''-''"
    with * have "(of_char CHR ''-'' :: nat) = 48 + d" by simp
    then show False by simp
  qed
  show "digit_char d \<noteq> CHR ''+''"
  proof
    assume "digit_char d = CHR ''+''"
    with * have "(of_char CHR ''+'' :: nat) = 48 + d" by simp
    then show False by simp
  qed
qed

lemma nat_Itoa_nonempty [simp]: "nat_Itoa n \<noteq> []" "[] \<noteq> nat_Itoa n"
proof -
  show "nat_Itoa n \<noteq> []" by (subst nat_Itoa.simps) simp
  then show "[] \<noteq> nat_Itoa n" by simp
qed

lemma nat_Itoa_no_sign: "CHR ''-'' \<notin> set (nat_Itoa n)" "CHR ''+'' \<notin> set (nat_Itoa n)"
  using nat_Itoa_digits digit_char_not_sign by metis+

lemma ParseUint_Itoa: "n < 2 ^ 64 \<Longrightarrow> ParseUint (nat_Itoa n) = Some n"
  by (simp add: ParseUint_def ParseUint_loop_Itoa)

lemma nat_Itoa_hd: "hd (nat_Itoa n) \<noteq> CHR ''-''" "hd (nat_Itoa n) \<noteq> CHR ''+''"
  using nat_Itoa_no_sign [of n] nat_Itoa_nonempty(1) [of n] by (metis hd_in_set)+

lemma Atoi_Itoa:
  assumes "- (2 ^ 63) \<le> i" "i < 2 ^ 63"
  shows "Atoi_value (Itoa i) = i"
proof (cases "i < 0")
  case True
  with assms have "nat (- i) < 2 ^ 64" by simp
  then have "ParseUint (nat_Itoa (nat (- i))) = Some (nat (- i))" by (rule ParseUint_Itoa)
  with True assms show ?thesis by (simp add: Atoi_value_def Itoa_def)
next
  case False
  with assms have "nat i < 2 ^ 64" by simp
  then have "ParseUint (nat_Itoa (nat i)) = Some (nat i)" by (rule ParseUint_Itoa)
  with False assms show ?thesis by (simp add: Atoi_value_def Itoa_def nat_Itoa_hd)
qed

lemma nat_Itoa_inj: "nat_Itoa m = nat_Itoa n \<Longrightarrow> m = n"
proof (induction m arbitrary: n rule: nat_Itoa.induct)
  case (1 m)
  show ?case
  proof (cases "m < 10")
    case True
    then have m: "nat_Itoa m = [digit_char m]" by (simp add: nat_Itoa.simps [of m])
    with "1.prems" have "n < 10" by (cases "n < 10") (simp_all add: nat_Itoa.simps [of n])
    with "1.prems" m have "digit_char m = digit_char n" by (simp add: nat_Itoa.simps [of n])
    then have "digit_val (digit_char m) = digit_val (digit_char n)" by simp
    with True \<open>n < 10\<close> show ?thesis by simp
  next
    case False
    then have m: "nat_Itoa m = nat_Itoa (m div 10) @ [digit_char (m mod 10)]"
      by (simp add: nat_Itoa.simps [of m])
    with "1.prems" have "\<not> n < 10" by (cases "n < 10") (simp_all add: nat_Itoa.simps [of n])
    then have n: "nat_Itoa n = nat_Itoa (n div 10) @ [digit_char (n mod 10)]"
      by (simp add: nat_Itoa.simps [of n])
    from "1.prems" m n have "nat_Itoa (m div 10) = nat_Itoa (n div 10)"
      and d: "digit_char (m mod 10) = digit_char (n mod 10)" by simp_all
    then have "m div 10 = n div 10" using "1.IH" False by blast
    moreover from d have "digit_val (digit_char (m mod 10)) = digit_val (digit_char (n mod 10))" by simp
    then have "m mod 10 = n mod 10" by simp
    ultimately show ?thesis by (metis div_mult_mod_eq)
  qed
qed

lemma Itoa_inj: "Itoa i = Itoa j \<Longrightarrow> i = j"
proof -
  assume eq: "Itoa i = Itoa j"
  have neg: "k < 0 \<longleftrightarrow> hd (Itoa k) = CHR ''-''" for k
    by (simp add: Itoa_def nat_Itoa_hd)
  from eq neg [of i] neg [of j] have "i < 0 \<longleftrightarrow> j < 0" by simp
  then show ?thesis
    using eq by (cases "i < 0") (auto simp: Itoa_def dest!: nat_Itoa_inj)
qed

section \<open>The finalizer list\<close>

lemma MatchStringFromArray_iff [simp]: "MatchStringFromArray xs v \<longleftrightarrow> v \<in> set xs"
  by (induction xs) auto

lemma RemoveString_remove1 [simp]: "RemoveString xs v = remove1 v xs"
  by (induction xs) auto

lemma remove1_absent: "distinct xs \<Longrightarrow> v \<notin> set (remove1 v xs)"
  by simp

end
