(* ===== verification/Resource.thy ===== *)
theory Resource
  imports Tools
begin

text \<open>
  \<open>services/resource.go\<close>: the constants, the usability test of a reserved persistent volume, the
  readiness test of a node and the names of the child objects. After it, the interface
  \<open>ServiceInf\<close> of the same file as locales: what a service promises of \<open>IsExists\<close>, \<open>Update\<close> and
  \<open>Delete\<close>, and what follows for the controllers that use it, proved once.
\<close>

section \<open>Constants\<close>

definition ResourceVersionUnSame :: string where "ResourceVersionUnSame = ''ResourceVersionUnSame''"
definition ParentNmae :: string where [simp]: "ParentNmae = ''parentName''"
definition StatefulPodKind :: string where [simp]: "StatefulPodKind = ''StatefulPod''"
definition Index :: string where [simp]: "Index = ''index''"

lemma GroupVersion_String_simp [simp]: "GroupVersion_String = ''iapetos.foundary-cloud.io/v1''"
  by (simp add: GroupVersion_String_def GroupVersion_def)

text \<open>The group, version and kind the services put into owner references.\<close>

definition StatefulPod_GVK :: GroupVersionKind where
  "StatefulPod_GVK = \<lparr>gvk_Group = gv_Group GroupVersion, gvk_Version = gv_Version GroupVersion,
     gvk_Kind = StatefulPodKind\<rparr>"

section \<open>Names\<close>

definition SetPVCName :: "StatefulPod \<Rightarrow> int \<Rightarrow> (string \<times> StatefulPod) prog" where
  "SetPVCName sp index =
     bnd (go_index (Volumes (PodTemplate (Spec sp))) 0) (\<lambda>v.
     bnd (go_deref (PersistentVolumeClaim v)) (\<lambda>src.
       let src' = (if ClaimName src = '''' then src\<lparr>ClaimName := ''data''\<rparr> else src);
           tmpl = PodTemplate (Spec sp);
           sp' = sp\<lparr>Spec := (Spec sp)\<lparr>PodTemplate :=
                   tmpl\<lparr>Volumes := (Volumes tmpl)[0 := v\<lparr>PersistentVolumeClaim := Some src'\<rparr>]\<rparr>\<rparr>\<rparr>
       in Ret (ClaimName src' @ ''-'' @ Name (sp_Meta sp) @ ''-'' @ Itoa index, sp')))"

definition SetServiceName :: "StatefulPod \<Rightarrow> string" where
  "SetServiceName sp = Name (sp_Meta sp) @ ''-'' @ ''service''"

section \<open>Nodes and persistent volumes\<close>

definition IsNodeReady :: "Env \<Rightarrow> NamespacedName \<Rightarrow> bool prog" where
  "IsNodeReady env nodeName =
     (if nn_Name nodeName = '''' then Ret True
      else CallNode (Get nodeName) (\<lambda>r. case r of
        Inl e \<Rightarrow> Ret False
      | Inr node \<Rightarrow>
          let timeOut = seconds (node_Timeout (cfg_Node (cfg env)));
              conds = node_Conditions node
          in bnd (go_index conds (int (length conds) - 1)) (\<lambda>c.
             if nc_Status c \<noteq> ConditionTrue
             then Now (\<lambda>now. if time_Sub now (nc_LastTransitionTime c) \<ge> timeOut then Ret False else Ret True)
             else Ret True)))"

definition IsPvCanUse :: "Env \<Rightarrow> NamespacedName \<Rightarrow> string option prog" where
  "IsPvCanUse env pvName =
     CallPV (Get pvName) (\<lambda>r. case r of
       Inl e \<Rightarrow> Ret None
     | Inr pv \<Rightarrow>
         if pv_Phase pv \<noteq> VolumeAvailable then Ret None
         else (case gomap_get (Annotations (pv_Meta pv)) ''kubevirt.io/provisionOnNode'' of
           None \<Rightarrow> Ret None
         | Some nodeName \<Rightarrow>
             bnd (IsNodeReady env (NN '''' nodeName)) (\<lambda>ready.
             if \<not> ready then Ret None else Ret (Some nodeName))))"

section \<open>The interface ServiceInf\<close>

text \<open>
  \<open>srv\<close> is the client's answering function for the kind of object a service is about, \<open>meta\<close>
  its metadata. The first locale is \<open>IsExists\<close>: one read, an error counts as absence.
\<close>

locale reader =
  fixes srv :: "'w client \<Rightarrow> 'o req \<Rightarrow> 'w \<Rightarrow> 'o resp \<times> 'w"
    and meta :: "'o \<Rightarrow> ObjectMeta"
    and IsExists :: "NamespacedName \<Rightarrow> 'o option prog"
  assumes run_IsExists: "run cl (IsExists nn) w =
    (case srv cl (Get nn) w of (Inl e, w') \<Rightarrow> (Done None, w') | (Inr x, w') \<Rightarrow> (Done (Some x), w'))"

text \<open>
  A client reads a view \<open>V\<close> of the world when a get leaves the world alone, answers with the
  object of the view and with NotFound where the view has none.
\<close>

definition reads :: "('o req \<Rightarrow> 'w \<Rightarrow> 'o resp \<times> 'w) \<Rightarrow> ('w \<Rightarrow> NamespacedName \<Rightarrow> 'o option) \<Rightarrow> bool" where
  "reads f V \<longleftrightarrow> (\<forall>nn w. f (Get nn) w = (case V w nn of None \<Rightarrow> Inl NotFound | Some x \<Rightarrow> Inr x, w))"

lemma reads_Get: "reads f V \<Longrightarrow> f (Get nn) w = (case V w nn of None \<Rightarrow> Inl NotFound | Some x \<Rightarrow> Inr x, w)"
  by (simp add: reads_def)

context reader
begin

lemma IsExists_reads: "reads (srv cl) V \<Longrightarrow> run cl (IsExists nn) w = (Done (V w nn), w)"
  by (simp add: run_IsExists reads_Get split: option.splits)

lemma IsExists_total: "\<exists>r w'. run (cl :: 'w client) (IsExists nn) w = (Done r, w')"
  by (auto simp: run_IsExists split: prod.splits sum.splits)

end

text \<open>
  Optimistic update: \<open>IsResourceVersionSame\<close> reads the object again, and \<open>Update\<close> writes only if
  the version read is the version the caller holds.
\<close>

locale versioned = reader srv meta IsExists
  for srv :: "'w client \<Rightarrow> 'o req \<Rightarrow> 'w \<Rightarrow> 'o resp \<times> 'w"
    and meta :: "'o \<Rightarrow> ObjectMeta"
    and IsExists :: "NamespacedName \<Rightarrow> 'o option prog" +
  fixes Same :: "'o \<Rightarrow> bool prog" and Write :: "'o \<Rightarrow> (go_error + 'o) prog"
  assumes Same_eq: "Same x = bnd (IsExists (NN (Namespace (meta x)) (Name (meta x)))) (\<lambda>r. case r of
      None \<Rightarrow> Ret False
    | Some y \<Rightarrow> if ResourceVersion (meta x) \<noteq> ResourceVersion (meta y) then Ret False else Ret True)"
    and run_Write: "run cl (Write x) w = (case run cl (Same x) w of
        (Done b, w') \<Rightarrow> if b then (case srv cl (Update x) w' of (y, w'') \<Rightarrow> (Done y, w''))
                        else (Done (Inl (ErrorsNew '''')), w')
      | (Panicked p, w') \<Rightarrow> (Panicked p, w') | (NoFuel, w') \<Rightarrow> (NoFuel, w'))"
begin

lemma Same_reads: "reads (srv cl) V \<Longrightarrow> run cl (Same x) w =
    (Done (case V w (NN (Namespace (meta x)) (Name (meta x))) of
        None \<Rightarrow> False | Some y \<Rightarrow> ResourceVersion (meta x) = ResourceVersion (meta y)), w)"
  by (simp add: Same_eq IsExists_reads split: option.splits)

text \<open>A stale copy, or one of a deleted object, is refused without a write.\<close>

lemma Write_stale:
  assumes "reads (srv cl) V"
    "\<forall>y. V w (NN (Namespace (meta x)) (Name (meta x))) = Some y \<longrightarrow> ResourceVersion (meta y) \<noteq> ResourceVersion (meta x)"
  shows "run cl (Write x) w = (Done (Inl (ErrorsNew '''')), w)"
  using assms by (auto simp: run_Write Same_reads split: option.splits)

text \<open>A current copy is written, and the answer of the server is the result.\<close>

lemma Write_current:
  assumes "reads (srv cl) V" "V w (NN (Namespace (meta x)) (Name (meta x))) = Some y"
    "ResourceVersion (meta y) = ResourceVersion (meta x)"
  shows "run cl (Write x) w = (case srv cl (Update x) w of (z, w') \<Rightarrow> (Done z, w'))"
  using assms by (simp add: run_Write Same_reads)

lemma Write_total: "\<exists>r w'. run (cl :: 'w client) (Write x) w = (Done r, w')"
proof -
  obtain r w' where "run cl (IsExists (NN (Namespace (meta x)) (Name (meta x)))) w = (Done r, w')"
    using IsExists_total by blast
  then show ?thesis by (auto simp: run_Write Same_eq split: prod.splits option.splits)
qed

end

text \<open>
  Deletion: NotFound is success. A controller removes a child by looking it up and deleting it, and reports completion
  only when the lookup finds nothing. The loop over a status list counts the entries whose child
  is gone and gives up at the first delete that fails.
\<close>

locale remover = reader srv meta IsExists
  for srv :: "'w client \<Rightarrow> 'o req \<Rightarrow> 'w \<Rightarrow> 'o resp \<times> 'w"
    and meta :: "'o \<Rightarrow> ObjectMeta"
    and IsExists :: "NamespacedName \<Rightarrow> 'o option prog" +
  fixes Remove :: "'o \<Rightarrow> go_error option prog"
    and loop :: "string \<Rightarrow> 's list \<Rightarrow> nat \<Rightarrow> nat option prog"
    and name :: "'s \<Rightarrow> string"
  assumes run_Remove: "run cl (Remove x) w =
      (case srv cl (Delete x []) w of (Inl e, w') \<Rightarrow> (Done (IgnoreNotFound e), w') | (Inr y, w') \<Rightarrow> (Done None, w'))"
    and loop_Nil: "loop ns [] cnt = Ret (Some cnt)"
    and loop_Cons: "loop ns (s # ss) cnt = bnd (IsExists (NN ns (name s))) (\<lambda>r. case r of
        Some x \<Rightarrow> bnd (Remove x) (\<lambda>e. case e of Some err \<Rightarrow> Ret None | None \<Rightarrow> loop ns ss cnt)
      | None \<Rightarrow> loop ns ss (cnt + 1))"
begin

lemma Remove_total: "\<exists>r w'. run (cl :: 'w client) (Remove x) w = (Done r, w')"
  by (auto simp: run_Remove split: prod.splits sum.splits)

lemma loop_bound:
  "run (cl :: 'w client) (loop ns ss cnt) w = (Done (Some n), w') \<Longrightarrow> cnt \<le> n \<and> n \<le> cnt + length ss"
proof (induction ss arbitrary: cnt w)
  case Nil
  then show ?case by (simp add: loop_Nil)
next
  case (Cons s ss)
  obtain r w1 where r: "run cl (IsExists (NN ns (name s))) w = (Done r, w1)"
    using IsExists_total by blast
  show ?case
  proof (cases r)
    case None
    with r Cons.prems have "run cl (loop ns ss (cnt + 1)) w1 = (Done (Some n), w')"
      by (simp add: loop_Cons)
    from Cons.IH [OF this] show ?thesis by simp
  next
    case (Some x)
    obtain e w2 where "run cl (Remove x) w1 = (Done e, w2)" using Remove_total by blast
    with r Some Cons.prems have "run cl (loop ns ss cnt) w2 = (Done (Some n), w')"
      by (cases e) (simp_all add: loop_Cons)
    from Cons.IH [OF this] show ?thesis by simp
  qed
qed

lemma loop_absent:
  assumes "reads (srv cl) V" "\<forall>s \<in> set ss. V w (NN ns (name s)) = None"
  shows "run cl (loop ns ss cnt) w = (Done (Some (cnt + length ss)), w)"
  using assms(2)
proof (induction ss arbitrary: cnt)
  case Nil
  then show ?case by (simp add: loop_Nil)
next
  case (Cons s ss)
  then show ?case by (simp add: loop_Cons IsExists_reads [OF assms(1)])
qed

text \<open>The count reaches the length of the list exactly when no child is there any more.\<close>

lemma loop_complete_iff:
  assumes "reads (srv cl) V"
  shows "(\<exists>w'. run cl (loop ns ss cnt) w = (Done (Some (cnt + length ss)), w')) \<longleftrightarrow>
    (\<forall>s \<in> set ss. V w (NN ns (name s)) = None)" (is "?L \<longleftrightarrow> ?R")
proof
  assume ?R
  then show ?L using loop_absent [OF assms] by blast
next
  assume ?L
  then show ?R
  proof (induction ss arbitrary: cnt)
    case (Cons s ss)
    then obtain w' where w': "run cl (loop ns (s # ss) cnt) w = (Done (Some (cnt + length (s # ss))), w')"
      by blast
    show ?case
    proof (cases "V w (NN ns (name s))")
      case None
      with w' have "run cl (loop ns ss (cnt + 1)) w = (Done (Some (cnt + 1 + length ss)), w')"
        by (simp add: loop_Cons IsExists_reads [OF assms])
      then have "\<forall>s \<in> set ss. V w (NN ns (name s)) = None" using Cons.IH by blast
      with None show ?thesis by simp
    next
      case (Some x)
      obtain e w2 where "run cl (Remove x) w = (Done e, w2)" using Remove_total by blast
      with w' Some have "run cl (loop ns ss cnt) w2 = (Done (Some (cnt + length (s # ss))), w')"
        by (cases e) (simp_all add: loop_Cons IsExists_reads [OF assms])
      then have False using loop_bound by fastforce
      then show ?thesis ..
    qed
  qed simp
qed

lemma loop_total: "\<exists>r w'. run (cl :: 'w client) (loop ns ss cnt) w = (Done r, w')"
proof (induction ss arbitrary: cnt w)
  case Nil
  then show ?case by (simp add: loop_Nil)
next
  case (Cons s ss)
  obtain r w1 where r: "run cl (IsExists (NN ns (name s))) w = (Done r, w1)"
    using IsExists_total by blast
  show ?case
  proof (cases r)
    case None
    with r Cons.IH show ?thesis by (simp add: loop_Cons)
  next
    case (Some x)
    obtain e w2 where "run cl (Remove x) w1 = (Done e, w2)" using Remove_total by blast
    with r Some Cons.IH show ?thesis by (cases e) (simp_all add: loop_Cons)
  qed
qed

end

end
