(* ===== verification/Contracts.thy ===== *)
theory Contracts
  imports Resource
begin

text \<open>
  The contract between the program and the API server that the status invariant and the absence
  of panics rest on. With \<open>s = False\<close> it only says that what the server hands out as a StatefulPod has
  well-formed status lists and that an update stores the spec and status it was given. With
  \<open>s = True\<close> it also says that specs are complete, that nodes have a condition and that the pods
  and claims carry a non-negative index, and then no operation panics.
\<close>

section \<open>Complete specs\<close>

definition claim_volume :: "StatefulPodSpec \<Rightarrow> bool" where
  "claim_volume spec = (case Volumes (PodTemplate spec) of [] \<Rightarrow> False | v # vs \<Rightarrow> PersistentVolumeClaim v \<noteq> None)"

definition spec_ok :: "StatefulPodSpec \<Rightarrow> bool" where
  "spec_ok spec \<longleftrightarrow>
     (case Size spec of None \<Rightarrow> False | Some sz \<Rightarrow> 0 \<le> int_of_int32 sz) \<and>
     (case PVCTemplate spec of None \<Rightarrow> True | Some t \<Rightarrow> claim_volume spec \<and> StorageClassName t \<noteq> None)"

text \<open>
  The phases the program gives an entry. A pod is \<open>Running\<close> and a claim \<open>Bound\<close> as Kubernetes says; an ordinal without a claim has
  an empty phase. The size is a 32-bit number, so there are fewer than \<open>2 ^ 31\<close> ordinals.
\<close>

definition pod_phases :: "PodPhase set" where
  "pod_phases = {''Preparing'', ''Running'', ''Deleting'', ''CreateTimeOut''}"

definition claim_phases :: "PVCPhase set" where
  "claim_phases = {'''', ''Pending'', ''Bound'', ''Deleting''}"

definition typed :: "StatefulPod \<Rightarrow> bool" where
  "typed sp \<longleftrightarrow> (\<forall>p \<in> set (pods_of sp). ps_Status p \<in> pod_phases) \<and> (\<forall>v \<in> set (pvcs_of sp). pvs_Status v \<in> claim_phases) \<and>
     int (length (pods_of sp)) < 2 ^ 31"

lemma phase_simps [simp]:
  "''Preparing'' \<in> pod_phases" "''Running'' \<in> pod_phases" "''Deleting'' \<in> pod_phases" "''CreateTimeOut'' \<in> pod_phases"
  "[] \<in> claim_phases" "''Pending'' \<in> claim_phases" "''Bound'' \<in> claim_phases" "''Deleting'' \<in> claim_phases"
  by (simp_all add: pod_phases_def claim_phases_def)

lemma typed_pod: "typed sp \<Longrightarrow> ps_Status p \<in> pod_phases \<Longrightarrow> typed (set_pods ((pods_of sp)[i := p]) sp)"
  by (auto simp: typed_def dest!: set_update_subset_insert [THEN subsetD])

lemma typed_pvc: "typed sp \<Longrightarrow> pvs_Status v \<in> claim_phases \<Longrightarrow> typed (set_pvcs ((pvcs_of sp)[i := v]) sp)"
  by (auto simp: typed_def dest!: set_update_subset_insert [THEN subsetD])

lemma typed_take: "typed sp \<Longrightarrow> typed (set_pvcs (take n (pvcs_of sp)) (set_pods (take n (pods_of sp)) sp))"
  by (auto simp: typed_def dest: in_set_takeD)

lemma typed_append:
  "typed sp \<Longrightarrow> ps_Status p \<in> pod_phases \<Longrightarrow> pvs_Status v \<in> claim_phases \<Longrightarrow> int (length (pods_of sp)) < 2 ^ 31 - 1 \<Longrightarrow>
   typed (set_pvcs (pvcs_of sp @ [v]) (set_pods (pods_of sp @ [p]) sp))"
  by (auto simp: typed_def)

lemma typed_status: "Status sp' = Status sp \<Longrightarrow> typed sp' = typed sp"
  by (simp add: typed_def)

definition good :: "bool \<Rightarrow> StatefulPod \<Rightarrow> bool" where
  "good s sp \<longleftrightarrow> wf_sp sp \<and> typed sp \<and> (s \<longrightarrow> spec_ok (Spec sp))"

lemma good_wf: "good s sp \<Longrightarrow> wf_sp sp"
  by (simp add: good_def)

lemma good_meta [simp]: "good s (sp\<lparr>sp_Meta := m\<rparr>) = good s sp"
  by (simp add: good_def typed_def)

lemma good_lengths: "good s sp \<Longrightarrow> length (pvcs_of sp) = length (pods_of sp)"
  by (simp add: good_def wf_status_length)

section \<open>The contract\<close>

definition pod_index :: "Pod \<Rightarrow> int" where
  "pod_index pod = StringToInt (gomap_val (Annotations (pod_Meta pod)) ''index'')"

definition pvc_index :: "PVC \<Rightarrow> int" where
  "pvc_index pvc = StringToInt (gomap_val (Annotations (pvc_Meta pvc)) ''index'')"

definition sp_side :: "bool \<Rightarrow> StatefulPod side" where
  "sp_side s = \<lparr>
     guar = (\<lambda>r. case r of Get nn \<Rightarrow> True | Create sp \<Rightarrow> good s sp | Update sp \<Rightarrow> good s sp | Delete sp opts \<Rightarrow> True),
     rely = (\<lambda>r x. case x of Inl e \<Rightarrow> True | Inr sp' \<Rightarrow>
       (case r of Get nn \<Rightarrow> good s sp' | Create sp \<Rightarrow> Spec sp' = Spec sp \<and> Status sp' = Status sp
        | Update sp \<Rightarrow> Spec sp' = Spec sp \<and> Status sp' = Status sp | Delete sp opts \<Rightarrow> True))\<rparr>"

definition get_side :: "bool \<Rightarrow> ('o \<Rightarrow> bool) \<Rightarrow> 'o side" where
  "get_side s P = \<lparr>guar = (\<lambda>_. True),
     rely = (\<lambda>r x. s \<longrightarrow> (case r of Get nn \<Rightarrow> (case x of Inl e \<Rightarrow> True | Inr y \<Rightarrow> P y) | _ \<Rightarrow> True))\<rparr>"

definition status_contract :: "bool \<Rightarrow> contract" where
  "status_contract s = \<lparr>c_sp = sp_side s, c_pod = get_side s (\<lambda>pod. 0 \<le> pod_index pod),
     c_pvc = get_side s (\<lambda>pvc. 0 \<le> pvc_index pvc), c_svc = free_side, c_pv = free_side,
     c_node = get_side s (\<lambda>node. node_Conditions node \<noteq> [])\<rparr>"

lemma status_contract_sides [simp]:
  "c_sp (status_contract s) = sp_side s"
  "c_pod (status_contract s) = get_side s (\<lambda>pod. 0 \<le> pod_index pod)"
  "c_pvc (status_contract s) = get_side s (\<lambda>pvc. 0 \<le> pvc_index pvc)"
  "c_svc (status_contract s) = free_side" "c_pv (status_contract s) = free_side"
  "c_node (status_contract s) = get_side s (\<lambda>node. node_Conditions node \<noteq> [])"
  by (simp_all add: status_contract_def)

lemma sp_side_simps [simp]:
  "guar (sp_side s) (Get nn)" "guar (sp_side s) (Create sp) = good s sp"
  "guar (sp_side s) (Update sp) = good s sp" "guar (sp_side s) (Delete sp opts)"
  "rely (sp_side s) (Get nn) x = (case x of Inl e \<Rightarrow> True | Inr sp' \<Rightarrow> good s sp')"
  "rely (sp_side s) (Update sp) x =
     (case x of Inl e \<Rightarrow> True | Inr sp' \<Rightarrow> Spec sp' = Spec sp \<and> Status sp' = Status sp)"
  by (simp_all add: sp_side_def)

lemma get_side_simps [simp]:
  "guar (get_side s P) r"
  "rely (get_side s P) (Get nn) x = (s \<longrightarrow> (case x of Inl e \<Rightarrow> True | Inr y \<Rightarrow> P y))"
  "rely (get_side s P) (Create y) x" "rely (get_side s P) (Update y) x" "rely (get_side s P) (Delete y opts) x"
  by (simp_all add: get_side_def)

lemma good_copy: "good s sp \<Longrightarrow> Spec sp' = Spec sp \<Longrightarrow> Status sp' = Status sp \<Longrightarrow> good s sp'"
  by (simp add: good_def typed_def)

text \<open>A program that is within the contract, with a result as given and panics only if \<open>\<not> s\<close>.\<close>

abbreviation keeps :: "bool \<Rightarrow> ('a \<Rightarrow> bool) \<Rightarrow> 'a prog \<Rightarrow> bool" where
  "keeps s Q m \<equiv> meets (status_contract s) Q (\<lambda>_. \<not> s) m"

named_theorems keeps_rules \<open>contract rules of the operations\<close>

text \<open>
  What the templates may do to a StatefulPod: the status and the metadata but for the annotations stay, a complete
  spec stays complete.
\<close>

definition same_status :: "bool \<Rightarrow> StatefulPod \<Rightarrow> StatefulPod \<Rightarrow> bool" where
  "same_status s sp sp' \<longleftrightarrow> Status sp' = Status sp \<and> sp_key sp' = sp_key sp \<and>
     Size (Spec sp') = Size (Spec sp) \<and>
     (PVCTemplate (Spec sp') = None \<longleftrightarrow> PVCTemplate (Spec sp) = None) \<and>
     (s \<longrightarrow> spec_ok (Spec sp) \<longrightarrow> spec_ok (Spec sp'))"

lemma same_status_refl [simp]: "same_status s sp sp"
  by (simp add: same_status_def)

lemma same_status_trans: "same_status s a b \<Longrightarrow> same_status s b c \<Longrightarrow> same_status s a c"
  by (auto simp: same_status_def)

lemma same_status_good: "same_status s sp sp' \<Longrightarrow> good s sp \<Longrightarrow> good s sp'"
  by (simp add: same_status_def good_def typed_def)

lemma same_status_lists:
  "same_status s sp sp' \<Longrightarrow> pods_of sp' = pods_of sp" "same_status s sp sp' \<Longrightarrow> pvcs_of sp' = pvcs_of sp"
  by (simp_all add: same_status_def)

section \<open>Go expressions and the operations of Resource\<close>

lemma keeps_go_index:
  "(0 \<le> i \<Longrightarrow> i < int (length xs) \<Longrightarrow> Q (xs ! nat i)) \<Longrightarrow> (s \<Longrightarrow> 0 \<le> i \<and> i < int (length xs)) \<Longrightarrow>
   keeps s Q (go_index xs i)"
  by (auto simp: go_index_def)

lemma keeps_go_assign:
  "(0 \<le> i \<Longrightarrow> i < int (length xs) \<Longrightarrow> Q (xs[nat i := f (xs ! nat i)])) \<Longrightarrow>
   (s \<Longrightarrow> 0 \<le> i \<and> i < int (length xs)) \<Longrightarrow> keeps s Q (go_assign xs i f)"
  by (auto simp: go_assign_def)

lemma keeps_go_deref:
  "(\<And>x. p = Some x \<Longrightarrow> Q x) \<Longrightarrow> (s \<Longrightarrow> p \<noteq> None) \<Longrightarrow> keeps s Q (go_deref p)"
  by (auto simp: go_deref_def split: option.splits)

lemma keeps_SetPVCName:
  assumes "s \<Longrightarrow> claim_volume (Spec sp)"
  shows "keeps s (\<lambda>(nm, sp'). same_status s sp sp') (SetPVCName sp index)"
proof (cases "Volumes (PodTemplate (Spec sp))")
  case Nil
  then show ?thesis using assms by (auto simp: SetPVCName_def go_index_def claim_volume_def)
next
  case (Cons v vs)
  then show ?thesis
    using assms
    by (cases "PersistentVolumeClaim v")
      (auto simp: SetPVCName_def go_index_def claim_volume_def Let_def same_status_def spec_ok_def
        split: option.splits)
qed

lemma keeps_IsNodeReady: "keeps s (\<lambda>_. True) (IsNodeReady env nn)"
  by (auto simp: IsNodeReady_def Let_def go_index_def split: sum.splits if_splits)

lemma keeps_IsPvCanUse: "keeps s (\<lambda>_. True) (IsPvCanUse env nn)"
  by (auto simp: IsPvCanUse_def split: sum.splits option.splits intro!: meets_mono [OF keeps_IsNodeReady])

end
