(* ===== verification/PodService.thy ===== *)
theory PodService
  imports Contracts
begin

text \<open>
  \<open>services/pod/pod.go\<close>: the pod template built from a StatefulPod, and the operations of the
  interface on pods. The lemmas: what the template holds (name, labels, annotations, claim), the
  locales of the interface on these definitions, and the effect of the template on the StatefulPod
  itself, whose annotation map and default claim name it writes.
\<close>

section \<open>Template\<close>

definition nodeUnhealthy :: string where [simp]: "nodeUnhealthy = ''nodeUnhealthy''"
definition cockrochDB :: string where [simp]: "cockrochDB = ''cockrochDB''"

definition PodService_GetName :: "StatefulPod \<Rightarrow> int \<Rightarrow> string" where
  "PodService_GetName sp index = Name (sp_Meta sp) @ ''-'' @ Itoa index"

text \<open>
  \<open>pod.Annotations = statefulPod.Annotations\<close> shares the map: when it is not nil, the three
  entries are stored into the StatefulPod's own map too.
\<close>

definition PodService_addAnnotations :: "StatefulPod \<Rightarrow> Pod \<Rightarrow> int \<Rightarrow> Pod \<times> StatefulPod" where
  "PodService_addAnnotations sp pod index =
     (let m0 = (case Annotations (sp_Meta sp) of None \<Rightarrow> [] | Some m \<Rightarrow> m);
          m1 = AList.update GroupVersion_String ''true'' m0;
          m2 = AList.update ParentNmae (Name (sp_Meta sp)) m1;
          m3 = AList.update Index (Itoa index) m2;
          pod' = pod\<lparr>pod_Meta := (pod_Meta pod)\<lparr>Annotations := Some m3\<rparr>\<rparr>;
          sp' = (if Annotations (sp_Meta sp) = None then sp
                 else sp\<lparr>sp_Meta := (sp_Meta sp)\<lparr>Annotations := Some m3\<rparr>\<rparr>)
      in (pod', sp'))"

definition PodService_setPvc :: "StatefulPod \<Rightarrow> Pod \<Rightarrow> int \<Rightarrow> (Pod \<times> StatefulPod) prog" where
  "PodService_setPvc sp pod index =
     (if PVCTemplate (Spec sp) \<noteq> None then
        bnd (SetPVCName sp index) (\<lambda>(name, sp').
        bnd (go_index (Volumes (pod_Spec pod)) 0) (\<lambda>v.
        bnd (go_deref (PersistentVolumeClaim v)) (\<lambda>src.
          Ret (pod\<lparr>pod_Spec := (pod_Spec pod)\<lparr>Volumes :=
                 (Volumes (pod_Spec pod))[0 := v\<lparr>PersistentVolumeClaim := Some (src\<lparr>ClaimName := name\<rparr>)\<rparr>]\<rparr>\<rparr>,
               sp'))))
      else Ret (pod, sp))"

text \<open>\<open>for k, v := range src\<close>: copy the entries whose key is not there yet.\<close>

fun copy_absent :: "gomap \<Rightarrow> gomap \<Rightarrow> gomap" where
  "copy_absent [] dst = dst"
| "copy_absent ((k, v) # src) dst =
     copy_absent src (if map_of dst k = None then AList.update k v dst else dst)"

definition PodService_setLabels :: "StatefulPod \<Rightarrow> Pod \<Rightarrow> Pod" where
  "PodService_setLabels sp pod =
     (let (spec1, lables1) = (case ServiceTemplate (Spec sp) of
            None \<Rightarrow> (pod_Spec pod, [])
          | Some t \<Rightarrow> ((pod_Spec pod)\<lparr>Subdomain := SetServiceName sp\<rparr>, copy_absent (svc_Selector t) []));
          lables2 = (case Selector (Spec sp) of
            None \<Rightarrow> lables1
          | Some s \<Rightarrow> copy_absent (MatchLabels s) lables1)
      in pod\<lparr>pod_Spec := spec1, pod_Meta := (pod_Meta pod)\<lparr>Labels := Some lables2\<rparr>\<rparr>)"

definition PodService_CreateTemplate :: "Env \<Rightarrow> StatefulPod \<Rightarrow> string \<Rightarrow> int \<Rightarrow> (Pod \<times> StatefulPod) prog" where
  "PodService_CreateTemplate env sp name index =
     (let pod0 = \<lparr>pod_TypeMeta = \<lparr>tm_Kind = ''Pod'', tm_APIVersion = ''v1''\<rparr>,
                  pod_Meta = ObjectMeta_zero\<lparr>Name := name, Namespace := Namespace (sp_Meta sp),
                    OwnerReferences := [NewControllerRef env sp StatefulPod_GVK]\<rparr>,
                  pod_Spec = PodTemplate (Spec sp),
                  pod_Phase = '''', pod_Conditions = []\<rparr>;
          pod1 = pod0\<lparr>pod_Spec := (pod_Spec pod0)\<lparr>Hostname := name\<rparr>\<rparr>;
          (pod2, sp1) = PodService_addAnnotations sp pod1 index
      in bnd (PodService_setPvc sp1 pod2 index) (\<lambda>(pod3, sp2).
         Ret (PodService_setLabels sp2 pod3, sp2)))"

section \<open>Operations\<close>

definition PodService_IsExists :: "NamespacedName \<Rightarrow> Pod option prog" where
  "PodService_IsExists nn = CallPod (Get nn) (\<lambda>r. case r of Inl e \<Rightarrow> Ret None | Inr pod \<Rightarrow> Ret (Some pod))"

definition PodService_IsResourceVersionSame :: "Pod \<Rightarrow> bool prog" where
  "PodService_IsResourceVersionSame pod =
     bnd (PodService_IsExists (NN (Namespace (pod_Meta pod)) (Name (pod_Meta pod)))) (\<lambda>r. case r of
       None \<Rightarrow> Ret False
     | Some newPod \<Rightarrow>
         if ResourceVersion (pod_Meta pod) \<noteq> ResourceVersion (pod_Meta newPod) then Ret False else Ret True)"

definition PodService_Create :: "Pod \<Rightarrow> (go_error + Pod) prog" where
  "PodService_Create pod = CallPod (Create pod) (\<lambda>r. case r of Inl e \<Rightarrow> Ret (Inl e) | Inr p \<Rightarrow> Ret (Inr p))"

definition PodService_Update :: "Pod \<Rightarrow> (go_error + Pod) prog" where
  "PodService_Update pod =
     bnd (PodService_IsResourceVersionSame pod) (\<lambda>same.
     if same then CallPod (Update pod) (\<lambda>r. case r of Inl e \<Rightarrow> Ret (Inl e) | Inr p \<Rightarrow> Ret (Inr p))
     else Ret (Inl (ErrorsNew '''')))"

definition PodService_Delete :: "Pod \<Rightarrow> go_error option prog" where
  "PodService_Delete pod = CallPod (Delete pod []) (\<lambda>r. case r of
      Inl e \<Rightarrow> if IgnoreNotFound e \<noteq> None then Ret (Some e) else Ret None
    | Inr p \<Rightarrow> Ret None)"

text \<open>
  \<open>webhook\<close>: a pod marked \<open>cockrochDB\<close> is first annotated as unhealthy and only deleted by a
  later call. The pod is written through the pointer, so it is part of the result.
\<close>

definition PodService_webhook :: "Pod \<Rightarrow> StatefulPod \<Rightarrow> (go_error option \<times> Pod) prog" where
  "PodService_webhook pod sp =
     (if gomap_get (Annotations (pod_Meta pod)) cockrochDB = None then Ret (None, pod)
      else if gomap_get (Annotations (pod_Meta pod)) ''nodeUnhealthy'' = None then
        (let pod' = pod\<lparr>pod_Meta := (pod_Meta pod)\<lparr>Annotations :=
               map_option (AList.update ''nodeUnhealthy'' ''true'') (Annotations (pod_Meta pod))\<rparr>\<rparr>
         in bnd (PodService_Update pod') (\<lambda>r. case r of
              Inl e \<Rightarrow> Ret (Some (ErrorsNew ''''), pod')
            | Inr p \<Rightarrow> Ret (Some (ErrorsNew ''''), p)))
      else Ret (None, pod))"

definition mandatory_options :: "delete_option list" where
  "mandatory_options = [GracePeriodSeconds 0, PropagationPolicy ''Background'']"

definition PodService_DeleteMandatory :: "Pod \<Rightarrow> StatefulPod \<Rightarrow> go_error option prog" where
  "PodService_DeleteMandatory pod sp =
     bnd (PodService_webhook pod sp) (\<lambda>(err, pod'). case err of
       Some e \<Rightarrow> Ret (Some e)
     | None \<Rightarrow> CallPod (Delete pod' mandatory_options) (\<lambda>r. case r of
         Inl e \<Rightarrow> Ret (Some e) | Inr p \<Rightarrow> Ret None))"

text \<open>The methods of the interface that do nothing here: they give nil without a call.\<close>

definition PodService_Get :: "NamespacedName \<Rightarrow> (Pod option \<times> go_error option) prog" where
  "PodService_Get nn = Ret (None, None)"

lemmas PodService_defs [model_defs] =
  PodService_IsExists_def PodService_IsResourceVersionSame_def PodService_Create_def
  PodService_Update_def PodService_Delete_def PodService_webhook_def PodService_DeleteMandatory_def
  PodService_addAnnotations_def PodService_setPvc_def PodService_setLabels_def
  PodService_CreateTemplate_def

section \<open>The interface on pods\<close>

interpretation pod_reader: reader pod_srv pod_Meta PodService_IsExists
  by unfold_locales (auto simp: PodService_IsExists_def split: prod.splits sum.splits)

interpretation pod_versioned: versioned pod_srv pod_Meta PodService_IsExists
  PodService_IsResourceVersionSame PodService_Update
  by unfold_locales
    (auto simp: PodService_IsResourceVersionSame_def PodService_Update_def
       split: prod.splits sum.splits outcome.splits)

lemma run_PodService_Delete: "run cl (PodService_Delete x) w =
    (case pod_srv cl (Delete x []) w of (Inl e, w') \<Rightarrow> (Done (IgnoreNotFound e), w') | (Inr y, w') \<Rightarrow> (Done None, w'))"
  by (auto simp: PodService_Delete_def IgnoreNotFound_def split: prod.splits sum.splits)

section \<open>Labels\<close>

lemma map_of_copy_absent: "map_of (copy_absent src dst) = map_of src ++ map_of dst"
proof (induction src dst rule: copy_absent.induct)
  case (2 k v src dst)
  then show ?case
    by (auto simp: map_add_def update_conv' fun_eq_iff split: option.splits)
qed simp

section \<open>Contract\<close>

lemma keeps_PodService_IsExists: "keeps s (\<lambda>r. True) (PodService_IsExists nn)"
  by (auto simp: PodService_IsExists_def split: sum.splits)

lemma keeps_PodService_Create: "keeps s (\<lambda>r. True) (PodService_Create pod)"
  by (auto simp: PodService_Create_def split: sum.splits)

lemma keeps_PodService_Delete: "keeps s (\<lambda>r. True) (PodService_Delete pod)"
  by (auto simp: PodService_Delete_def split: sum.splits)

lemma keeps_PodService_Update: "keeps s (\<lambda>r. True) (PodService_Update pod)"
  by (auto simp: PodService_Update_def PodService_IsResourceVersionSame_def PodService_IsExists_def
      split: sum.splits)

lemma keeps_PodService_DeleteMandatory: "keeps s (\<lambda>r. True) (PodService_DeleteMandatory pod sp)"
  by (auto simp: PodService_DeleteMandatory_def PodService_webhook_def Let_def
      intro!: meets_mono [OF keeps_PodService_Update] split: sum.splits)

lemma addAnnotations_pod:
  "PodService_addAnnotations sp pod index = (pod', sp') \<Longrightarrow> pod_Spec pod' = pod_Spec pod \<and> Spec sp' = Spec sp \<and>
     Status sp' = Status sp \<and> sp_key sp' = sp_key sp"
  by (auto simp: PodService_addAnnotations_def Let_def)

lemma keeps_setPvc:
  assumes "s \<Longrightarrow> PVCTemplate (Spec sp) \<noteq> None \<Longrightarrow> claim_volume (Spec sp)" "pod_Spec pod = X"
    "Volumes X = Volumes (PodTemplate (Spec sp))"
  shows "keeps s (\<lambda>(pod', sp'). same_status s sp sp') (PodService_setPvc sp pod index)"
proof (cases "PVCTemplate (Spec sp) = None")
  case True
  then show ?thesis by (simp add: PodService_setPvc_def)
next
  case False
  with assms(1) have cv: "s \<Longrightarrow> claim_volume (Spec sp)" by blast
  show ?thesis
    using False assms(2,3) cv
    by (auto simp: PodService_setPvc_def claim_volume_def intro!: meets_mono [OF keeps_SetPVCName [OF cv]]
        keeps_go_index keeps_go_deref split: list.splits)
qed

lemma keeps_PodService_CreateTemplate:
  assumes "s \<Longrightarrow> spec_ok (Spec sp)"
  shows "keeps s (\<lambda>(pod, sp'). same_status s sp sp') (PodService_CreateTemplate env sp name index)"
proof -
  have cv: "s \<Longrightarrow> PVCTemplate (Spec sp) \<noteq> None \<Longrightarrow> claim_volume (Spec sp)"
    using assms by (auto simp: spec_ok_def)
  show ?thesis
    using cv
    by (auto simp: PodService_CreateTemplate_def Let_def same_status_def dest!: addAnnotations_pod split: prod.splits
        intro!: meets_mono [OF keeps_setPvc])
qed

end
