(* ===== verification/PVCService.thy ===== *)
theory PVCService
  imports Contracts
begin

text \<open>
  \<open>services/pvc/pvc.go\<close>: the claim template, which may reserve one of the persistent volumes the
  user named, and the operations of the interface on claims. The template writes the reservation
  into the StatefulPod's own claim template.
\<close>

section \<open>Template\<close>

definition PVCService_GetName :: "StatefulPod \<Rightarrow> int \<Rightarrow> (string \<times> StatefulPod) prog" where
  "PVCService_GetName sp index = SetPVCName sp index"

text \<open>The reservation: lines 44 to 53. The assignments go through the pointer \<open>Spec.PVCTemplate\<close>.\<close>

definition PVCService_reserve :: "Env \<Rightarrow> StatefulPod \<Rightarrow> int \<Rightarrow> StatefulPod prog" where
  "PVCService_reserve env sp index =
     (if length (PVNames (Spec sp)) \<noteq> 0 \<and> int (length (PVNames (Spec sp))) > index then
        bnd (go_index (PVNames (Spec sp)) index) (\<lambda>pvName.
        bnd (IsPvCanUse env (NN '''' pvName)) (\<lambda>r. case r of
          None \<Rightarrow> Ret sp
        | Some nodeName \<Rightarrow>
            bnd (go_deref (PVCTemplate (Spec sp))) (\<lambda>t.
            Ret (sp\<lparr>Spec := (Spec sp)\<lparr>PVCTemplate :=
                   Some (t\<lparr>StorageClassName := Some '''', VolumeName := pvName\<rparr>)\<rparr>\<rparr>))))
      else Ret sp)"

definition PVCService_CreateTemplate :: "Env \<Rightarrow> StatefulPod \<Rightarrow> string \<Rightarrow> int \<Rightarrow> (PVC \<times> StatefulPod) prog" where
  "PVCService_CreateTemplate env sp name index =
     bnd (PVCService_reserve env sp index) (\<lambda>sp'.
     bnd (go_deref (PVCTemplate (Spec sp'))) (\<lambda>t.
     Ret (\<lparr>pvc_TypeMeta = \<lparr>tm_Kind = ''PersistentVolumeClaim'', tm_APIVersion = ''v1''\<rparr>,
           pvc_Meta = ObjectMeta_zero\<lparr>Name := name, Namespace := Namespace (sp_Meta sp'),
             Annotations := Some [(GroupVersion_String, ''true''), (ParentNmae, Name (sp_Meta sp')),
               (Index, Itoa index)],
             Labels := Some [(ParentNmae, Name (sp_Meta sp'))],
             OwnerReferences := [NewControllerRef env sp' StatefulPod_GVK]\<rparr>,
           pvc_Spec = t, pvc_Phase = ''''\<rparr>, sp')))"

section \<open>Operations\<close>

definition PVCService_IsExists :: "NamespacedName \<Rightarrow> PVC option prog" where
  "PVCService_IsExists nn = CallPVC (Get nn) (\<lambda>r. case r of Inl e \<Rightarrow> Ret None | Inr pvc \<Rightarrow> Ret (Some pvc))"

definition PVCService_IsResourceVersionSame :: "PVC \<Rightarrow> bool prog" where
  "PVCService_IsResourceVersionSame pvc =
     bnd (PVCService_IsExists (NN (Namespace (pvc_Meta pvc)) (Name (pvc_Meta pvc)))) (\<lambda>r. case r of
       None \<Rightarrow> Ret False
     | Some newPvc \<Rightarrow>
         if ResourceVersion (pvc_Meta pvc) \<noteq> ResourceVersion (pvc_Meta newPvc) then Ret False else Ret True)"

definition PVCService_Create :: "PVC \<Rightarrow> (go_error + PVC) prog" where
  "PVCService_Create pvc = CallPVC (Create pvc) (\<lambda>r. case r of Inl e \<Rightarrow> Ret (Inl e) | Inr p \<Rightarrow> Ret (Inr p))"

definition PVCService_Update :: "PVC \<Rightarrow> (go_error + PVC) prog" where
  "PVCService_Update pvc =
     bnd (PVCService_IsResourceVersionSame pvc) (\<lambda>same.
     if same then CallPVC (Update pvc) (\<lambda>r. case r of Inl e \<Rightarrow> Ret (Inl e) | Inr p \<Rightarrow> Ret (Inr p))
     else Ret (Inl (ErrorsNew '''')))"

definition PVCService_Delete :: "PVC \<Rightarrow> go_error option prog" where
  "PVCService_Delete pvc = CallPVC (Delete pvc []) (\<lambda>r. case r of
      Inl e \<Rightarrow> if IgnoreNotFound e \<noteq> None then Ret (Some e) else Ret None
    | Inr p \<Rightarrow> Ret None)"

definition PVCService_DeleteMandatory :: "PVC \<Rightarrow> StatefulPod \<Rightarrow> go_error option prog" where
  "PVCService_DeleteMandatory pvc sp =
     CallPVC (Delete pvc [GracePeriodSeconds 0, PropagationPolicy ''Background'']) (\<lambda>r. case r of
       Inl e \<Rightarrow> Ret (Some e) | Inr p \<Rightarrow> Ret None)"

text \<open>The methods of the interface that do nothing here: they give nil without a call.\<close>

definition PVCService_Get :: "NamespacedName \<Rightarrow> (PVC option \<times> go_error option) prog" where
  "PVCService_Get nn = Ret (None, None)"

lemmas PVCService_defs [model_defs] =
  PVCService_IsExists_def PVCService_IsResourceVersionSame_def PVCService_Create_def
  PVCService_Update_def PVCService_Delete_def PVCService_DeleteMandatory_def
  PVCService_GetName_def PVCService_reserve_def PVCService_CreateTemplate_def

section \<open>The interface on claims\<close>

interpretation pvc_reader: reader pvc_srv pvc_Meta PVCService_IsExists
  by unfold_locales (auto simp: PVCService_IsExists_def split: prod.splits sum.splits)

interpretation pvc_versioned: versioned pvc_srv pvc_Meta PVCService_IsExists
  PVCService_IsResourceVersionSame PVCService_Update
  by unfold_locales
    (auto simp: PVCService_IsResourceVersionSame_def PVCService_Update_def
       split: prod.splits sum.splits outcome.splits)

lemma run_PVCService_Delete: "run cl (PVCService_Delete x) w =
    (case pvc_srv cl (Delete x []) w of (Inl e, w') \<Rightarrow> (Done (IgnoreNotFound e), w') | (Inr y, w') \<Rightarrow> (Done None, w'))"
  by (auto simp: PVCService_Delete_def IgnoreNotFound_def split: prod.splits sum.splits)

section \<open>Contract\<close>

lemma keeps_PVCService_IsExists: "keeps s (\<lambda>r. True) (PVCService_IsExists nn)"
  by (auto simp: PVCService_IsExists_def split: sum.splits)

lemma keeps_PVCService_Create: "keeps s (\<lambda>r. True) (PVCService_Create pvc)"
  by (auto simp: PVCService_Create_def split: sum.splits)

lemma keeps_PVCService_Delete: "keeps s (\<lambda>r. True) (PVCService_Delete pvc)"
  by (auto simp: PVCService_Delete_def split: sum.splits)

lemma keeps_PVCService_DeleteMandatory: "keeps s (\<lambda>r. True) (PVCService_DeleteMandatory pvc sp)"
  by (auto simp: PVCService_DeleteMandatory_def split: sum.splits)

lemma keeps_PVCService_GetName:
  "(s \<Longrightarrow> claim_volume (Spec sp)) \<Longrightarrow> keeps s (\<lambda>(nm, sp'). same_status s sp sp') (PVCService_GetName sp index)"
  unfolding PVCService_GetName_def by (rule keeps_SetPVCName)

lemma keeps_PVCService_reserve:
  assumes "PVCTemplate (Spec sp) \<noteq> None" "s \<Longrightarrow> 0 \<le> index"
  shows "keeps s (same_status s sp) (PVCService_reserve env sp index)"
  using assms
  by (auto simp: PVCService_reserve_def same_status_def spec_ok_def claim_volume_def
      intro!: keeps_go_index keeps_go_deref meets_mono [OF keeps_IsPvCanUse] split: option.splits)

lemma keeps_PVCService_CreateTemplate:
  assumes "PVCTemplate (Spec sp) \<noteq> None" "s \<Longrightarrow> 0 \<le> index"
  shows "keeps s (\<lambda>(pvc, sp'). same_status s sp sp') (PVCService_CreateTemplate env sp name index)"
  using assms
  by (auto simp: PVCService_CreateTemplate_def same_status_def
      intro!: meets_mono [OF keeps_PVCService_reserve] keeps_go_deref)

end
