(* ===== verification/PVCCtrl.thy ===== *)
theory PVCCtrl
  imports PVCService
begin

text \<open>
  \<open>pvc\_controller/pvc.go\<close>: the claims of a StatefulPod: creation with their status entry, removal
  one by one and all together, and the reaction to a claim's own events.
\<close>

definition PVC_Deleting :: PVCPhase where [simp]: "PVC_Deleting = ''Deleting''"
definition PVC_CreateTimeOut :: PodPhase where [simp]: "PVC_CreateTimeOut = ''CreateTimeOut''"

definition PVCCtrl_IsCreationPvcTimeout :: "StatefulPod \<Rightarrow> int \<Rightarrow> bool prog" where
  "PVCCtrl_IsCreationPvcTimeout sp index =
     (if PVCTemplate (Spec sp) = None then Ret True
      else bnd (PVCService_GetName sp index) (\<lambda>(pvcName, sp').
           bnd (PVCService_IsExists (NN (Namespace (sp_Meta sp')) pvcName)) (\<lambda>r. case r of
             Some pvc \<Rightarrow> bnd (PVCService_Delete pvc) (\<lambda>e. Ret False)
           | None \<Rightarrow> Ret True)))"

text \<open>The loop of \<open>DeletePvcAll\<close>: \<open>None\<close> is its early return.\<close>

fun PVCCtrl_DeletePvcAll_loop :: "string \<Rightarrow> PVCStatus list \<Rightarrow> nat \<Rightarrow> nat option prog" where
  "PVCCtrl_DeletePvcAll_loop ns [] cnt = Ret (Some cnt)"
| "PVCCtrl_DeletePvcAll_loop ns (v # vs) cnt =
     bnd (PVCService_IsExists (NN ns (PVCName v))) (\<lambda>r. case r of
       Some pvc \<Rightarrow> bnd (PVCService_Delete pvc) (\<lambda>e. case e of
           Some err \<Rightarrow> Ret None
         | None \<Rightarrow> PVCCtrl_DeletePvcAll_loop ns vs cnt)
     | None \<Rightarrow> PVCCtrl_DeletePvcAll_loop ns vs (cnt + 1))"

definition PVCCtrl_DeletePvcAll :: "StatefulPod \<Rightarrow> bool prog" where
  "PVCCtrl_DeletePvcAll sp =
     bnd (PVCCtrl_DeletePvcAll_loop (Namespace (sp_Meta sp)) (pvcs_of sp) 0) (\<lambda>r. case r of
       None \<Rightarrow> Ret False
     | Some cnt \<Rightarrow> if cnt = length (pvcs_of sp) then Ret True else Ret False)"

text \<open>
  The claim's template writes the StatefulPod, which is part of every result. The first definition
  is the creation (lines 87 to 98), which reads the storage class of the template without a check.
\<close>

definition PVCCtrl_createClaim ::
    "Env \<Rightarrow> StatefulPod \<Rightarrow> string \<Rightarrow> int \<Rightarrow> ((go_error + PVCStatus) \<times> StatefulPod) prog" where
  "PVCCtrl_createClaim env sp pvcName index =
     bnd (PVCService_CreateTemplate env sp pvcName index) (\<lambda>(pvcTemplate, sp2).
     bnd (PVCService_Create pvcTemplate) (\<lambda>c. case c of
       Inl err \<Rightarrow> Ret (Inl err, sp2)
     | Inr p \<Rightarrow>
         bnd (go_deref (PVCTemplate (Spec sp2))) (\<lambda>t.
         bnd (go_deref (StorageClassName t)) (\<lambda>class.
         Ret (Inr \<lparr>pvs_Index = IntToIntr32 index, PVCName = pvcName, pvs_Status = ClaimPending,
                   Capacity = '''', pvs_AccessModes = AccessModes t, StorageClass = class,
                   PVName = ''''\<rparr>, sp2)))))"

definition PVCCtrl_ExpansionPVC :: "Env \<Rightarrow> StatefulPod \<Rightarrow> int \<Rightarrow> ((go_error + PVCStatus) \<times> StatefulPod) prog" where
  "PVCCtrl_ExpansionPVC env sp index =
     bnd (PVCService_GetName sp index) (\<lambda>(pvcName, sp1).
     bnd (PVCService_IsExists (NN (Namespace (sp_Meta sp1)) pvcName)) (\<lambda>r. case r of
       None \<Rightarrow> PVCCtrl_createClaim env sp1 pvcName index
     | Some p \<Rightarrow>
         if index \<ge> int (length (pvcs_of sp1)) then Ret (Inl (ErrorsNew ''''), sp1)
         else bnd (go_index (pvcs_of sp1) index) (\<lambda>pvcStatus. Ret (Inr pvcStatus, sp1))))"

text \<open>Remove one claim; the second definition finds its name, which may set the default claim name.\<close>

definition PVCCtrl_remove :: "NamespacedName \<Rightarrow> bool prog" where
  "PVCCtrl_remove nn =
     bnd (PVCService_IsExists nn) (\<lambda>r. case r of
       Some pvc \<Rightarrow> bnd (PVCService_Delete pvc) (\<lambda>e. case e of Some err \<Rightarrow> Ret False | None \<Rightarrow> Ret False)
     | None \<Rightarrow> Ret True)"

definition PVCCtrl_ShrinkPVC :: "StatefulPod \<Rightarrow> int \<Rightarrow> (bool \<times> StatefulPod) prog" where
  "PVCCtrl_ShrinkPVC sp index =
     bnd (PVCService_GetName sp index) (\<lambda>(pvcName, sp').
     bnd (PVCCtrl_remove (NN (Namespace (sp_Meta sp')) pvcName)) (\<lambda>ok. Ret (ok, sp')))"

definition PVCCtrl_MonitorPVCStatus :: "Env \<Rightarrow> StatefulPod \<Rightarrow> PVC \<Rightarrow> int \<Rightarrow> (bool \<times> StatefulPod) prog" where
  "PVCCtrl_MonitorPVCStatus env sp pvc index =
     (if index \<ge> int (length (pvcs_of sp)) then Ret (False, sp)
      else if \<not> IsZero (DeletionTimestamp (pvc_Meta pvc)) then
        bnd (go_index (pvcs_of sp) index) (\<lambda>v.
        bnd (if pvs_Status v = PVC_Deleting then Ret True
             else bnd (go_index (pods_of sp) index) (\<lambda>p. Ret (ps_Status p = PVC_CreateTimeOut))) (\<lambda>marked.
        if marked then Ret (False, sp)
        else bnd (go_assign (pvcs_of sp) index (\<lambda>v. v\<lparr>pvs_Status := PVC_Deleting\<rparr>)) (\<lambda>xs.
             Ret (True, set_pvcs xs sp))))
      else if pvc_Phase pvc = ClaimBound then
        bnd (go_index (pvcs_of sp) index) (\<lambda>v.
        if pvs_Status v = ClaimBound then Ret (False, sp)
        else
          let capicity = (case map_of (Requests (pvc_Spec pvc)) ResourceStorage of None \<Rightarrow> 0 | Some q \<Rightarrow> q)
          in bnd (go_assign (pvcs_of sp) index (\<lambda>v. v\<lparr>pvs_Status := ClaimBound,
                    Capacity := Quantity_String env capicity,
                    PVName := VolumeName (pvc_Spec pvc)\<rparr>)) (\<lambda>xs.
             Ret (True, set_pvcs xs sp)))
      else Ret (False, sp))"

lemmas PVCCtrl_defs [model_defs] =
  PVCCtrl_IsCreationPvcTimeout_def PVCCtrl_DeletePvcAll_def PVCCtrl_createClaim_def PVCCtrl_ExpansionPVC_def
  PVCCtrl_remove_def PVCCtrl_ShrinkPVC_def PVCCtrl_MonitorPVCStatus_def

section \<open>Removal through the interface\<close>

interpretation pvc_remover: remover pvc_srv pvc_Meta PVCService_IsExists PVCService_Delete
  PVCCtrl_DeletePvcAll_loop PVCName
  by unfold_locales (rule run_PVCService_Delete PVCCtrl_DeletePvcAll_loop.simps)+

section \<open>Contract\<close>

lemma keeps_DeletePvcAll_loop: "keeps s (\<lambda>_. True) (PVCCtrl_DeletePvcAll_loop ns vs cnt)"
proof (induction vs arbitrary: cnt)
  case (Cons v vs)
  have del: "keeps s (\<lambda>e. keeps s (\<lambda>_. True) (case e of Some err \<Rightarrow> Ret None | None \<Rightarrow> PVCCtrl_DeletePvcAll_loop ns vs cnt))
      (PVCService_Delete pvc)" for pvc
    by (rule meets_mono [OF keeps_PVCService_Delete]) (simp add: Cons.IH split: option.split)
  show ?case
    using Cons.IH [of "Suc cnt"] del by (auto intro!: meets_mono [OF keeps_PVCService_IsExists] split: option.split)
qed simp

lemma keeps_DeletePvcAll: "keeps s (\<lambda>_. True) (PVCCtrl_DeletePvcAll sp)"
  by (auto simp: PVCCtrl_DeletePvcAll_def intro!: meets_mono [OF keeps_DeletePvcAll_loop] split: option.split)

lemma good_claim_volume: "good s sp \<Longrightarrow> PVCTemplate (Spec sp) \<noteq> None \<Longrightarrow> s \<Longrightarrow> claim_volume (Spec sp)"
  by (auto simp: good_def spec_ok_def)

lemma good_pvc_index:
  "good s sp \<Longrightarrow> 0 \<le> i \<Longrightarrow> i < int (length (pvcs_of sp)) \<Longrightarrow>
   pvs_Index (pvcs_of sp ! nat i) = Some (int32_of i) \<and> pvs_Status (pvcs_of sp ! nat i) \<in> claim_phases"
  by (auto simp: good_def wf_status_def typed_def)

text \<open>What the two halves of an expansion promise: the status stays, the entry is the one of the ordinal.\<close>

abbreviation claim_post :: "bool \<Rightarrow> StatefulPod \<Rightarrow> int \<Rightarrow> (go_error + PVCStatus) \<times> StatefulPod \<Rightarrow> bool" where
  "claim_post s sp index x \<equiv> same_status s sp (snd x) \<and> (\<forall>v. fst x = Inr v \<longrightarrow>
     pvs_Index v = Some (int32_of index) \<and> pvs_Status v \<in> claim_phases)"

lemma claim_post_trans: "same_status s a b \<Longrightarrow> claim_post s b index x \<Longrightarrow> claim_post s a index x"
  using same_status_trans by blast

lemma keeps_createClaim:
  assumes "good s sp" "PVCTemplate (Spec sp) \<noteq> None" "0 \<le> index"
  shows "keeps s (claim_post s sp index) (PVCCtrl_createClaim env sp nm index)"
  using assms
  by (auto intro!: meets_mono [OF keeps_PVCService_CreateTemplate] simp: PVCCtrl_createClaim_def
      PVCService_Create_def go_deref_def IntToIntr32_def same_status_def good_def spec_ok_def
      split: sum.split option.split)

lemma keeps_ExpansionPVC:
  assumes "good s sp" "PVCTemplate (Spec sp) \<noteq> None" "0 \<le> index"
  shows "keeps s (claim_post s sp index) (PVCCtrl_ExpansionPVC env sp index)"
  unfolding PVCCtrl_ExpansionPVC_def
proof (rule meets_bndI [OF keeps_PVCService_GetName], use assms good_claim_volume in blast, clarify)
  fix nm sp1
  assume sp1: "same_status s sp sp1"
  have g1: "good s sp1" using sp1 assms(1) by (rule same_status_good)
  have t1: "PVCTemplate (Spec sp1) \<noteq> None" using sp1 assms(2) by (simp add: same_status_def)
  have make: "keeps s (claim_post s sp index) (PVCCtrl_createClaim env sp1 nm index)"
    by (rule meets_mono [OF keeps_createClaim [OF g1 t1 assms(3)]]) (rule claim_post_trans [OF sp1])
  have old: "keeps s (claim_post s sp index) (bnd (go_index (pvcs_of sp1) index) (\<lambda>v. Ret (Inr v, sp1)))"
    if "\<not> index \<ge> int (length (pvcs_of sp1))"
    using that assms(3) sp1 good_pvc_index [OF g1] by (auto intro!: keeps_go_index)
  show "keeps s (claim_post s sp index) (bnd (PVCService_IsExists (NN (Namespace (sp_Meta sp1)) nm)) (\<lambda>r. case r of
       None \<Rightarrow> PVCCtrl_createClaim env sp1 nm index
     | Some p \<Rightarrow>
         if index \<ge> int (length (pvcs_of sp1)) then Ret (Inl (ErrorsNew ''''), sp1)
         else bnd (go_index (pvcs_of sp1) index) (\<lambda>pvcStatus. Ret (Inr pvcStatus, sp1))))"
    by (rule meets_bndI [OF keeps_PVCService_IsExists]) (use make old sp1 in \<open>auto split: option.split\<close>)
qed

lemma keeps_PVCCtrl_remove: "keeps s (\<lambda>_. True) (PVCCtrl_remove nn)"
  by (auto simp: PVCCtrl_remove_def intro!: meets_mono [OF keeps_PVCService_IsExists]
      meets_mono [OF keeps_PVCService_Delete] split: option.split)

lemma keeps_ShrinkPVC:
  assumes "good s sp" "PVCTemplate (Spec sp) \<noteq> None"
  shows "keeps s (\<lambda>(ok, sp'). same_status s sp sp') (PVCCtrl_ShrinkPVC sp index)"
  unfolding PVCCtrl_ShrinkPVC_def
  by (rule meets_bndI [OF keeps_PVCService_GetName], use assms good_claim_volume in blast)
    (auto intro!: meets_mono [OF keeps_PVCCtrl_remove])

lemma good_set_pvc:
  "good s sp \<Longrightarrow> 0 \<le> i \<Longrightarrow> i < int (length (pvcs_of sp)) \<Longrightarrow> pvs_Index v = pvs_Index (pvcs_of sp ! nat i) \<Longrightarrow>
   pvs_Status v \<in> claim_phases \<Longrightarrow> good s (set_pvcs ((pvcs_of sp)[nat i := v]) sp)"
  by (simp add: good_def wf_status_pvc typed_pvc)

lemma keeps_MonitorPVCStatus:
  assumes "good s sp" "s \<Longrightarrow> 0 \<le> index"
  shows "keeps s (\<lambda>(b, sp'). good s sp') (PVCCtrl_MonitorPVCStatus env sp pvc index)"
  using assms good_lengths [OF assms(1)]
  by (auto simp: PVCCtrl_MonitorPVCStatus_def Let_def intro!: keeps_go_index keeps_go_assign good_set_pvc)

end
