(* ===== verification/PodCtrl.thy ===== *)
theory PodCtrl
  imports PodService PVCCtrl
begin

text \<open>
  \<open>pod\_controller/pod.go\<close>: the pods of a StatefulPod: creation with their status entry, removal,
  the two scans of the status list that maintenance makes, and the reaction to a pod's own events:
  termination, a lost node, a running pod, a creation that took too long.
\<close>

definition Preparing :: PodPhase where [simp]: "Preparing = ''Preparing''"
definition Deleting :: PodPhase where [simp]: "Deleting = ''Deleting''"
definition CreateTimeOut :: PodPhase where [simp]: "CreateTimeOut = ''CreateTimeOut''"

lemma phases_named [simp]:
  "Preparing \<in> pod_phases" "Deleting \<in> pod_phases" "CreateTimeOut \<in> pod_phases" "PodRunning \<in> pod_phases"
  by simp_all

section \<open>Creation and removal\<close>

definition PodCtrl_IsPodDeleting :: "StatefulPod \<Rightarrow> int \<Rightarrow> bool prog" where
  "PodCtrl_IsPodDeleting sp index =
     (if index \<le> 0 then Ret False
      else bnd (PodService_IsExists (NN (Namespace (sp_Meta sp)) (PodService_GetName sp (index - 1)))) (\<lambda>r. case r of
             Some lastPod \<Rightarrow> if \<not> IsZero (DeletionTimestamp (pod_Meta lastPod)) then Ret True else Ret False
           | None \<Rightarrow> Ret True))"

definition PodCtrl_ExpansionPod :: "Env \<Rightarrow> StatefulPod \<Rightarrow> int \<Rightarrow> ((go_error + PodStatus) \<times> StatefulPod) prog" where
  "PodCtrl_ExpansionPod env sp index =
     (let podName = PodService_GetName sp index; podIndex = int32_of index
      in bnd (PodService_IsExists (NN (Namespace (sp_Meta sp)) podName)) (\<lambda>r. case r of
           None \<Rightarrow>
             bnd (PodService_CreateTemplate env sp podName index) (\<lambda>(podTemplate, sp').
             bnd (PodService_Create podTemplate) (\<lambda>c. case c of
               Inl err \<Rightarrow> Ret (Inl err, sp')
             | Inr obj \<Rightarrow> Ret (Inr \<lparr>PodName = Name (pod_Meta obj), ps_Status = Preparing,
                                  ps_Index = Some podIndex, NodeName = ''''\<rparr>, sp')))
         | Some p \<Rightarrow>
             if index \<ge> int (length (pods_of sp)) then Ret (Inl (ErrorsNew ''''), sp)
             else bnd (go_index (pods_of sp) index) (\<lambda>podStatus. Ret (Inr podStatus, sp))))"

definition PodCtrl_ShrinkPod :: "StatefulPod \<Rightarrow> int \<Rightarrow> bool prog" where
  "PodCtrl_ShrinkPod sp index =
     (let podName = PodService_GetName sp index
      in bnd (PodService_IsExists (NN (Namespace (sp_Meta sp)) podName)) (\<lambda>r. case r of
           Some pod \<Rightarrow> bnd (PodService_Delete pod) (\<lambda>e. case e of Some err \<Rightarrow> Ret False | None \<Rightarrow> Ret False)
         | None \<Rightarrow> Ret True))"

fun PodCtrl_DeletePodAll_loop :: "string \<Rightarrow> PodStatus list \<Rightarrow> nat \<Rightarrow> nat option prog" where
  "PodCtrl_DeletePodAll_loop ns [] cnt = Ret (Some cnt)"
| "PodCtrl_DeletePodAll_loop ns (v # vs) cnt =
     bnd (PodService_IsExists (NN ns (PodName v))) (\<lambda>r. case r of
       Some pod \<Rightarrow> bnd (PodService_Delete pod) (\<lambda>e. case e of
           Some err \<Rightarrow> Ret None
         | None \<Rightarrow> PodCtrl_DeletePodAll_loop ns vs cnt)
     | None \<Rightarrow> PodCtrl_DeletePodAll_loop ns vs (cnt + 1))"

definition PodCtrl_DeletePodAll :: "StatefulPod \<Rightarrow> bool prog" where
  "PodCtrl_DeletePodAll sp =
     bnd (PodCtrl_DeletePodAll_loop (Namespace (sp_Meta sp)) (pods_of sp) 0) (\<lambda>r. case r of
       None \<Rightarrow> Ret False
     | Some cnt \<Rightarrow> if cnt = length (pvcs_of sp) then Ret True else Ret False)"

section \<open>The two scans of maintenance\<close>

text \<open>\<open>MaintainPod\<close>: the first entry marked \<open>Deleting\<close> whose pod is gone.\<close>

fun PodCtrl_MaintainPod_loop :: "string \<Rightarrow> PodStatus list \<Rightarrow> nat \<Rightarrow> nat option prog" where
  "PodCtrl_MaintainPod_loop ns [] i = Ret None"
| "PodCtrl_MaintainPod_loop ns (pod # rest) i =
     (if ps_Status pod = Deleting
      then bnd (PodService_IsExists (NN ns (PodName pod))) (\<lambda>r. case r of
             None \<Rightarrow> Ret (Some i)
           | Some p \<Rightarrow> PodCtrl_MaintainPod_loop ns rest (Suc i))
      else PodCtrl_MaintainPod_loop ns rest (Suc i))"

definition PodCtrl_MaintainPod :: "StatefulPod \<Rightarrow> nat option prog" where
  "PodCtrl_MaintainPod sp = PodCtrl_MaintainPod_loop (Namespace (sp_Meta sp)) (pods_of sp) 0"

text \<open>\<open>PodIsOk\<close>: the first entry that does not agree with its pod is corrected.\<close>

fun PodCtrl_PodIsOk_loop :: "StatefulPod \<Rightarrow> PodStatus list \<Rightarrow> nat \<Rightarrow> (nat option \<times> StatefulPod) prog" where
  "PodCtrl_PodIsOk_loop sp [] i = Ret (None, sp)"
| "PodCtrl_PodIsOk_loop sp (podMsg # rest) i =
     bnd (PodService_IsExists (NN (Namespace (sp_Meta sp)) (PodName podMsg))) (\<lambda>r. case r of
       None \<Rightarrow>
         bnd (go_assign (pods_of sp) (int i) (\<lambda>p. p\<lparr>ps_Status := Deleting\<rparr>)) (\<lambda>xs.
         Ret (Some i, set_pods xs sp))
     | Some pod \<Rightarrow>
         bnd (go_index (pods_of sp) (int i)) (\<lambda>p.
         if pod_Phase pod = PodRunning \<and> ps_Status p \<noteq> PodRunning
         then bnd (go_assign (pods_of sp) (int i) (\<lambda>p. p\<lparr>ps_Status := PodRunning\<rparr>)) (\<lambda>xs.
              Ret (Some i, set_pods xs sp))
         else PodCtrl_PodIsOk_loop sp rest (Suc i)))"

definition PodCtrl_PodIsOk :: "StatefulPod \<Rightarrow> (nat option \<times> StatefulPod) prog" where
  "PodCtrl_PodIsOk sp = PodCtrl_PodIsOk_loop sp (pods_of sp) 0"

section \<open>Events of a pod\<close>

definition PodCtrl_isPodRunning :: "Pod \<Rightarrow> bool" where
  "PodCtrl_isPodRunning pod =
     (if pod_Phase pod \<noteq> PodRunning then False
      else list_all (\<lambda>v. \<not> (pc_Type v = PodReady \<and> pc_Status v \<noteq> ConditionTrue)) (pod_Conditions pod))"

text \<open>Both entries of an ordinal are marked \<open>Deleting\<close> (lines 208, 209 and 245, 246).\<close>

definition mark_deleting :: "StatefulPod \<Rightarrow> int \<Rightarrow> StatefulPod prog" where
  "mark_deleting sp index =
     bnd (go_assign (pods_of sp) index (\<lambda>p. p\<lparr>ps_Status := Deleting\<rparr>)) (\<lambda>ps.
     bnd (go_assign (pvcs_of sp) index (\<lambda>v. v\<lparr>pvs_Status := PVC_Deleting\<rparr>)) (\<lambda>vs.
     Ret (set_pvcs vs (set_pods ps sp))))"

text \<open>The node of the pod is lost: the pod and its claim are deleted at once.\<close>

definition PodCtrl_nodeLost :: "StatefulPod \<Rightarrow> Pod \<Rightarrow> int \<Rightarrow> (bool \<times> StatefulPod) prog" where
  "PodCtrl_nodeLost sp pod index =
     bnd (PodService_DeleteMandatory pod sp) (\<lambda>e. case e of
       Some err \<Rightarrow> Ret (False, sp)
     | None \<Rightarrow>
         if PVCTemplate (Spec sp) \<noteq> None then
           bnd (PVCService_GetName sp index) (\<lambda>(pvcName, sp1).
           bnd (PVCService_IsExists (NN (Namespace (sp_Meta sp1)) pvcName)) (\<lambda>r. case r of
             Some pvc \<Rightarrow>
               bnd (PVCService_DeleteMandatory pvc sp1) (\<lambda>e. case e of
                 Some err \<Rightarrow> Ret (False, sp1)
               | None \<Rightarrow> bnd (mark_deleting sp1 index) (\<lambda>sp2. Ret (True, sp2)))
           | None \<Rightarrow> bnd (mark_deleting sp1 index) (\<lambda>sp2. Ret (True, sp2))))
         else bnd (mark_deleting sp index) (\<lambda>sp2. Ret (True, sp2)))"

text \<open>The \<open>goto DELETEPVC\<close> loop, with the rounds it may take.\<close>

fun PodCtrl_deletePVC_loop :: "nat \<Rightarrow> PVC \<Rightarrow> unit prog" where
  "PodCtrl_deletePVC_loop 0 pvc = OutOfFuel"
| "PodCtrl_deletePVC_loop (Suc n) pvc =
     bnd (PVCService_Delete pvc) (\<lambda>e. case e of Some err \<Rightarrow> PodCtrl_deletePVC_loop n pvc | None \<Rightarrow> Ret ())"

text \<open>
  The pod was marked \<open>CreateTimeOut\<close>: it and its claim (the first definition) are deleted. The
  last ordinal is dropped from the lists, any other is marked for maintenance (the second).
\<close>

definition PodCtrl_timedOutClaim :: "nat \<Rightarrow> StatefulPod \<Rightarrow> Pod \<Rightarrow> int \<Rightarrow> StatefulPod prog" where
  "PodCtrl_timedOutClaim fuel sp pod index =
     (if PVCTemplate (Spec sp) \<noteq> None then
        bnd (PVCService_GetName sp index) (\<lambda>(pvcName, sp1).
        bnd (PVCService_IsExists (NN (Namespace (pod_Meta pod)) pvcName)) (\<lambda>r. case r of
          Some pvc \<Rightarrow> bnd (PodCtrl_deletePVC_loop fuel pvc) (\<lambda>u. Ret sp1)
        | None \<Rightarrow> Ret sp1))
      else Ret sp)"

definition PodCtrl_timedOutStatus :: "StatefulPod \<Rightarrow> int \<Rightarrow> StatefulPod prog" where
  "PodCtrl_timedOutStatus sp index =
     (if index = int (length (pods_of sp)) - 1 then
        bnd (go_slice_to (pods_of sp) index) (\<lambda>ps.
        bnd (go_slice_to (pvcs_of sp) index) (\<lambda>vs.
        Ret (set_pvcs vs (set_pods ps sp))))
      else mark_deleting sp index)"

definition PodCtrl_timedOut :: "nat \<Rightarrow> StatefulPod \<Rightarrow> Pod \<Rightarrow> int \<Rightarrow> (bool \<times> StatefulPod) prog" where
  "PodCtrl_timedOut fuel sp pod index =
     bnd (PodService_Delete pod) (\<lambda>e. case e of
       Some err \<Rightarrow> Ret (False, sp)
     | None \<Rightarrow>
         bnd (PodCtrl_timedOutClaim fuel sp pod index) (\<lambda>sp1.
         bnd (PodCtrl_timedOutStatus sp1 index) (\<lambda>sp2. Ret (True, sp2))))"

definition PodCtrl_MonitorPodStatus ::
    "Env \<Rightarrow> nat \<Rightarrow> StatefulPod \<Rightarrow> Pod \<Rightarrow> int \<Rightarrow> (bool \<times> StatefulPod) prog" where
  "PodCtrl_MonitorPodStatus env fuel sp pod index =
     (if index \<ge> int (length (pods_of sp)) then Ret (False, sp)
      else if \<not> IsZero (DeletionTimestamp (pod_Meta pod)) then
        bnd (go_index (pods_of sp) index) (\<lambda>p.
        if ps_Status p = Deleting \<or> ps_Status p = CreateTimeOut then Ret (False, sp)
        else bnd (go_assign (pods_of sp) index (\<lambda>p. p\<lparr>ps_Status := Deleting\<rparr>)) (\<lambda>xs.
             Ret (True, set_pods xs sp)))
      else
        bnd (IsNodeReady env (NN '''' (pod_NodeName (pod_Spec pod)))) (\<lambda>ready.
        if \<not> ready then PodCtrl_nodeLost sp pod index
        else if PodCtrl_isPodRunning pod then
          bnd (go_index (pods_of sp) index) (\<lambda>p.
          if ps_Status p = PodRunning then Ret (False, sp)
          else bnd (go_assign (pods_of sp) index (\<lambda>p. p\<lparr>PodName := Name (pod_Meta pod),
                      ps_Status := PodRunning, NodeName := pod_NodeName (pod_Spec pod)\<rparr>)) (\<lambda>xs.
               Ret (True, set_pods xs sp)))
        else
          bnd (go_index (pods_of sp) index) (\<lambda>p.
          if ps_Status p = CreateTimeOut then PodCtrl_timedOut fuel sp pod index
          else Now (\<lambda>now.
            if time_Sub now (CreationTimestamp (pod_Meta pod)) \<ge> seconds (pod_Timeout (cfg_Pod (cfg env)))
            then bnd (go_assign (pods_of sp) index (\<lambda>p. p\<lparr>ps_Status := CreateTimeOut\<rparr>)) (\<lambda>xs.
                 Ret (True, set_pods xs sp))
            else Ret (False, sp)))))"

lemmas PodCtrl_defs [model_defs] =
  PodCtrl_IsPodDeleting_def PodCtrl_ExpansionPod_def PodCtrl_ShrinkPod_def PodCtrl_DeletePodAll_def
  PodCtrl_MaintainPod_def PodCtrl_PodIsOk_def mark_deleting_def PodCtrl_nodeLost_def
  PodCtrl_timedOutClaim_def PodCtrl_timedOutStatus_def
  PodCtrl_timedOut_def PodCtrl_MonitorPodStatus_def

section \<open>Removal through the interface\<close>

interpretation pod_remover: remover pod_srv pod_Meta PodService_IsExists PodService_Delete
  PodCtrl_DeletePodAll_loop PodName
  by unfold_locales (rule run_PodService_Delete PodCtrl_DeletePodAll_loop.simps)+

section \<open>Contract\<close>

lemma keeps_DeletePodAll_loop: "keeps s (\<lambda>_. True) (PodCtrl_DeletePodAll_loop ns vs cnt)"
proof (induction vs arbitrary: cnt)
  case (Cons v vs)
  have del: "keeps s (\<lambda>e. keeps s (\<lambda>_. True) (case e of Some err \<Rightarrow> Ret None | None \<Rightarrow> PodCtrl_DeletePodAll_loop ns vs cnt))
      (PodService_Delete pod)" for pod
    by (rule meets_mono [OF keeps_PodService_Delete]) (simp add: Cons.IH split: option.split)
  show ?case
    using Cons.IH [of "Suc cnt"] del by (auto intro!: meets_mono [OF keeps_PodService_IsExists] split: option.split)
qed simp

lemma keeps_DeletePodAll: "keeps s (\<lambda>_. True) (PodCtrl_DeletePodAll sp)"
  by (auto simp: PodCtrl_DeletePodAll_def intro!: meets_mono [OF keeps_DeletePodAll_loop] split: option.split)

lemma good_pod_index:
  "good s sp \<Longrightarrow> 0 \<le> i \<Longrightarrow> i < int (length (pods_of sp)) \<Longrightarrow>
   ps_Index (pods_of sp ! nat i) = Some (int32_of i) \<and> ps_Status (pods_of sp ! nat i) \<in> pod_phases"
  by (auto simp: good_def wf_status_def typed_def)

lemma good_set_pod:
  "good s sp \<Longrightarrow> 0 \<le> i \<Longrightarrow> i < int (length (pods_of sp)) \<Longrightarrow> ps_Index p = ps_Index (pods_of sp ! nat i) \<Longrightarrow>
   ps_Status p \<in> pod_phases \<Longrightarrow> good s (set_pods ((pods_of sp)[nat i := p]) sp)"
  by (simp add: good_def wf_status_pod typed_pod)

lemma keeps_ExpansionPod:
  assumes "good s sp" "0 \<le> index"
  shows "keeps s (\<lambda>x. same_status s sp (snd x) \<and> (\<forall>p. fst x = Inr p \<longrightarrow> ps_Index p = Some (int32_of index) \<and> ps_Status p \<in> pod_phases))
    (PodCtrl_ExpansionPod env sp index)"
proof -
  have spec: "s \<Longrightarrow> spec_ok (Spec sp)" using assms(1) by (simp add: good_def)
  have make: "keeps s (\<lambda>x. same_status s sp (snd x) \<and> (\<forall>p. fst x = Inr p \<longrightarrow> ps_Index p = Some (int32_of index) \<and> ps_Status p \<in> pod_phases))
      (bnd (PodService_CreateTemplate env sp name index) (\<lambda>(t, sp'). bnd (PodService_Create t) (\<lambda>c. case c of
         Inl err \<Rightarrow> Ret (Inl err, sp')
       | Inr obj \<Rightarrow> Ret (Inr \<lparr>PodName = Name (pod_Meta obj), ps_Status = Preparing,
           ps_Index = Some (int32_of index), NodeName = ''''\<rparr>, sp'))))" for name
    by (rule meets_bndI [OF keeps_PodService_CreateTemplate [OF spec]])
      (auto simp: PodService_Create_def split: sum.split)
  show ?thesis
    using make assms good_pod_index [OF assms(1)]
    by (auto simp: PodCtrl_ExpansionPod_def Let_def simp del: Preparing_def
        intro!: meets_mono [OF keeps_PodService_IsExists] keeps_go_index split: option.split)
qed

lemma keeps_ShrinkPod: "keeps s (\<lambda>_. True) (PodCtrl_ShrinkPod sp index)"
  by (auto simp: PodCtrl_ShrinkPod_def Let_def intro!: meets_mono [OF keeps_PodService_IsExists]
      meets_mono [OF keeps_PodService_Delete] split: option.split)

lemma keeps_MaintainPod_loop: "keeps s (\<lambda>r. \<forall>j. r = Some j \<longrightarrow> i \<le> j \<and> j < i + length ps) (PodCtrl_MaintainPod_loop ns ps i)"
proof (induction ps arbitrary: i)
  case (Cons p ps)
  have rest: "keeps s (\<lambda>r. \<forall>j. r = Some j \<longrightarrow> i \<le> j \<and> j < i + length (p # ps)) (PodCtrl_MaintainPod_loop ns ps (Suc i))"
    by (rule meets_mono [OF Cons.IH [of "Suc i"]]) auto
  show ?case
    using rest by (auto intro!: meets_mono [OF keeps_PodService_IsExists] split: option.split)
qed simp

lemma keeps_MaintainPod: "keeps s (\<lambda>r. \<forall>j. r = Some j \<longrightarrow> j < length (pods_of sp)) (PodCtrl_MaintainPod sp)"
  unfolding PodCtrl_MaintainPod_def by (rule meets_mono [OF keeps_MaintainPod_loop]) auto

lemma good_set_pod_nat:
  "good s sp \<Longrightarrow> i < length (pods_of sp) \<Longrightarrow> st \<in> pod_phases \<Longrightarrow>
   good s (set_pods ((pods_of sp)[i := (pods_of sp ! i)\<lparr>ps_Status := st\<rparr>]) sp)"
  using good_set_pod [of s sp "int i"] by simp

lemma keeps_PodIsOk_loop:
  assumes "good s sp"
  shows "i + length ps = length (pods_of sp) \<Longrightarrow> keeps s (\<lambda>(r, sp'). good s sp') (PodCtrl_PodIsOk_loop sp ps i)"
proof (induction ps arbitrary: i)
  case (Cons p ps)
  then show ?case
    using assms
    by (auto intro!: meets_mono [OF keeps_PodService_IsExists] keeps_go_index keeps_go_assign good_set_pod_nat
        split: option.split)
qed (simp add: assms)

lemma keeps_PodIsOk: "good s sp \<Longrightarrow> keeps s (\<lambda>(r, sp'). good s sp') (PodCtrl_PodIsOk sp)"
  unfolding PodCtrl_PodIsOk_def by (rule keeps_PodIsOk_loop) auto

lemma keeps_mark_deleting:
  assumes "good s sp" "s \<Longrightarrow> 0 \<le> index \<and> index < int (length (pods_of sp))"
  shows "keeps s (good s) (mark_deleting sp index)"
proof -
  have "good s (set_pvcs ((pvcs_of sp)[nat index := v]) (set_pods ((pods_of sp)[nat index := p]) sp))"
    if "0 \<le> index" "index < int (length (pods_of sp))" "ps_Index p = ps_Index (pods_of sp ! nat index)"
      "pvs_Index v = pvs_Index (pvcs_of sp ! nat index)" "ps_Status p \<in> pod_phases" "pvs_Status v \<in> claim_phases" for p v
    using assms(1) that typed_pvc [OF typed_pod, of sp p v] by (auto simp: good_def wf_status_def nth_list_update)
  then show ?thesis
    using assms good_lengths [OF assms(1)]
    by (auto simp: mark_deleting_def intro!: keeps_go_assign)
qed

lemma keeps_nodeLost:
  assumes "good s sp" "s \<Longrightarrow> 0 \<le> index \<and> index < int (length (pods_of sp))"
  shows "keeps s (\<lambda>(b, sp'). good s sp') (PodCtrl_nodeLost sp pod index)"
proof -
  have mark: "keeps s (good s) (mark_deleting sp1 index)" if "same_status s sp sp1" for sp1
    using keeps_mark_deleting [of s sp1 index] same_status_good [OF that assms(1)] assms(2) that
    by (simp add: same_status_lists)
  have claim: "keeps s (\<lambda>(b, sp'). good s sp') (bnd (PVCService_GetName sp index) (\<lambda>(pvcName, sp1).
      bnd (PVCService_IsExists (NN (Namespace (sp_Meta sp1)) pvcName)) (\<lambda>r. case r of
        Some pvc \<Rightarrow> bnd (PVCService_DeleteMandatory pvc sp1) (\<lambda>e. case e of
            Some err \<Rightarrow> Ret (False, sp1) | None \<Rightarrow> bnd (mark_deleting sp1 index) (\<lambda>sp2. Ret (True, sp2)))
      | None \<Rightarrow> bnd (mark_deleting sp1 index) (\<lambda>sp2. Ret (True, sp2)))))"
    if "PVCTemplate (Spec sp) \<noteq> None"
    by (rule meets_bndI [OF keeps_PVCService_GetName], use assms that good_claim_volume in blast)
      (auto intro!: meets_mono [OF keeps_PVCService_IsExists] meets_mono [OF keeps_PVCService_DeleteMandatory]
        mark dest: same_status_good [OF _ assms(1)] split: option.split)
  show ?thesis
    using claim assms(1) mark [of sp]
    by (auto simp: PodCtrl_nodeLost_def simp del: meets_bnd
        intro!: meets_bndI [OF keeps_PodService_DeleteMandatory] meets_bndI [OF mark] split: option.split)
qed

lemma keeps_deletePVC_loop: "keeps s (\<lambda>_. True) (PodCtrl_deletePVC_loop n pvc)"
proof (induction n)
  case (Suc n)
  then show ?case by (auto intro!: meets_mono [OF keeps_PVCService_Delete] split: option.split)
qed simp

lemma good_take:
  "good s sp \<Longrightarrow> good s (set_pvcs (take n (pvcs_of sp)) (set_pods (take n (pods_of sp)) sp))"
  using wf_status_take [of "Status sp" n] typed_take [of sp n] by (simp add: good_def)

lemma keeps_timedOutClaim:
  assumes "good s sp"
  shows "keeps s (same_status s sp) (PodCtrl_timedOutClaim fuel sp pod index)"
proof (cases "PVCTemplate (Spec sp) = None")
  case False
  then show ?thesis
    by (simp add: PodCtrl_timedOutClaim_def del: meets_bnd)
      (intro meets_bndI [OF keeps_PVCService_GetName], use assms good_claim_volume in blast,
       auto intro!: meets_mono [OF keeps_PVCService_IsExists] meets_mono [OF keeps_deletePVC_loop] split: option.split)
qed (simp add: PodCtrl_timedOutClaim_def)

lemma keeps_timedOutStatus:
  assumes "good s sp" "s \<Longrightarrow> 0 \<le> index \<and> index < int (length (pods_of sp))"
  shows "keeps s (good s) (PodCtrl_timedOutStatus sp index)"
  using keeps_mark_deleting [OF assms] good_lengths [OF assms(1)] good_take [OF assms(1)] assms(2)
  by (auto simp: PodCtrl_timedOutStatus_def go_slice_to_def)

lemma keeps_timedOut:
  assumes "good s sp" "s \<Longrightarrow> 0 \<le> index \<and> index < int (length (pods_of sp))"
  shows "keeps s (\<lambda>(b, sp'). good s sp') (PodCtrl_timedOut fuel sp pod index)"
proof -
  have status: "keeps s (good s) (PodCtrl_timedOutStatus sp1 index)" if "same_status s sp sp1" for sp1
    using keeps_timedOutStatus [of s sp1 index] same_status_good [OF that assms(1)] assms(2) that
    by (simp add: same_status_lists)
  have claim: "keeps s (\<lambda>(b, sp'). good s sp')
      (bnd (PodCtrl_timedOutClaim fuel sp pod index) (\<lambda>sp1. bnd (PodCtrl_timedOutStatus sp1 index) (\<lambda>sp2. Ret (True, sp2))))"
    by (rule meets_bndI [OF keeps_timedOutClaim [OF assms(1)]]) (auto intro!: meets_mono [OF status])
  show ?thesis
    unfolding PodCtrl_timedOut_def
    by (rule meets_bndI [OF keeps_PodService_Delete]) (use claim assms(1) in \<open>auto split: option.split\<close>)
qed

lemma keeps_PodCtrl_MonitorPodStatus:
  assumes "good s sp" "s \<Longrightarrow> 0 \<le> index"
  shows "keeps s (\<lambda>(b, sp'). good s sp') (PodCtrl_MonitorPodStatus env fuel sp pod index)"
proof (cases "index \<ge> int (length (pods_of sp))")
  case False
  then have range: "s \<Longrightarrow> 0 \<le> index \<and> index < int (length (pods_of sp))" using assms(2) by simp
  have set: "good s (set_pods ((pods_of sp)[nat index := p]) sp)"
    if "0 \<le> index" "index < int (length (pods_of sp))" "ps_Index p = ps_Index (pods_of sp ! nat index)"
      "ps_Status p \<in> pod_phases" for p
    using good_set_pod [OF assms(1) that] .
  have lost: "keeps s (\<lambda>(b, sp'). good s sp') (PodCtrl_nodeLost sp pod index)"
    by (rule keeps_nodeLost [OF assms(1)]) (rule range)
  have timed: "keeps s (\<lambda>(b, sp'). good s sp') (PodCtrl_timedOut fuel sp pod index)"
    by (rule keeps_timedOut [OF assms(1)]) (rule range)
  show ?thesis
    unfolding PodCtrl_MonitorPodStatus_def
    using False assms(1) range set lost timed
    by (auto simp del: CreateTimeOut_def Deleting_def PodRunning_def
        intro!: meets_mono [OF keeps_IsNodeReady] keeps_go_index keeps_go_assign)
qed (use assms in \<open>simp add: PodCtrl_MonitorPodStatus_def\<close>)

end
