(* ===== verification/PVService.thy ===== *)
theory PVService
  imports Contracts
begin

text \<open>
  \<open>services/pv/pv.go\<close>: persistent volumes are read and updated only; \<open>Create\<close>, \<open>Delete\<close> and
  \<open>CreateTemplate\<close> of this service do nothing. \<open>Get\<close> passes the error on, which \<open>IsExists\<close> does
  not.
\<close>

definition PVService_GetName :: "StatefulPod \<Rightarrow> int \<Rightarrow> string prog" where
  "PVService_GetName sp index = bnd (go_index (pvcs_of sp) index) (\<lambda>st. Ret (PVName st))"

definition PVService_IsExists :: "NamespacedName \<Rightarrow> PV option prog" where
  "PVService_IsExists nn = CallPV (Get nn) (\<lambda>r. case r of Inl e \<Rightarrow> Ret None | Inr pv \<Rightarrow> Ret (Some pv))"

definition PVService_IsResourceVersionSame :: "PV \<Rightarrow> bool prog" where
  "PVService_IsResourceVersionSame pv =
     bnd (PVService_IsExists (NN (Namespace (pv_Meta pv)) (Name (pv_Meta pv)))) (\<lambda>r. case r of
       None \<Rightarrow> Ret False
     | Some newPv \<Rightarrow>
         if ResourceVersion (pv_Meta pv) \<noteq> ResourceVersion (pv_Meta newPv) then Ret False else Ret True)"

definition PVService_Update :: "PV \<Rightarrow> (go_error + PV) prog" where
  "PVService_Update pv =
     bnd (PVService_IsResourceVersionSame pv) (\<lambda>same.
     if same then CallPV (Update pv) (\<lambda>r. case r of Inl e \<Rightarrow> Ret (Inl e) | Inr p \<Rightarrow> Ret (Inr p))
     else Ret (Inl (ErrorsNew '''')))"

definition PVService_Get :: "NamespacedName \<Rightarrow> (go_error + PV) prog" where
  "PVService_Get nn = CallPV (Get nn) (\<lambda>r. case r of Inl e \<Rightarrow> Ret (Inl e) | Inr pv \<Rightarrow> Ret (Inr pv))"

text \<open>The methods of the interface that do nothing here: they give nil without a call.\<close>

definition PVService_DeleteMandatory :: "PV \<Rightarrow> StatefulPod \<Rightarrow> go_error option prog" where
  "PVService_DeleteMandatory obj sp = Ret None"

definition PVService_CreateTemplate :: "StatefulPod \<Rightarrow> string \<Rightarrow> int \<Rightarrow> PV option prog" where
  "PVService_CreateTemplate sp name index = Ret None"

definition PVService_Create :: "PV \<Rightarrow> (PV option \<times> go_error option) prog" where
  "PVService_Create pv = Ret (None, None)"

definition PVService_Delete :: "PV \<Rightarrow> go_error option prog" where
  "PVService_Delete pv = Ret None"

lemmas PVService_defs [model_defs] =
  PVService_GetName_def PVService_IsExists_def PVService_IsResourceVersionSame_def
  PVService_Update_def PVService_Get_def

interpretation pv_reader: reader pv_srv pv_Meta PVService_IsExists
  by unfold_locales (auto simp: PVService_IsExists_def split: prod.splits sum.splits)

interpretation pv_versioned: versioned pv_srv pv_Meta PVService_IsExists
  PVService_IsResourceVersionSame PVService_Update
  by unfold_locales
    (auto simp: PVService_IsResourceVersionSame_def PVService_Update_def
       split: prod.splits sum.splits outcome.splits)

end
