(* ===== verification/PVCtrl.thy ===== *)
theory PVCtrl
  imports PVService
begin

text \<open>
  \<open>pv\_controller/pv.go\<close>: before a StatefulPod with the recycle policy \<open>Retain\<close> is deleted its volumes are
  set to be retained, and after its claims are gone they are made available again. Each operation
  is a loop over the claim status list that counts the volumes that are done.
\<close>

definition redisSlave :: string where [simp]: "redisSlave = ''redis-slave''"

text \<open>The loops give the count at their end, \<open>None\<close> for the early return.\<close>

fun PVCtrl_SetPVRetain_loop :: "PVCStatus list \<Rightarrow> nat \<Rightarrow> nat option prog" where
  "PVCtrl_SetPVRetain_loop [] cnt = Ret (Some cnt)"
| "PVCtrl_SetPVRetain_loop (pvcStatus # rest) cnt =
     bnd (PVService_Get (NN NamespaceAll (PVName pvcStatus))) (\<lambda>r. case r of
       Inr pv \<Rightarrow>
         if gomap_get (Annotations (pv_Meta pv)) redisSlave \<noteq> None then PVCtrl_SetPVRetain_loop rest (cnt + 1)
         else if pv_ReclaimPolicy pv = ReclaimRetain then PVCtrl_SetPVRetain_loop rest (cnt + 1)
         else bnd (PVService_Update (pv\<lparr>pv_ReclaimPolicy := ReclaimRetain, pv_StorageClassName := ''''\<rparr>)) (\<lambda>u. case u of
                Inl err \<Rightarrow> Ret None
              | Inr p \<Rightarrow> PVCtrl_SetPVRetain_loop rest cnt)
     | Inl err \<Rightarrow>
         if IgnoreNotFound err = None then PVCtrl_SetPVRetain_loop rest (cnt + 1)
         else PVCtrl_SetPVRetain_loop rest cnt)"

definition PVCtrl_SetPVRetain :: "StatefulPod \<Rightarrow> bool prog" where
  "PVCtrl_SetPVRetain sp =
     (if PVRecyclePolicy (Spec sp) \<noteq> ReclaimRetain then Ret True
      else bnd (PVCtrl_SetPVRetain_loop (pvcs_of sp) 0) (\<lambda>r. case r of
             None \<Rightarrow> Ret False
           | Some cnt \<Rightarrow> if cnt = length (pvcs_of sp) then Ret True else Ret False))"

fun PVCtrl_SetPVAvailable_loop :: "PVCStatus list \<Rightarrow> nat \<Rightarrow> nat option prog" where
  "PVCtrl_SetPVAvailable_loop [] cnt = Ret (Some cnt)"
| "PVCtrl_SetPVAvailable_loop (pvcStatus # rest) cnt =
     bnd (PVService_Get (NN NamespaceAll (PVName pvcStatus))) (\<lambda>r. case r of
       Inr pv \<Rightarrow>
         if gomap_get (Annotations (pv_Meta pv)) redisSlave \<noteq> None then Ret (Some cnt)
         else if pv_Phase pv = VolumeAvailable then PVCtrl_SetPVAvailable_loop rest (cnt + 1)
         else bnd (PVService_Update (pv\<lparr>pv_Meta := (pv_Meta pv)\<lparr>Finalizers := []\<rparr>,
                     pv_ClaimRef := None, pv_Phase := VolumeAvailable\<rparr>)) (\<lambda>u. case u of
                Inl err \<Rightarrow> Ret None
              | Inr p \<Rightarrow> PVCtrl_SetPVAvailable_loop rest cnt)
     | Inl err \<Rightarrow>
         if IgnoreNotFound err = None then PVCtrl_SetPVAvailable_loop rest (cnt + 1)
         else PVCtrl_SetPVAvailable_loop rest cnt)"

definition PVCtrl_SetPVAvailable :: "StatefulPod \<Rightarrow> bool prog" where
  "PVCtrl_SetPVAvailable sp =
     (if PVRecyclePolicy (Spec sp) \<noteq> ReclaimRetain then Ret True
      else bnd (PVCtrl_SetPVAvailable_loop (pvcs_of sp) 0) (\<lambda>r. case r of
             None \<Rightarrow> Ret False
           | Some cnt \<Rightarrow> if cnt = length (pvcs_of sp) then Ret True else Ret False))"

lemmas PVCtrl_defs [model_defs] = PVCtrl_SetPVRetain_def PVCtrl_SetPVAvailable_def

section \<open>Contract\<close>

lemma keeps_PVService_Get: "keeps s (\<lambda>_. True) (PVService_Get nn)"
  by (auto simp: PVService_Get_def split: sum.splits)

lemma keeps_PVService_Update: "keeps s (\<lambda>_. True) (PVService_Update pv)"
  by (auto simp: PVService_Update_def PVService_IsResourceVersionSame_def PVService_IsExists_def split: sum.splits)

lemma keeps_SetPVRetain_loop: "keeps s (\<lambda>_. True) (PVCtrl_SetPVRetain_loop vs cnt)"
proof (induction vs arbitrary: cnt)
  case (Cons v vs)
  have upd: "keeps s (\<lambda>u. keeps s (\<lambda>_. True) (case u of Inl err \<Rightarrow> Ret None | Inr p \<Rightarrow> PVCtrl_SetPVRetain_loop vs cnt))
      (PVService_Update pv)" for pv
    by (rule meets_mono [OF keeps_PVService_Update]) (simp add: Cons.IH split: sum.split)
  show ?case
    using Cons.IH upd by (auto intro!: meets_mono [OF keeps_PVService_Get] split: sum.split)
qed simp

lemma keeps_SetPVRetain: "keeps s (\<lambda>_. True) (PVCtrl_SetPVRetain sp)"
  by (auto simp: PVCtrl_SetPVRetain_def intro!: meets_mono [OF keeps_SetPVRetain_loop] split: option.split)

lemma keeps_SetPVAvailable_loop: "keeps s (\<lambda>_. True) (PVCtrl_SetPVAvailable_loop vs cnt)"
proof (induction vs arbitrary: cnt)
  case (Cons v vs)
  have upd: "keeps s (\<lambda>u. keeps s (\<lambda>_. True) (case u of Inl err \<Rightarrow> Ret None | Inr p \<Rightarrow> PVCtrl_SetPVAvailable_loop vs cnt))
      (PVService_Update pv)" for pv
    by (rule meets_mono [OF keeps_PVService_Update]) (simp add: Cons.IH split: sum.split)
  show ?case
    using Cons.IH upd by (auto intro!: meets_mono [OF keeps_PVService_Get] split: sum.split)
qed simp

lemma keeps_SetPVAvailable: "keeps s (\<lambda>_. True) (PVCtrl_SetPVAvailable sp)"
  by (auto simp: PVCtrl_SetPVAvailable_def intro!: meets_mono [OF keeps_SetPVAvailable_loop] split: option.split)

end
