(* ===== verification/SvcService.thy ===== *)
theory SvcService
  imports Contracts
begin

text \<open>
  \<open>services/service/svc.go\<close>: the headless service of a StatefulPod and the operations of the
  interface on services.
\<close>

definition Service_GetName :: "StatefulPod \<Rightarrow> int \<Rightarrow> string" where
  "Service_GetName sp index = SetServiceName sp"

definition Service_CreateTemplate :: "Env \<Rightarrow> StatefulPod \<Rightarrow> string \<Rightarrow> int \<Rightarrow> Service prog" where
  "Service_CreateTemplate env sp name index =
     bnd (go_deref (ServiceTemplate (Spec sp))) (\<lambda>t.
     Ret \<lparr>svc_TypeMeta = \<lparr>tm_Kind = ''Service'', tm_APIVersion = ''v1''\<rparr>,
          svc_Meta = ObjectMeta_zero\<lparr>Name := SetServiceName sp, Namespace := Namespace (sp_Meta sp),
            Annotations := Some [(GroupVersion_String, ''true''), (ParentNmae, Name (sp_Meta sp))],
            OwnerReferences := [NewControllerRef env sp StatefulPod_GVK]\<rparr>,
          svc_Spec = t\<rparr>)"

definition Service_IsExists :: "NamespacedName \<Rightarrow> Service option prog" where
  "Service_IsExists nn = CallSvc (Get nn) (\<lambda>r. case r of Inl e \<Rightarrow> Ret None | Inr service \<Rightarrow> Ret (Some service))"

definition Service_IsResourceVersionSame :: "Service \<Rightarrow> bool prog" where
  "Service_IsResourceVersionSame service =
     bnd (Service_IsExists (NN (Namespace (svc_Meta service)) (Name (svc_Meta service)))) (\<lambda>r. case r of
       None \<Rightarrow> Ret False
     | Some newSvc \<Rightarrow>
         if ResourceVersion (svc_Meta service) \<noteq> ResourceVersion (svc_Meta newSvc) then Ret False else Ret True)"

definition Service_Create :: "Service \<Rightarrow> (go_error + Service) prog" where
  "Service_Create service = CallSvc (Create service) (\<lambda>r. case r of Inl e \<Rightarrow> Ret (Inl e) | Inr s \<Rightarrow> Ret (Inr s))"

definition Service_Update :: "Service \<Rightarrow> (go_error + Service) prog" where
  "Service_Update service =
     bnd (Service_IsResourceVersionSame service) (\<lambda>same.
     if same then CallSvc (Update service) (\<lambda>r. case r of Inl e \<Rightarrow> Ret (Inl e) | Inr s \<Rightarrow> Ret (Inr s))
     else Ret (Inl (ErrorsNew '''')))"

definition Service_Delete :: "Service \<Rightarrow> go_error option prog" where
  "Service_Delete service = CallSvc (Delete service []) (\<lambda>r. case r of
      Inl e \<Rightarrow> if IgnoreNotFound e \<noteq> None then Ret (Some e) else Ret None
    | Inr s \<Rightarrow> Ret None)"

text \<open>The methods of the interface that do nothing here: they give nil without a call.\<close>

definition Service_DeleteMandatory :: "Service \<Rightarrow> StatefulPod \<Rightarrow> go_error option prog" where
  "Service_DeleteMandatory obj sp = Ret None"

definition Service_Get :: "NamespacedName \<Rightarrow> (Service option \<times> go_error option) prog" where
  "Service_Get nn = Ret (None, None)"

lemmas Service_defs [model_defs] =
  Service_GetName_def Service_CreateTemplate_def Service_IsExists_def
  Service_IsResourceVersionSame_def Service_Create_def Service_Update_def Service_Delete_def

interpretation svc_reader: reader svc_srv svc_Meta Service_IsExists
  by unfold_locales (auto simp: Service_IsExists_def split: prod.splits sum.splits)

interpretation svc_versioned: versioned svc_srv svc_Meta Service_IsExists
  Service_IsResourceVersionSame Service_Update
  by unfold_locales
    (auto simp: Service_IsResourceVersionSame_def Service_Update_def
       split: prod.splits sum.splits outcome.splits)

end
