(* ===== verification/SvcCtrl.thy ===== *)
theory SvcCtrl
  imports SvcService
begin

text \<open>
  \<open>service\_controller/service.go\<close>: create the service of a StatefulPod, and report success only
  once a later call finds it.
\<close>

definition ServiceController_CreateService :: "Env \<Rightarrow> StatefulPod \<Rightarrow> bool prog" where
  "ServiceController_CreateService env sp =
     (let serviceName = Service_GetName sp 0
      in bnd (Service_IsExists (NN (Namespace (sp_Meta sp)) serviceName)) (\<lambda>r. case r of
           None \<Rightarrow>
             bnd (Service_CreateTemplate env sp '''' 0) (\<lambda>svcTemplate.
             bnd (Service_Create svcTemplate) (\<lambda>c. case c of
               Inl err \<Rightarrow> Ret False
             | Inr s \<Rightarrow> Ret False))
         | Some s \<Rightarrow> Ret True))"

lemmas SvcCtrl_defs [model_defs] = ServiceController_CreateService_def

section \<open>Contract\<close>

lemma keeps_CreateService:
  "(s \<Longrightarrow> ServiceTemplate (Spec sp) \<noteq> None) \<Longrightarrow> keeps s (\<lambda>_. True) (ServiceController_CreateService env sp)"
  by (auto simp: ServiceController_CreateService_def Service_IsExists_def Service_Create_def
      Service_CreateTemplate_def Let_def intro!: keeps_go_deref split: sum.splits option.splits)

end
