(* ===== verification/StatefulPodService.thy ===== *)
theory StatefulPodService
  imports Contracts
begin

text \<open>
  \<open>services/statefulpod/statefulpod.go\<close>: the operations of the interface on StatefulPods. Unlike
  the other services, \<open>Update\<close> does not compare versions: it writes, and on any error but NotFound takes over
  the version the server has and writes again, without end.
\<close>

definition StatefulPodService_GetName :: "StatefulPod \<Rightarrow> int \<Rightarrow> string" where
  "StatefulPodService_GetName sp index = Name (sp_Meta sp)"

definition StatefulPodService_IsExists :: "NamespacedName \<Rightarrow> StatefulPod option prog" where
  "StatefulPodService_IsExists nn =
     CallSP (Get nn) (\<lambda>r. case r of Inl e \<Rightarrow> Ret None | Inr sp \<Rightarrow> Ret (Some sp))"

definition StatefulPodService_IsResourceVersionSame :: "StatefulPod \<Rightarrow> bool prog" where
  "StatefulPodService_IsResourceVersionSame sp =
     bnd (StatefulPodService_IsExists (NN (Namespace (sp_Meta sp)) (Name (sp_Meta sp)))) (\<lambda>r. case r of
       None \<Rightarrow> Ret False
     | Some newSp \<Rightarrow>
         if ResourceVersion (sp_Meta sp) \<noteq> ResourceVersion (sp_Meta newSp) then Ret False else Ret True)"

definition StatefulPodService_Create :: "StatefulPod \<Rightarrow> (go_error + StatefulPod) prog" where
  "StatefulPodService_Create sp =
     CallSP (Create sp) (\<lambda>r. case r of Inl e \<Rightarrow> Ret (Inl e) | Inr s \<Rightarrow> Ret (Inr s))"

definition getNewResourceVersion :: "StatefulPod \<Rightarrow> StatefulPod prog" where
  "getNewResourceVersion sp =
     CallSP (Get (NN (Namespace (sp_Meta sp)) (Name (sp_Meta sp)))) (\<lambda>r. case r of
       Inl e \<Rightarrow> Ret sp
     | Inr newSp \<Rightarrow>
         Ret (sp\<lparr>sp_Meta := (sp_Meta sp)\<lparr>ResourceVersion := ResourceVersion (sp_Meta newSp)\<rparr>\<rparr>))"

text \<open>The first argument bounds the rounds of the \<open>goto Update\<close> loop.\<close>

fun StatefulPodService_Update :: "nat \<Rightarrow> StatefulPod \<Rightarrow> (go_error + StatefulPod) prog" where
  "StatefulPodService_Update 0 sp = OutOfFuel"
| "StatefulPodService_Update (Suc n) sp =
     CallSP (Update sp) (\<lambda>r. case r of
       Inl e \<Rightarrow> if IgnoreNotFound e \<noteq> None
                then bnd (getNewResourceVersion sp) (\<lambda>sp'. StatefulPodService_Update n sp')
                else Ret (Inr sp)
     | Inr sp' \<Rightarrow> Ret (Inr sp'))"

definition StatefulPodService_Delete :: "StatefulPod \<Rightarrow> go_error option prog" where
  "StatefulPodService_Delete sp = CallSP (Delete sp []) (\<lambda>r. case r of
      Inl e \<Rightarrow> if IgnoreNotFound e \<noteq> None then Ret (Some e) else Ret None
    | Inr s \<Rightarrow> Ret None)"

text \<open>The methods of the interface that do nothing here: they give nil without a call.\<close>

definition StatefulPodService_DeleteMandatory :: "StatefulPod \<Rightarrow> StatefulPod \<Rightarrow> go_error option prog" where
  "StatefulPodService_DeleteMandatory obj sp = Ret None"

definition StatefulPodService_CreateTemplate :: "StatefulPod \<Rightarrow> string \<Rightarrow> int \<Rightarrow> StatefulPod option prog" where
  "StatefulPodService_CreateTemplate sp name index = Ret None"

definition StatefulPodService_Get :: "NamespacedName \<Rightarrow> (StatefulPod option \<times> go_error option) prog" where
  "StatefulPodService_Get nn = Ret (None, None)"

lemmas StatefulPodService_defs [model_defs] =
  StatefulPodService_GetName_def StatefulPodService_IsExists_def
  StatefulPodService_IsResourceVersionSame_def StatefulPodService_Create_def
  getNewResourceVersion_def StatefulPodService_Delete_def

interpretation sp_reader: reader sp_srv sp_Meta StatefulPodService_IsExists
  by unfold_locales (auto simp: StatefulPodService_IsExists_def split: prod.splits sum.splits)

section \<open>The update loop\<close>

text \<open>The loop never hands an error back: the error branches of its callers are dead.\<close>

lemma Update_never_errs:
  "run cl (StatefulPodService_Update n sp) w = (Done r, w') \<Longrightarrow> \<exists>sp'. r = Inr sp'"
proof (induction n arbitrary: sp w)
  case (Suc n)
  then show ?case
    by (auto simp: getNewResourceVersion_def split: prod.splits sum.splits if_splits)
qed simp

lemma Update_more_fuel:
  "run cl (StatefulPodService_Update n sp) w = (Done r, w') \<Longrightarrow>
   run cl (StatefulPodService_Update (n + k) sp) w = (Done r, w')"
proof (induction n arbitrary: sp w)
  case (Suc n)
  then show ?case
    by (auto simp: getNewResourceVersion_def split: prod.splits sum.splits if_splits)
qed simp

section \<open>Contract\<close>

lemma keeps_StatefulPodService_IsExists:
  "keeps s (\<lambda>r. case r of None \<Rightarrow> True | Some sp \<Rightarrow> good s sp) (StatefulPodService_IsExists nn)"
  by (auto simp: StatefulPodService_IsExists_def split: sum.splits)

lemma keeps_getNewResourceVersion:
  "good s sp \<Longrightarrow> keeps s (\<lambda>sp'. good s sp' \<and> Spec sp' = Spec sp \<and> Status sp' = Status sp) (getNewResourceVersion sp)"
  by (auto simp: getNewResourceVersion_def split: sum.splits)

lemma keeps_StatefulPodService_Update:
  "good s sp \<Longrightarrow> keeps s (\<lambda>r. \<exists>sp'. r = Inr sp' \<and> good s sp' \<and> Spec sp' = Spec sp \<and> Status sp' = Status sp)
     (StatefulPodService_Update n sp)"
proof (induction n arbitrary: sp)
  case (Suc n)
  have step: "keeps s (\<lambda>sp'. keeps s (\<lambda>r. \<exists>sp''. r = Inr sp'' \<and> good s sp'' \<and> Spec sp'' = Spec sp \<and>
      Status sp'' = Status sp) (StatefulPodService_Update n sp')) (getNewResourceVersion sp)"
  proof (rule meets_mono [OF keeps_getNewResourceVersion [OF Suc.prems]])
    fix sp' assume "good s sp' \<and> Spec sp' = Spec sp \<and> Status sp' = Status sp"
    then show "keeps s (\<lambda>r. \<exists>sp''. r = Inr sp'' \<and> good s sp'' \<and> Spec sp'' = Spec sp \<and>
        Status sp'' = Status sp) (StatefulPodService_Update n sp')"
      using Suc.IH [of sp'] by simp
  qed
  then show ?case
    using Suc.prems by (auto split: sum.splits intro: good_copy)
qed simp

end
