(* ===== verification/StatefulPodCtrl.thy ===== *)
theory StatefulPodCtrl
  imports PodCtrl PVCtrl SvcCtrl StatefulPodService
begin

text \<open>
  \<open>controllers/statefulpod/stateful\_pod.go\<close>: the controller of a StatefulPod. \<open>CoreCtrl\<close> compares
  the number of ordinals that are done (\<open>getIndex\<close>) with the size asked for and grows, shrinks,
  deletes or maintains by one step; the two monitors handle the events of pods and claims.
\<close>

section \<open>Results\<close>

record Result =
  Requeue :: bool
  RequeueAfter :: int

abbreviation result0 :: Result where
  "result0 \<equiv> \<lparr>Requeue = False, RequeueAfter = 0\<rparr>"

text \<open>\<open>WaitTime\<close>: two seconds, in nanoseconds.\<close>

definition WaitTime :: int where "WaitTime = 2000000000"

abbreviation requeue_wait :: Result where
  "requeue_wait \<equiv> \<lparr>Requeue = False, RequeueAfter = WaitTime\<rparr>"

abbreviation requeue_now :: Result where
  "requeue_now \<equiv> \<lparr>Requeue = True, RequeueAfter = 0\<rparr>"

type_synonym answer = "Result \<times> go_error option"

section \<open>getIndex\<close>

definition getIndex :: "StatefulPod \<Rightarrow> int prog" where
  "getIndex sp =
     (let index = int (length (pods_of sp)) - 1
      in if index < 0 then Ret 0
         else bnd (go_index (pods_of sp) index) (\<lambda>p.
           if ps_Status p = ''CreateTimeOut'' then Ret index
           else bnd (if ps_Status p = ''Preparing''
                     then bnd (go_deref (Size (Spec sp))) (\<lambda>sz. Ret (index < int_of_int32 sz))
                     else Ret False) (\<lambda>preparing.
             if preparing then Ret index
             else bnd (go_index (pvcs_of sp) index) (\<lambda>v.
               if pvs_Status v = ClaimPending then Ret index else Ret (index + 1)))))"

section \<open>The branches of CoreCtrl\<close>

definition StatefulPodCtrl_deleteStatefulPod :: "nat \<Rightarrow> StatefulPod \<Rightarrow> answer prog" where
  "StatefulPodCtrl_deleteStatefulPod fuel sp =
     (let myFinalizerName = GroupVersion_String
      in if MatchStringFromArray (Finalizers (sp_Meta sp)) myFinalizerName then
           bnd (PVCtrl_SetPVRetain sp) (\<lambda>ok. if \<not> ok then Ret (requeue_wait, None) else
           bnd (PodCtrl_DeletePodAll sp) (\<lambda>ok. if \<not> ok then Ret (requeue_wait, None) else
           bnd (PVCCtrl_DeletePvcAll sp) (\<lambda>ok. if \<not> ok then Ret (requeue_wait, None) else
           bnd (PVCtrl_SetPVAvailable sp) (\<lambda>ok. if \<not> ok then Ret (requeue_wait, None) else
           (let sp' = sp\<lparr>sp_Meta := (sp_Meta sp)\<lparr>Finalizers :=
                  RemoveString (Finalizers (sp_Meta sp)) myFinalizerName\<rparr>\<rparr>
            in bnd (StatefulPodService_Update fuel sp') (\<lambda>r. case r of
                 Inl err \<Rightarrow> Ret (requeue_wait, None)
               | Inr s \<Rightarrow> Ret (result0, None)))))))
         else Ret (result0, None))"

text \<open>The claim part of \<open>expansion\<close> (lines 144 to 155): a StatefulPod without claims gets a placeholder.\<close>

definition StatefulPodCtrl_expansionPVC ::
    "Env \<Rightarrow> StatefulPod \<Rightarrow> int \<Rightarrow> ((go_error + PVCStatus) \<times> StatefulPod) prog" where
  "StatefulPodCtrl_expansionPVC env sp index =
     (if PVCTemplate (Spec sp) \<noteq> None then PVCCtrl_ExpansionPVC env sp index
      else Ret (Inr \<lparr>pvs_Index = IntToIntr32 index, PVCName = ''none'', pvs_Status = '''',
                     Capacity = '''', pvs_AccessModes = [''none''], StorageClass = '''', PVName = ''''\<rparr>, sp))"

text \<open>The entries are appended or replaced (lines 157 to 163).\<close>

definition StatefulPodCtrl_record ::
    "StatefulPod \<Rightarrow> int \<Rightarrow> PodStatus \<Rightarrow> PVCStatus \<Rightarrow> StatefulPod prog" where
  "StatefulPodCtrl_record sp index podStatus pvcStatus =
     (if int (length (pods_of sp)) = index
      then Ret (set_pvcs (pvcs_of sp @ [pvcStatus]) (set_pods (pods_of sp @ [podStatus]) sp))
      else bnd (go_assign (pods_of sp) index (\<lambda>_. podStatus)) (\<lambda>ps.
           bnd (go_assign (pvcs_of sp) index (\<lambda>_. pvcStatus)) (\<lambda>vs.
           Ret (set_pvcs vs (set_pods ps sp)))))"

text \<open>The service of the first ordinal; \<open>False\<close> is the early return.\<close>

definition StatefulPodCtrl_expansionSvc :: "Env \<Rightarrow> StatefulPod \<Rightarrow> int \<Rightarrow> bool prog" where
  "StatefulPodCtrl_expansionSvc env sp index =
     (if index = 0 \<and> ServiceTemplate (Spec sp) \<noteq> None
      then ServiceController_CreateService env sp else Ret True)"

definition StatefulPodCtrl_expansion :: "Env \<Rightarrow> nat \<Rightarrow> StatefulPod \<Rightarrow> int \<Rightarrow> answer prog" where
  "StatefulPodCtrl_expansion env fuel sp index =
     bnd (StatefulPodCtrl_expansionSvc env sp index) (\<lambda>ok.
     if \<not> ok then Ret (requeue_wait, None) else
     bnd (PodCtrl_ExpansionPod env sp index) (\<lambda>(r, sp1). case r of
       Inl err \<Rightarrow> Ret (requeue_now, None)
     | Inr podStatus \<Rightarrow>
         bnd (StatefulPodCtrl_expansionPVC env sp1 index) (\<lambda>(r, sp2). case r of
           Inl err \<Rightarrow> Ret (result0, None)
         | Inr pvcStatus \<Rightarrow>
             bnd (StatefulPodCtrl_record sp2 index podStatus pvcStatus) (\<lambda>sp3.
             bnd (StatefulPodService_Update fuel sp3) (\<lambda>r. case r of
               Inl err \<Rightarrow> Ret (requeue_wait, None)
             | Inr s \<Rightarrow> Ret (result0, None))))))"

definition StatefulPodCtrl_shrink :: "nat \<Rightarrow> StatefulPod \<Rightarrow> int \<Rightarrow> answer prog" where
  "StatefulPodCtrl_shrink fuel sp index =
     bnd (PodCtrl_ShrinkPod sp (index - 1)) (\<lambda>ok.
     if \<not> ok then Ret (requeue_wait, None) else
     bnd (if PVCTemplate (Spec sp) \<noteq> None then PVCCtrl_ShrinkPVC sp (index - 1) else Ret (True, sp)) (\<lambda>(ok, sp1).
     if \<not> ok then Ret (requeue_wait, None) else
     bnd (go_slice_to (pods_of sp1) (index - 1)) (\<lambda>ps.
     bnd (go_slice_to (pvcs_of sp1) (index - 1)) (\<lambda>vs.
     bnd (StatefulPodService_Update fuel (set_pvcs vs (set_pods ps sp1))) (\<lambda>r. case r of
       Inl err \<Rightarrow> Ret (requeue_wait, None)
     | Inr s \<Rightarrow> Ret (result0, None))))))"

definition StatefulPodCtrl_maintain :: "Env \<Rightarrow> nat \<Rightarrow> StatefulPod \<Rightarrow> answer prog" where
  "StatefulPodCtrl_maintain env fuel sp =
     bnd (PodCtrl_PodIsOk sp) (\<lambda>(index, sp1).
     bnd (if index \<noteq> None then StatefulPodService_Update fuel sp1 else Ret (Inr sp1)) (\<lambda>r. case r of
       Inl err \<Rightarrow> Ret (requeue_wait, None)
     | Inr sp2 \<Rightarrow>
         bnd (PodCtrl_MaintainPod sp2) (\<lambda>index. case index of
           Some i \<Rightarrow> StatefulPodCtrl_expansion env fuel sp2 (int i)
         | None \<Rightarrow> Ret (result0, None))))"

text \<open>The first component is the answer, the second the StatefulPod with its finalizer.\<close>

definition StatefulPodCtrl_setFinalizer :: "nat \<Rightarrow> StatefulPod \<Rightarrow> (answer \<times> StatefulPod) prog" where
  "StatefulPodCtrl_setFinalizer fuel sp =
     (let myFinalizerName = GroupVersion_String
      in if IsZero (DeletionTimestamp (sp_Meta sp)) \<and>
            \<not> MatchStringFromArray (Finalizers (sp_Meta sp)) myFinalizerName then
           (let sp' = sp\<lparr>sp_Meta := (sp_Meta sp)\<lparr>Finalizers :=
                  Finalizers (sp_Meta sp) @ [myFinalizerName]\<rparr>\<rparr>
            in bnd (StatefulPodService_Update fuel sp') (\<lambda>r. case r of
                 Inl err \<Rightarrow> Ret ((requeue_wait, Some err), sp')
               | Inr s \<Rightarrow> Ret ((result0, None), s)))
         else Ret ((result0, None), sp))"

section \<open>The three entry points\<close>

definition StatefulPodCtrl_CoreCtrl :: "Env \<Rightarrow> nat \<Rightarrow> StatefulPod \<Rightarrow> answer prog" where
  "StatefulPodCtrl_CoreCtrl env fuel sp =
     bnd (getIndex sp) (\<lambda>lenStatus.
     bnd (go_deref (Size (Spec sp))) (\<lambda>sz.
       let lenSpec = int_of_int32 sz
       in if \<not> IsZero (DeletionTimestamp (sp_Meta sp)) \<and> lenStatus = lenSpec
          then StatefulPodCtrl_deleteStatefulPod fuel sp
          else if lenStatus < lenSpec then StatefulPodCtrl_expansion env fuel sp lenStatus
          else if lenStatus > lenSpec then StatefulPodCtrl_shrink fuel sp lenStatus
          else bnd (StatefulPodCtrl_setFinalizer fuel sp) (\<lambda>((result, err), sp').
               if err \<noteq> None then Ret (result, None) else StatefulPodCtrl_maintain env fuel sp')))"

definition StatefulPodCtrl_MonitorPodStatus :: "Env \<Rightarrow> nat \<Rightarrow> Pod \<Rightarrow> answer prog" where
  "StatefulPodCtrl_MonitorPodStatus env fuel pod =
     bnd (StatefulPodService_IsExists
       (NN (Namespace (pod_Meta pod)) (gomap_val (Annotations (pod_Meta pod)) ParentNmae))) (\<lambda>r. case r of
       None \<Rightarrow> Ret (result0, None)
     | Some sp \<Rightarrow>
         let index = StringToInt (gomap_val (Annotations (pod_Meta pod)) ''index'')
         in bnd (PodCtrl_MonitorPodStatus env fuel sp pod index) (\<lambda>(ok, sp').
            if ok then bnd (StatefulPodService_Update fuel sp') (\<lambda>r. case r of
                Inl err \<Rightarrow> Ret (requeue_wait, None)
              | Inr s \<Rightarrow> Ret (result0, None))
            else Ret (result0, None)))"

definition StatefulPodCtrl_MonitorPVCStatus :: "Env \<Rightarrow> nat \<Rightarrow> PVC \<Rightarrow> answer prog" where
  "StatefulPodCtrl_MonitorPVCStatus env fuel pvc =
     bnd (StatefulPodService_IsExists
       (NN (Namespace (pvc_Meta pvc)) (gomap_val (Annotations (pvc_Meta pvc)) ParentNmae))) (\<lambda>r. case r of
       None \<Rightarrow> Ret (result0, None)
     | Some sp \<Rightarrow>
         let index = StringToInt (gomap_val (Annotations (pvc_Meta pvc)) ''index'')
         in bnd (PVCCtrl_MonitorPVCStatus env sp pvc index) (\<lambda>(ok, sp').
            if ok then bnd (StatefulPodService_Update fuel sp') (\<lambda>r. case r of
                Inl err \<Rightarrow> Ret (requeue_wait, None)
              | Inr s \<Rightarrow> Ret (result0, None))
            else Ret (result0, None)))"

lemmas StatefulPodCtrl_defs [model_defs] =
  getIndex_def StatefulPodCtrl_deleteStatefulPod_def StatefulPodCtrl_expansionPVC_def
  StatefulPodCtrl_record_def StatefulPodCtrl_expansionSvc_def StatefulPodCtrl_expansion_def
  StatefulPodCtrl_shrink_def StatefulPodCtrl_maintain_def StatefulPodCtrl_setFinalizer_def
  StatefulPodCtrl_CoreCtrl_def StatefulPodCtrl_MonitorPodStatus_def StatefulPodCtrl_MonitorPVCStatus_def

section \<open>Contract\<close>

lemma good_spec_size: "good s sp \<Longrightarrow> s \<Longrightarrow> Size (Spec sp) \<noteq> None"
  by (auto simp: good_def spec_ok_def split: option.splits)

lemma keeps_getIndex:
  assumes "good s sp"
  shows "keeps s (\<lambda>i. 0 \<le> i \<and> i \<le> int (length (pods_of sp))) (getIndex sp)"
proof (cases "pods_of sp = []")
  case False
  then have "0 < length (pods_of sp)" by simp
  with assms good_lengths [OF assms] good_spec_size [OF assms] show ?thesis
    by (auto simp: getIndex_def Let_def intro!: keeps_go_index keeps_go_deref)
qed (simp add: getIndex_def)

text \<open>The update at the end of every branch, with what the branch answers after it.\<close>

lemma keeps_Update_end:
  "good s sp \<Longrightarrow> keeps s (\<lambda>_. True)
     (bnd (StatefulPodService_Update fuel sp) (\<lambda>r. case r of Inl err \<Rightarrow> Ret (f err) | Inr x \<Rightarrow> Ret (g x)))"
  by (rule meets_bndI [OF keeps_StatefulPodService_Update]) auto

lemma keeps_deleteStatefulPod:
  assumes "good s sp"
  shows "keeps s (\<lambda>_. True) (StatefulPodCtrl_deleteStatefulPod fuel sp)"
  using assms
  by (auto simp: StatefulPodCtrl_deleteStatefulPod_def Let_def simp del: meets_bnd
      intro!: meets_bndI [OF keeps_SetPVRetain] meets_bndI [OF keeps_DeletePodAll]
        meets_bndI [OF keeps_DeletePvcAll] meets_bndI [OF keeps_SetPVAvailable] keeps_Update_end)

lemma keeps_expansionPVC:
  assumes "good s sp" "0 \<le> index"
  shows "keeps s (claim_post s sp index) (StatefulPodCtrl_expansionPVC env sp index)"
  using keeps_ExpansionPVC [OF assms(1) _ assms(2)]
  by (auto simp: StatefulPodCtrl_expansionPVC_def IntToIntr32_def)

lemma keeps_record:
  assumes "good s sp" "0 \<le> index" "index \<le> int (length (pods_of sp))"
    "ps_Index p = Some (int32_of index)" "pvs_Index v = Some (int32_of index)" "ps_Status p \<in> pod_phases" "pvs_Status v \<in> claim_phases"
    "index < 2 ^ 31 - 1"
  shows "keeps s (good s) (StatefulPodCtrl_record sp index p v)"
proof (cases "int (length (pods_of sp)) = index")
  case True
  then show ?thesis
    using assms wf_status_append [of "Status sp" p v] typed_append [of sp p v]
    by (simp add: StatefulPodCtrl_record_def good_def del: ApiV1.StatefulPodStatus.update_defs)
next
  case False
  with assms have lt: "nat index < length (pods_of sp)" by simp
  have "wf_status ((Status sp)\<lparr>PodStatusMes := (pods_of sp)[nat index := p], PVCStatusMes := (pvcs_of sp)[nat index := v]\<rparr>)"
    by (rule wf_status_update) (use assms lt in \<open>auto simp: good_def\<close>)
  moreover have "typed (set_pvcs ((pvcs_of sp)[nat index := v]) (set_pods ((pods_of sp)[nat index := p]) sp))"
    using typed_pvc [OF typed_pod, of sp p v] assms(1,6,7) by (simp add: good_def)
  ultimately show ?thesis using False assms lt good_lengths [OF assms(1)]
    by (auto simp: StatefulPodCtrl_record_def good_def intro!: keeps_go_assign)
qed

lemma keeps_expansionSvc: "keeps s (\<lambda>_. True) (StatefulPodCtrl_expansionSvc env sp index)"
  by (auto simp: StatefulPodCtrl_expansionSvc_def intro!: keeps_CreateService)

lemma keeps_expansion:
  assumes "good s sp" "0 \<le> index" "index \<le> int (length (pods_of sp))" "index < 2 ^ 31 - 1"
  shows "keeps s (\<lambda>_. True) (StatefulPodCtrl_expansion env fuel sp index)"
proof -
  have finish: "keeps s (\<lambda>_. True) (bnd (StatefulPodCtrl_record sp2 index p v) (\<lambda>sp3.
      bnd (StatefulPodService_Update fuel sp3) (\<lambda>r. case r of
        Inl err \<Rightarrow> Ret (requeue_wait, None) | Inr x \<Rightarrow> Ret (result0, None))))"
    if "same_status s sp sp2" "ps_Index p = Some (int32_of index)" "ps_Status p \<in> pod_phases" "pvs_Index v = Some (int32_of index)"
      "pvs_Status v \<in> claim_phases" for sp2 p v
    by (rule meets_bndI [OF keeps_record])
      (use that assms same_status_good [OF that(1) assms(1)] in
        \<open>auto simp: same_status_lists simp del: meets_bnd intro!: keeps_Update_end\<close>)
  have claim: "keeps s (\<lambda>_. True) (bnd (StatefulPodCtrl_expansionPVC env sp1 index) (\<lambda>(r, sp2). case r of
          Inl err \<Rightarrow> Ret (result0, None)
        | Inr pvcStatus \<Rightarrow> bnd (StatefulPodCtrl_record sp2 index p pvcStatus) (\<lambda>sp3.
            bnd (StatefulPodService_Update fuel sp3) (\<lambda>r. case r of
              Inl err \<Rightarrow> Ret (requeue_wait, None) | Inr x \<Rightarrow> Ret (result0, None)))))"
    if same: "same_status s sp sp1" and p: "ps_Index p = Some (int32_of index)" "ps_Status p \<in> pod_phases" for sp1 p
    by (rule meets_bndI [OF keeps_expansionPVC [OF same_status_good [OF same assms(1)] assms(2)]])
      (auto simp del: meets_bnd split: sum.split intro!: finish [OF same_status_trans [OF same] p])
  show ?thesis
    unfolding StatefulPodCtrl_expansion_def
    by (rule meets_bndI [OF keeps_expansionSvc])
      (auto simp del: meets_bnd split: sum.split
        intro!: meets_bndI [OF keeps_ExpansionPod [OF assms(1,2)]] claim)
qed

lemma keeps_shrink:
  assumes "good s sp" "index \<le> int (length (pods_of sp))" "s \<Longrightarrow> 1 \<le> index"
  shows "keeps s (\<lambda>_. True) (StatefulPodCtrl_shrink fuel sp index)"
proof -
  have cut: "keeps s (\<lambda>_. True)
      (bnd (go_slice_to (pods_of sp1) (index - 1)) (\<lambda>ps. bnd (go_slice_to (pvcs_of sp1) (index - 1)) (\<lambda>vs.
       bnd (StatefulPodService_Update fuel (set_pvcs vs (set_pods ps sp1))) (\<lambda>r. case r of
         Inl err \<Rightarrow> Ret (requeue_wait, None) | Inr x \<Rightarrow> Ret (result0, None)))))"
    if same: "same_status s sp sp1" for sp1
    using assms same good_lengths [OF assms(1)] good_take [OF same_status_good [OF same assms(1)], of "nat (index - 1)"]
    by (auto simp: go_slice_to_def same_status_lists simp del: meets_bnd intro!: keeps_Update_end)
  have claim: "keeps s (\<lambda>(ok, sp1). same_status s sp sp1)
      (if PVCTemplate (Spec sp) \<noteq> None then PVCCtrl_ShrinkPVC sp (index - 1) else Ret (True, sp))"
    using keeps_ShrinkPVC [OF assms(1)] by simp
  show ?thesis
    unfolding StatefulPodCtrl_shrink_def
    by (intro meets_bndI [OF keeps_ShrinkPod] meets_bndI [OF claim] meets_flow) (use cut in \<open>auto simp del: meets_bnd\<close>)
qed

lemma keeps_maintain:
  assumes "good s sp"
  shows "keeps s (\<lambda>_. True) (StatefulPodCtrl_maintain env fuel sp)"
proof -
  have upd: "keeps s (\<lambda>r. \<exists>sp2. r = Inr sp2 \<and> good s sp2)
      (if index \<noteq> None then StatefulPodService_Update fuel sp1 else Ret (Inr sp1))"
    if "good s sp1" for sp1 and index :: "nat option"
    using that by (auto intro: meets_mono [OF keeps_StatefulPodService_Update])
  have rest: "keeps s (\<lambda>_. True) (bnd (PodCtrl_MaintainPod sp2) (\<lambda>index. case index of
        Some i \<Rightarrow> StatefulPodCtrl_expansion env fuel sp2 (int i) | None \<Rightarrow> Ret (result0, None)))"
    if "good s sp2" for sp2
    by (rule meets_bndI [OF keeps_MaintainPod])
      (use that in \<open>auto simp: good_def typed_def split: option.split intro!: keeps_expansion [OF that]\<close>)
  show ?thesis
    unfolding StatefulPodCtrl_maintain_def
    by (intro meets_bndI [OF keeps_PodIsOk [OF assms]] meets_flow, rule meets_bndI [OF upd])
      (auto simp del: meets_bnd intro!: rest)
qed

lemma keeps_setFinalizer:
  assumes "good s sp"
  shows "keeps s (\<lambda>(a, sp'). good s sp') (StatefulPodCtrl_setFinalizer fuel sp)"
  using assms
  by (auto simp: StatefulPodCtrl_setFinalizer_def Let_def simp del: meets_bnd
      intro!: meets_bndI [OF keeps_StatefulPodService_Update])

lemma keeps_CoreCtrl:
  assumes "good s sp"
  shows "keeps s (\<lambda>_. True) (StatefulPodCtrl_CoreCtrl env fuel sp)"
proof -
  have size: "keeps s (\<lambda>sz. s \<longrightarrow> 0 \<le> int_of_int32 sz) (go_deref (Size (Spec sp)))"
    using assms by (auto simp: good_def spec_ok_def split: option.splits)
  show ?thesis
    unfolding StatefulPodCtrl_CoreCtrl_def
    by (intro meets_bndI [OF keeps_getIndex [OF assms]] meets_bndI [OF size]
        meets_bndI [OF keeps_setFinalizer [OF assms]] meets_flow keeps_deleteStatefulPod
        keeps_expansion keeps_shrink keeps_maintain)
      (use assms less_le_trans [OF _ int_of_int32_le] in \<open>auto intro!: keeps_maintain\<close>)
qed

lemma keeps_MonitorPodStatus:
  assumes "s \<Longrightarrow> 0 \<le> pod_index pod"
  shows "keeps s (\<lambda>_. True) (StatefulPodCtrl_MonitorPodStatus env fuel pod)"
  unfolding StatefulPodCtrl_MonitorPodStatus_def
  by (rule meets_bndI [OF keeps_StatefulPodService_IsExists])
    (use assms in \<open>auto simp: Let_def pod_index_def simp del: meets_bnd split: option.split
      intro!: meets_bndI [OF keeps_PodCtrl_MonitorPodStatus] keeps_Update_end\<close>)

lemma keeps_StatefulPodCtrl_MonitorPVCStatus:
  assumes "s \<Longrightarrow> 0 \<le> pvc_index pvc"
  shows "keeps s (\<lambda>_. True) (StatefulPodCtrl_MonitorPVCStatus env fuel pvc)"
  unfolding StatefulPodCtrl_MonitorPVCStatus_def
  by (rule meets_bndI [OF keeps_StatefulPodService_IsExists])
    (use assms in \<open>auto simp: Let_def pvc_index_def simp del: meets_bnd split: option.split
      intro!: meets_bndI [OF keeps_MonitorPVCStatus] keeps_Update_end\<close>)

end
