(* ===== verification/Reconciler.thy ===== *)
theory Reconciler
  imports StatefulPodCtrl
begin

text \<open>
  \<open>controllers/\<close>: the reconciler, which finds out what a request names by trying the three kinds,
  the event handlers, which turn the events of the program's own pods and claims into requests,
  and the event filter.
\<close>

section \<open>Reconcile (statefulpod\_controller.go)\<close>

datatype kobject = StatefulPodObj StatefulPod | PodObj Pod | PVCObj PVC | UNKNOWN

definition getType :: "NamespacedName \<Rightarrow> kobject prog" where
  "getType req =
     CallSP (Get req) (\<lambda>r. case r of
       Inr statefulPod \<Rightarrow> Ret (StatefulPodObj statefulPod)
     | Inl e \<Rightarrow> CallPod (Get req) (\<lambda>r. case r of
         Inr pod \<Rightarrow> Ret (PodObj pod)
       | Inl e \<Rightarrow> CallPVC (Get req) (\<lambda>r. case r of
           Inr pvc \<Rightarrow> Ret (PVCObj pvc)
         | Inl e \<Rightarrow> Ret UNKNOWN)))"

definition Reconcile :: "Env \<Rightarrow> nat \<Rightarrow> NamespacedName \<Rightarrow> answer prog" where
  "Reconcile env fuel req =
     bnd (getType req) (\<lambda>obj. case obj of
       PodObj pod \<Rightarrow> StatefulPodCtrl_MonitorPodStatus env fuel pod
     | PVCObj pvc \<Rightarrow> StatefulPodCtrl_MonitorPVCStatus env fuel pvc
     | StatefulPodObj statefulPod \<Rightarrow> StatefulPodCtrl_CoreCtrl env fuel statefulPod
     | UNKNOWN \<Rightarrow> Ret (result0, None))"

section \<open>Event handlers (eventhandler.go)\<close>

text \<open>An event carries its metadata, which may be nil, and an object; the handlers add requests.\<close>

datatype event_object = EvPod Pod | EvPVC PVC | EvStatefulPod StatefulPod | EvOther

record event =
  ev_Meta :: "ObjectMeta option"
  ev_Object :: event_object

record update_event =
  ev_MetaNew :: "ObjectMeta option"
  ev_ObjectOld :: event_object
  ev_ObjectNew :: event_object

text \<open>The part the three handlers share word for word: pods first, then claims, both by the marker annotation.\<close>

definition enqueue_owned :: "event_object \<Rightarrow> NamespacedName list" where
  "enqueue_owned obj = (case obj of
      EvPod pod \<Rightarrow>
        if gomap_get (Annotations (pod_Meta pod)) GroupVersion_String \<noteq> None
        then [NN (Namespace (pod_Meta pod)) (Name (pod_Meta pod))] else []
    | EvPVC pvc \<Rightarrow>
        if gomap_get (Annotations (pvc_Meta pvc)) GroupVersion_String \<noteq> None
        then [NN (Namespace (pvc_Meta pvc)) (Name (pvc_Meta pvc))] else []
    | _ \<Rightarrow> [])"

definition StatefulPodEvent_Create :: "event \<Rightarrow> NamespacedName list" where
  "StatefulPodEvent_Create e = (if ev_Meta e = None then [] else enqueue_owned (ev_Object e))"

definition StatefulPodEvent_Update :: "update_event \<Rightarrow> NamespacedName list" where
  "StatefulPodEvent_Update e = (if ev_MetaNew e = None then [] else enqueue_owned (ev_ObjectNew e))"

definition StatefulPodEvent_Delete :: "event \<Rightarrow> NamespacedName list" where
  "StatefulPodEvent_Delete e = (if ev_Meta e = None then [] else enqueue_owned (ev_Object e))"

definition StatefulPodEvent_Generic :: "event \<Rightarrow> NamespacedName list" where
  "StatefulPodEvent_Generic e = []"

section \<open>Event filter (eventpredicate.go)\<close>

definition StatefulPodPredicate_Create :: "event \<Rightarrow> bool" where "StatefulPodPredicate_Create e = True"
definition StatefulPodPredicate_Delete :: "event \<Rightarrow> bool" where "StatefulPodPredicate_Delete e = True"
definition StatefulPodPredicate_Generic :: "event \<Rightarrow> bool" where "StatefulPodPredicate_Generic e = True"

text \<open>
  The new object of an update is asserted to be a StatefulPod without a check: any other is nil
  and reading its fields panics. \<open>reflect.DeepEqual\<close> is equality here; it also tells a nil list from an empty
  one, which objects decoded from the API do not have.
\<close>

definition StatefulPodPredicate_Update :: "update_event \<Rightarrow> bool prog" where
  "StatefulPodPredicate_Update e = (case ev_ObjectOld e of
      EvStatefulPod oldObj \<Rightarrow>
        (case ev_ObjectNew e of
          EvStatefulPod newObj \<Rightarrow>
            if PodTemplate (Spec oldObj) \<noteq> PodTemplate (Spec newObj) then Ret False
            else if Finalizers (sp_Meta oldObj) \<noteq> Finalizers (sp_Meta newObj) then Ret False
            else if pvcs_of oldObj \<noteq> pvcs_of newObj then Ret False
            else Ret True
        | _ \<Rightarrow> Panic NilDereference)
    | _ \<Rightarrow> Ret True)"

section \<open>Watches (SetupWithManager)\<close>

text \<open>
  StatefulPods are watched with controller-runtime's own handler, the argument; pods and claims with the
  handlers above. Every event passes the filter first.
\<close>

datatype watched = OnCreate event | OnUpdate update_event | OnDelete event | OnGeneric event

definition event_filter :: "watched \<Rightarrow> bool prog" where
  "event_filter ev = (case ev of
      OnCreate e \<Rightarrow> Ret (StatefulPodPredicate_Create e)
    | OnUpdate e \<Rightarrow> StatefulPodPredicate_Update e
    | OnDelete e \<Rightarrow> Ret (StatefulPodPredicate_Delete e)
    | OnGeneric e \<Rightarrow> Ret (StatefulPodPredicate_Generic e))"

definition StatefulPodEvent_handle :: "watched \<Rightarrow> NamespacedName list" where
  "StatefulPodEvent_handle ev = (case ev of
      OnCreate e \<Rightarrow> StatefulPodEvent_Create e
    | OnUpdate e \<Rightarrow> StatefulPodEvent_Update e
    | OnDelete e \<Rightarrow> StatefulPodEvent_Delete e
    | OnGeneric e \<Rightarrow> StatefulPodEvent_Generic e)"

definition watched_object :: "watched \<Rightarrow> event_object" where
  "watched_object ev = (case ev of OnCreate e \<Rightarrow> ev_Object e | OnUpdate e \<Rightarrow> ev_ObjectNew e
     | OnDelete e \<Rightarrow> ev_Object e | OnGeneric e \<Rightarrow> ev_Object e)"

definition SetupWithManager_watch :: "(watched \<Rightarrow> NamespacedName list) \<Rightarrow> watched \<Rightarrow> NamespacedName list prog" where
  "SetupWithManager_watch enqueue_for_object ev =
     (case watched_object ev of
        EvOther \<Rightarrow> Ret []
      | EvStatefulPod sp \<Rightarrow> bnd (event_filter ev) (\<lambda>pass. if pass then Ret (enqueue_for_object ev) else Ret [])
      | EvPod p \<Rightarrow> bnd (event_filter ev) (\<lambda>pass. if pass then Ret (StatefulPodEvent_handle ev) else Ret [])
      | EvPVC p \<Rightarrow> bnd (event_filter ev) (\<lambda>pass. if pass then Ret (StatefulPodEvent_handle ev) else Ret []))"

lemmas watch_defs = SetupWithManager_watch_def event_filter_def StatefulPodEvent_handle_def watched_object_def

section \<open>Contract\<close>

lemma keeps_Reconcile: "keeps s (\<lambda>_. True) (Reconcile env fuel req)"
  by (auto simp: Reconcile_def getType_def split: sum.split
      intro!: keeps_CoreCtrl keeps_MonitorPodStatus keeps_StatefulPodCtrl_MonitorPVCStatus)

end
