(* ===== verification/Cluster.thy ===== *)
theory Cluster
  imports Reconciler
begin

text \<open>
  A small API server held in memory, and a few concrete objects. They stand for nothing in the
  repository: they instantiate the client and the environment where a property with hypotheses is
  applied to a concrete cluster.
\<close>

section \<open>A server in memory\<close>

definition serve_obj :: "('o \<Rightarrow> ObjectMeta) \<Rightarrow> ((ObjectMeta \<Rightarrow> ObjectMeta) \<Rightarrow> 'o \<Rightarrow> 'o) \<Rightarrow> 'o req \<Rightarrow>
    (NamespacedName \<Rightarrow> 'o option) \<Rightarrow> 'o resp \<times> (NamespacedName \<Rightarrow> 'o option)" where
  "serve_obj meta upd r V = (case r of
      Get nn \<Rightarrow> (case V nn of None \<Rightarrow> Inl NotFound | Some x \<Rightarrow> Inr x, V)
    | Create x \<Rightarrow>
        (let k = NN (Namespace (meta x)) (Name (meta x)); y = upd (\<lambda>m. m\<lparr>ResourceVersion := ''1''\<rparr>) x
         in if V k = None then (Inr y, V(k := Some y)) else (Inl (ApiError ''AlreadyExists''), V))
    | Update x \<Rightarrow>
        (let k = NN (Namespace (meta x)) (Name (meta x))
         in case V k of
              None \<Rightarrow> (Inl NotFound, V)
            | Some cur \<Rightarrow>
                let y = upd (\<lambda>m. m\<lparr>ResourceVersion := CHR ''+'' # ResourceVersion m,
                  DeletionTimestamp := DeletionTimestamp (meta cur)\<rparr>) x
                in if ResourceVersion (meta cur) = ResourceVersion (meta x)
                then (Inr y, V(k := if let_go (meta cur) (meta x) then None else Some y))
                else (Inl (ApiError ''Conflict''), V))
    | Delete x opts \<Rightarrow>
        (let k = NN (Namespace (meta x)) (Name (meta x))
         in if V k = None then (Inl NotFound, V) else (Inr x, V(k := None))))"

record world =
  sps :: "NamespacedName \<Rightarrow> StatefulPod option"
  pods :: "NamespacedName \<Rightarrow> Pod option"
  claims :: "NamespacedName \<Rightarrow> PVC option"
  svcs :: "NamespacedName \<Rightarrow> Service option"
  pvs :: "NamespacedName \<Rightarrow> PV option"
  nodes :: "NamespacedName \<Rightarrow> Node option"
  now :: gotime

definition mem_client :: "world client" where
  "mem_client = \<lparr>
     sp_srv = (\<lambda>r w. case serve_obj sp_Meta sp_Meta_update r (sps w) of (x, V) \<Rightarrow> (x, w\<lparr>sps := V\<rparr>)),
     pod_srv = (\<lambda>r w. case serve_obj pod_Meta pod_Meta_update r (pods w) of (x, V) \<Rightarrow> (x, w\<lparr>pods := V\<rparr>)),
     pvc_srv = (\<lambda>r w. case serve_obj pvc_Meta pvc_Meta_update r (claims w) of (x, V) \<Rightarrow> (x, w\<lparr>claims := V\<rparr>)),
     svc_srv = (\<lambda>r w. case serve_obj svc_Meta svc_Meta_update r (svcs w) of (x, V) \<Rightarrow> (x, w\<lparr>svcs := V\<rparr>)),
     pv_srv = (\<lambda>r w. case serve_obj pv_Meta pv_Meta_update r (pvs w) of (x, V) \<Rightarrow> (x, w\<lparr>pvs := V\<rparr>)),
     node_srv = (\<lambda>r w. case serve_obj node_Meta node_Meta_update r (nodes w) of (x, V) \<Rightarrow> (x, w\<lparr>nodes := V\<rparr>)),
     clock = (\<lambda>w. (now w, w))\<rparr>"

definition empty_world :: world where
  "empty_world = \<lparr>sps = (\<lambda>_. None), pods = (\<lambda>_. None), claims = (\<lambda>_. None), svcs = (\<lambda>_. None),
     pvs = (\<lambda>_. None), nodes = (\<lambda>_. None), now = 0\<rparr>"

lemma mem_reads [simp]:
  "reads (sp_srv mem_client) sps" "reads (pod_srv mem_client) pods" "reads (pvc_srv mem_client) claims"
  "reads (svc_srv mem_client) svcs" "reads (pv_srv mem_client) pvs" "reads (node_srv mem_client) nodes"
  by (auto simp: reads_def mem_client_def serve_obj_def split: option.splits)

lemmas mem_simps = mem_client_def serve_obj_def empty_world_def

section \<open>Concrete objects\<close>

definition demo_env :: Env where
  "demo_env = \<lparr>cfg = \<lparr>cfg_Node = \<lparr>node_Timeout = 60\<rparr>, cfg_Pod = \<lparr>pod_Timeout = 300, Ready = 10\<rparr>\<rparr>,
     NewControllerRef = (\<lambda>sp gvk. \<lparr>or_APIVersion = gvk_Group gvk @ ''/'' @ gvk_Version gvk, or_Kind = gvk_Kind gvk,
        or_Name = Name (sp_Meta sp), or_UID = UID (sp_Meta sp), or_Controller = True, or_BlockOwnerDeletion = True\<rparr>),
     Quantity_String = (\<lambda>q. Itoa q)\<rparr>"

definition demo_meta :: ObjectMeta where
  "demo_meta = ObjectMeta_zero\<lparr>Name := ''db'', Namespace := ''ns'', UID := ''u1'', ResourceVersion := ''7''\<rparr>"

definition demo_template :: PodSpec where
  "demo_template = \<lparr>Volumes = [\<lparr>v_Name = ''data'', PersistentVolumeClaim = Some \<lparr>ClaimName = ''data'', cs_ReadOnly = False\<rparr>,
     v_rest = ''''\<rparr>], pod_NodeName = '''', Hostname = '''', Subdomain = '''', PodSpec_rest = ''image''\<rparr>"

definition demo_claim :: PVCSpec where
  "demo_claim = \<lparr>AccessModes = [''ReadWriteOnce''], StorageClassName = Some ''local'', VolumeName = '''',
     Requests = [(''storage'', 1)], PVCSpec_rest = ''''\<rparr>"

text \<open>A StatefulPod of the given size and status, without and with a claim template.\<close>

definition demo_sp :: "int \<Rightarrow> (PodPhase \<times> PVCPhase) list \<Rightarrow> StatefulPod" where
  "demo_sp n ph = \<lparr>sp_TypeMeta = \<lparr>tm_Kind = ''StatefulPod'', tm_APIVersion = ''iapetos.foundary-cloud.io/v1''\<rparr>,
     sp_Meta = demo_meta,
     Spec = \<lparr>Size = Some (int32_of n), Selector = None, PVRecyclePolicy = ''Delete'', ServiceTemplate = None,
       PodTemplate = demo_template, PVCTemplate = None, PVNames = []\<rparr>,
     Status = \<lparr>
       PodStatusMes = map (\<lambda>i. \<lparr>PodName = ''db-'' @ Itoa (int i), ps_Status = fst (ph ! i),
         ps_Index = Some (int32_of (int i)), NodeName = ''''\<rparr>) [0..<length ph],
       PVCStatusMes = map (\<lambda>i. \<lparr>pvs_Index = Some (int32_of (int i)), PVCName = ''data-db-'' @ Itoa (int i),
         pvs_Status = snd (ph ! i), Capacity = '''', pvs_AccessModes = [''ReadWriteOnce''], StorageClass = ''local'',
         PVName = ''pv-'' @ Itoa (int i)\<rparr>) [0..<length ph]\<rparr>\<rparr>"

definition demo_sp_claims :: "int \<Rightarrow> (PodPhase \<times> PVCPhase) list \<Rightarrow> StatefulPod" where
  "demo_sp_claims n ph = (let sp = demo_sp n ph in sp\<lparr>Spec := (Spec sp)\<lparr>PVCTemplate := Some demo_claim\<rparr>\<rparr>)"

definition demo_pod :: "string \<Rightarrow> string \<Rightarrow> PodPhase \<Rightarrow> Pod" where
  "demo_pod nm idx phase = \<lparr>pod_TypeMeta = \<lparr>tm_Kind = ''Pod'', tm_APIVersion = ''v1''\<rparr>,
     pod_Meta = demo_meta\<lparr>Name := nm, Annotations := Some [(''iapetos.foundary-cloud.io/v1'', ''true''),
       (''parentName'', ''db''), (''index'', idx)]\<rparr>,
     pod_Spec = demo_template, pod_Phase = phase, pod_Conditions = []\<rparr>"

definition demo_pvc :: "string \<Rightarrow> string \<Rightarrow> PVCPhase \<Rightarrow> PVC" where
  "demo_pvc nm idx phase = \<lparr>pvc_TypeMeta = \<lparr>tm_Kind = ''PersistentVolumeClaim'', tm_APIVersion = ''v1''\<rparr>,
     pvc_Meta = demo_meta\<lparr>Name := nm, Annotations := Some [(''iapetos.foundary-cloud.io/v1'', ''true''),
       (''parentName'', ''db''), (''index'', idx)]\<rparr>,
     pvc_Spec = demo_claim, pvc_Phase = phase\<rparr>"

lemmas demo_defs = demo_env_def demo_meta_def demo_template_def demo_claim_def demo_sp_def
  demo_sp_claims_def demo_pod_def demo_pvc_def ObjectMeta_zero_def

lemma good_demo [simp]: "wf_sp (demo_sp n ph)" "wf_sp (demo_sp_claims n ph)"
  by (simp_all add: wf_status_def demo_sp_def demo_sp_claims_def Let_def)

lemma demo_lengths [simp]:
  "length (pods_of (demo_sp n ph)) = length ph" "length (pvcs_of (demo_sp n ph)) = length ph"
  "length (pods_of (demo_sp_claims n ph)) = length ph" "length (pvcs_of (demo_sp_claims n ph)) = length ph"
  by (simp_all add: demo_sp_def demo_sp_claims_def Let_def)

end
