(* ===== verification/Process.thy ===== *)
theory Process
  imports Cluster
begin

text \<open>
  The start of the process: \<open>main.go\<close>, the configuration file (\<open>initconfig/init\_toml.go\<close>), the registration of the types
  (\<open>groupversion\_info.go\<close>, \<open>statefulpod\_types.go\<close>) and the controller that \<open>SetupWithManager\<close> hands over. The libraries
  are parameters, the record \<open>Runtime\<close>; the command line is parsed as the package \<open>flag\<close> of Go does.
\<close>

section \<open>The libraries\<close>

text \<open>A flag takes a value or, a boolean one, may stand alone.\<close>

datatype flag_kind = StringFlag | BoolFlag

record 's Options =
  o_Scheme :: 's
  SyncPeriod :: int
  MetricsBindAddress :: string
  Port :: int
  LeaderElection :: bool
  LeaderElectionID :: string

record Builder =
  For :: string
  Watches :: "(string \<times> (watched \<Rightarrow> NamespacedName list)) list"
  EventFilter :: "watched \<Rightarrow> bool prog"
  MaxConcurrentReconciles :: int
  Reconciler :: "NamespacedName \<Rightarrow> answer prog"

record SchemeBuilder =
  sb_GroupVersion :: GroupVersionT
  sb_Types :: "string list"

text \<open>
  What the process uses of the libraries: \<open>'s\<close> a scheme, \<open>'c\<close> the configuration of the client, \<open>'m\<close> a manager. The libraries have flags of
  their own on the same command line; \<open>lib_accepts\<close> says which values such a flag takes. \<open>Start\<close> returns once the manager has stopped.
\<close>

record ('s, 'c, 'm) Runtime =
  DecodeFile :: "string \<Rightarrow> Config \<Rightarrow> go_error + Config"
  NewScheme :: 's
  clientgo_AddToScheme :: "'s \<Rightarrow> go_error + 's"
  Builder_AddToScheme :: "SchemeBuilder \<Rightarrow> 's \<Rightarrow> go_error + 's"
  lib_kind :: "string \<Rightarrow> flag_kind option"
  lib_accepts :: "string \<Rightarrow> string \<Rightarrow> bool"
  GetConfig :: "(string \<times> string) list \<Rightarrow> go_error + 'c"
  NewManager :: "'c \<Rightarrow> 's Options \<Rightarrow> go_error + 'm"
  Complete :: "Builder \<Rightarrow> 'm \<Rightarrow> go_error + 'm"
  Start :: "'m \<Rightarrow> go_error option"

section \<open>The command line\<close>

record Flags =
  metricsAddr :: string
  enableLeaderElection :: bool
  libFlags :: "(string \<times> string) list"

definition default_flags :: Flags where
  "default_flags = \<lparr>metricsAddr = '':8080'', enableLeaderElection = False, libFlags = []\<rparr>"

text \<open>\<open>strconv.ParseBool\<close>.\<close>

definition ParseBool :: "string \<Rightarrow> bool option" where
  "ParseBool s =
     (if s \<in> set [''1'', ''t'', ''T'', ''true'', ''TRUE'', ''True''] then Some True
      else if s \<in> set [''0'', ''f'', ''F'', ''false'', ''FALSE'', ''False''] then Some False else None)"

definition flag_lookup :: "('s, 'c, 'm) Runtime \<Rightarrow> string \<Rightarrow> flag_kind option" where
  "flag_lookup rt name =
     (if name = ''metrics-addr'' then Some StringFlag
      else if name = ''enable-leader-election'' then Some BoolFlag else lib_kind rt name)"

definition flag_Set :: "('s, 'c, 'm) Runtime \<Rightarrow> string \<Rightarrow> string \<Rightarrow> Flags \<Rightarrow> Flags option" where
  "flag_Set rt name value f =
     (if name = ''metrics-addr'' then Some (f\<lparr>metricsAddr := value\<rparr>)
      else if name = ''enable-leader-election'' then map_option (\<lambda>b. f\<lparr>enableLeaderElection := b\<rparr>) (ParseBool value)
      else if lib_accepts rt name value then Some (f\<lparr>libFlags := libFlags f @ [(name, value)]\<rparr>) else None)"

text \<open>The name of a flag and the value after the first equals sign, which the first character cannot be.\<close>

fun split_value :: "string \<Rightarrow> string \<times> string option" where
  "split_value [] = ([], None)"
| "split_value (c # cs) = (if c = CHR ''='' then ([], Some cs) else (let (n, v) = split_value cs in (c # n, v)))"

text \<open>
  One round of the parser: a flag was taken, the flags are at their end, or the command line is not accepted (an undefined flag, \<open>-h\<close>
  and \<open>-help\<close> among them, a missing or a wrong value).
\<close>

datatype flag_step = FlagSeen "string list" Flags | FlagsEnd | FlagError

definition parse_one :: "('s, 'c, 'm) Runtime \<Rightarrow> string list \<Rightarrow> Flags \<Rightarrow> flag_step" where
  "parse_one rt args f = (case args of
      [] \<Rightarrow> FlagsEnd
    | s # rest \<Rightarrow>
        if length s < 2 \<or> hd s \<noteq> CHR ''-'' then FlagsEnd
        else if s = ''--'' then FlagsEnd
        else
          let body = (if s ! 1 = CHR ''-'' then drop 2 s else drop 1 s)
          in if body = [] \<or> hd body = CHR ''-'' \<or> hd body = CHR ''='' then FlagError
             else
               let (name, value) = split_value body;
                   took = (\<lambda>v args'. case flag_Set rt name v f of None \<Rightarrow> FlagError | Some f' \<Rightarrow> FlagSeen args' f')
               in case (flag_lookup rt name, value) of
                    (None, _) \<Rightarrow> FlagError
                  | (Some BoolFlag, None) \<Rightarrow> took ''true'' rest
                  | (Some BoolFlag, Some v) \<Rightarrow> took v rest
                  | (Some StringFlag, Some v) \<Rightarrow> took v rest
                  | (Some StringFlag, None) \<Rightarrow> (case rest of [] \<Rightarrow> FlagError | v # rest' \<Rightarrow> took v rest'))"

lemma parse_one_shorter: "parse_one rt args f = FlagSeen args' f' \<Longrightarrow> length args' < length args"
  by (auto simp: parse_one_def Let_def split: list.splits if_splits option.splits flag_kind.splits prod.splits)

text \<open>\<open>flag.Parse\<close>; \<open>None\<close> is the exit of the process.\<close>

function flag_Parse :: "('s, 'c, 'm) Runtime \<Rightarrow> string list \<Rightarrow> Flags \<Rightarrow> Flags option" where
  "flag_Parse rt args f = (case parse_one rt args f of
      FlagSeen args' f' \<Rightarrow> flag_Parse rt args' f'
    | FlagsEnd \<Rightarrow> Some f
    | FlagError \<Rightarrow> None)"
  by pat_completeness auto
termination
  by (relation "measure (\<lambda>(rt, args, f). length args)") (auto dest: parse_one_shorter)

declare flag_Parse.simps [simp del]

section \<open>Start\<close>

text \<open>\<open>init\<close> of the configuration; \<open>log.Fatal\<close> exits with status 1.\<close>

definition Config_zero :: Config where
  "Config_zero = \<lparr>cfg_Node = \<lparr>node_Timeout = 0\<rparr>, cfg_Pod = \<lparr>pod_Timeout = 0, Ready = 0\<rparr>\<rparr>"

definition initconfig_init :: "('s, 'c, 'm) Runtime \<Rightarrow> go_error + Config" where
  "initconfig_init rt = DecodeFile rt ''./config/node_lost_connection/config.toml'' Config_zero"

text \<open>The types of the API group and their registration; \<open>utilruntime.Must\<close> panics on an error (\<open>None\<close>).\<close>

definition api_SchemeBuilder :: SchemeBuilder where
  "api_SchemeBuilder = \<lparr>sb_GroupVersion = GroupVersion, sb_Types = []\<rparr>"

definition SchemeBuilder_Register :: "string list \<Rightarrow> SchemeBuilder \<Rightarrow> SchemeBuilder" where
  "SchemeBuilder_Register ts b = b\<lparr>sb_Types := sb_Types b @ ts\<rparr>"

definition api_init :: SchemeBuilder where
  "api_init = SchemeBuilder_Register [''StatefulPod'', ''StatefulPodList''] api_SchemeBuilder"

definition main_init :: "('s, 'c, 'm) Runtime \<Rightarrow> 's option" where
  "main_init rt = (case clientgo_AddToScheme rt (NewScheme rt) of
      Inl err \<Rightarrow> None
    | Inr scheme \<Rightarrow> (case Builder_AddToScheme rt api_init scheme of Inl err \<Rightarrow> None | Inr scheme' \<Rightarrow> Some scheme'))"

definition SetupWithManager :: "Env \<Rightarrow> nat \<Rightarrow> Builder" where
  "SetupWithManager env fuel = \<lparr>For = ''StatefulPod'',
     Watches = [(''Pod'', StatefulPodEvent_handle), (''PersistentVolumeClaim'', StatefulPodEvent_handle)],
     EventFilter = event_filter, MaxConcurrentReconciles = 3, Reconciler = Reconcile env fuel\<rparr>"

definition main_options :: "'s \<Rightarrow> Flags \<Rightarrow> 's Options" where
  "main_options scheme f = \<lparr>o_Scheme = scheme, SyncPeriod = seconds 5, MetricsBindAddress = metricsAddr f, Port = 9443,
     LeaderElection = enableLeaderElection f, LeaderElectionID = ''3118b9d6.iapetos.foundary-cloud.io''\<rparr>"

text \<open>
  The whole process: the manager that was started, if it came to that, and the exit status. The variable \<open>env\<close> holds what the library functions
  of the templates compute; its configuration is the one read from the file.
\<close>

definition main_process :: "('s, 'c, 'm) Runtime \<Rightarrow> Env \<Rightarrow> nat \<Rightarrow> string list \<Rightarrow> 'm option \<times> int" where
  "main_process rt env fuel args =
     (case initconfig_init rt of Inl err \<Rightarrow> (None, 1) | Inr conf \<Rightarrow>
     (case main_init rt of None \<Rightarrow> (None, 2) | Some scheme \<Rightarrow>
     (case flag_Parse rt args default_flags of None \<Rightarrow> (None, 2) | Some f \<Rightarrow>
     (case GetConfig rt (libFlags f) of Inl err \<Rightarrow> (None, 1) | Inr rest \<Rightarrow>
     (case NewManager rt rest (main_options scheme f) of Inl err \<Rightarrow> (None, 1) | Inr mgr \<Rightarrow>
     (case Complete rt (SetupWithManager (env\<lparr>cfg := conf\<rparr>) fuel) mgr of Inl err \<Rightarrow> (None, 1) | Inr mgr' \<Rightarrow>
     (Some mgr', if Start rt mgr' = None then 0 else 1)))))))"


section \<open>Settings and command lines\<close>

text \<open>
  The two settings and the ways to write them: with one dash or two, with the value joined by an equals sign or on its own, and a leader
  election that is wanted without a value.
\<close>

datatype setting = MetricsAddr string | Election bool

definition dashed :: "bool \<Rightarrow> string \<Rightarrow> string" where
  "dashed two name = (if two then ''--'' else ''-'') @ name"

fun written :: "bool \<times> bool \<times> setting \<Rightarrow> string list" where
  "written (two, joined, MetricsAddr a) =
     (if joined then [dashed two ''metrics-addr'' @ ''='' @ a] else [dashed two ''metrics-addr'', a])"
| "written (two, joined, Election b) =
     (if b \<and> \<not> joined then [dashed two ''enable-leader-election'']
      else [dashed two ''enable-leader-election'' @ ''='' @ (if b then ''true'' else ''false'')])"

fun set_to :: "setting \<Rightarrow> Flags \<Rightarrow> Flags" where
  "set_to (MetricsAddr a) f = f\<lparr>metricsAddr := a\<rparr>"
| "set_to (Election b) f = f\<lparr>enableLeaderElection := b\<rparr>"

definition apply_settings :: "(bool \<times> bool \<times> setting) list \<Rightarrow> Flags \<Rightarrow> Flags" where
  "apply_settings ss f = fold (\<lambda>(two, joined, s). set_to s) ss f"

text \<open>What ends the flags: nothing more, two dashes, or a word that is no flag.\<close>

definition no_flag :: "string list \<Rightarrow> bool" where
  "no_flag rest \<longleftrightarrow> (case rest of [] \<Rightarrow> True | s # ss \<Rightarrow> s = ''--'' \<or> length s < 2 \<or> hd s \<noteq> CHR ''-'')"

lemma split_value_plain: "CHR ''='' \<notin> set n \<Longrightarrow> split_value n = (n, None)"
  by (induction n) auto

lemma split_value_joined: "CHR ''='' \<notin> set n \<Longrightarrow> split_value (n @ ''='' @ v) = (n, Some v)"
  by (induction n) auto

lemma parse_one_flag:
  assumes "n \<noteq> []" "hd n \<noteq> CHR ''-''" "hd n \<noteq> CHR ''=''"
  shows "parse_one rt (dashed two n # rest) f =
    (let (name, value) = split_value n;
         took = (\<lambda>v args'. case flag_Set rt name v f of None \<Rightarrow> FlagError | Some f' \<Rightarrow> FlagSeen args' f')
     in case (flag_lookup rt name, value) of
          (None, _) \<Rightarrow> FlagError
        | (Some BoolFlag, None) \<Rightarrow> took ''true'' rest
        | (Some BoolFlag, Some v) \<Rightarrow> took v rest
        | (Some StringFlag, Some v) \<Rightarrow> took v rest
        | (Some StringFlag, None) \<Rightarrow> (case rest of [] \<Rightarrow> FlagError | v # rest' \<Rightarrow> took v rest'))"
  using assms by (cases n) (auto simp: parse_one_def dashed_def Let_def)

lemma parse_one_joined:
  assumes "n \<noteq> []" "hd n \<noteq> CHR ''-''" "CHR ''='' \<notin> set n" "flag_lookup rt n \<noteq> None"
  shows "parse_one rt ((dashed two n @ ''='' @ v) # rest) f =
    (case flag_Set rt n v f of None \<Rightarrow> FlagError | Some f' \<Rightarrow> FlagSeen rest f')"
proof -
  have "dashed two n @ ''='' @ v = dashed two (n @ ''='' @ v)" by (simp add: dashed_def)
  moreover have "hd n \<noteq> CHR ''=''" using assms(1,3) by (cases n) auto
  ultimately show ?thesis
    using assms(1,2,4) by (simp only:) (auto simp: parse_one_flag split_value_joined [OF assms(3), simplified] split: flag_kind.split)
qed

lemma parse_one_written: "parse_one rt (written (two, joined, s) @ rest) f = FlagSeen rest (set_to s f)"
proof (cases s)
  case (MetricsAddr a)
  then show ?thesis
    using parse_one_joined [of "''metrics-addr''" rt two a rest f]
    by (cases joined) (simp_all add: parse_one_flag split_value_plain flag_lookup_def flag_Set_def)
next
  case (Election b)
  then show ?thesis
    using parse_one_joined [of "''enable-leader-election''" rt two "if b then ''true'' else ''false''" rest f]
    by (cases "b \<and> \<not> joined") (auto simp: parse_one_flag split_value_plain flag_lookup_def flag_Set_def ParseBool_def)
qed

lemma flag_Parse_end: "no_flag rest \<Longrightarrow> flag_Parse rt rest f = Some f"
  by (subst flag_Parse.simps) (auto simp: no_flag_def parse_one_def split: list.splits)

lemma flag_Parse_written:
  assumes "no_flag rest"
  shows "flag_Parse rt (concat (map written ss) @ rest) f = Some (apply_settings ss f)"
proof (induction ss arbitrary: f)
  case Nil
  show ?case by (simp add: apply_settings_def flag_Parse_end [OF assms])
next
  case (Cons x ss)
  obtain two joined s where x: "x = (two, joined, s)" by (cases x)
  have "flag_Parse rt (concat (map written (x # ss)) @ rest) f =
      flag_Parse rt (written (two, joined, s) @ concat (map written ss) @ rest) f" by (simp add: x)
  also have "\<dots> = flag_Parse rt (concat (map written ss) @ rest) (set_to s f)"
    by (subst flag_Parse.simps) (simp only: parse_one_written flag_step.case)
  finally show ?case using Cons.IH [of "set_to s f"] by (simp add: x apply_settings_def)
qed


text \<open>A flag that nobody defined stops the process, whatever came before it.\<close>

lemma flag_Parse_undefined:
  assumes "nm \<noteq> []" "hd nm \<noteq> CHR ''-''" "CHR ''='' \<notin> set nm" "flag_lookup rt nm = None"
  shows "flag_Parse rt (concat (map written ss) @ dashed two nm # args2) f = None"
proof (induction ss arbitrary: f)
  case Nil
  have "hd nm \<noteq> CHR ''=''" using assms(1,3) by (cases nm) auto
  then have "parse_one rt (dashed two nm # args2) f = FlagError"
    by (simp add: parse_one_flag [OF assms(1,2)] split_value_plain [OF assms(3)] assms(4))
  then show ?case by (subst flag_Parse.simps) simp
next
  case (Cons x ss)
  obtain two' joined s where x: "x = (two', joined, s)" by (cases x)
  have "flag_Parse rt (concat (map written (x # ss)) @ dashed two nm # args2) f =
      flag_Parse rt (written (two', joined, s) @ concat (map written ss) @ dashed two nm # args2) f" by (simp add: x)
  also have "\<dots> = flag_Parse rt (concat (map written ss) @ dashed two nm # args2) (set_to s f)"
    by (subst flag_Parse.simps) (simp only: parse_one_written flag_step.case)
  finally show ?case using Cons.IH by simp
qed

section \<open>Properties\<close>

text \<open>The command line is read as it was written. Whatever flags the libraries have, a command line that writes any settings of the
  metrics address and the leader election, in any order and any of the accepted forms, with one dash or two, the value joined or on its own,
  is read back as these settings, a later one overriding an earlier; a word that is no flag, or two dashes, ends the flags. An address may
  itself begin with a dash or hold equals signs.\<close>

theorem flags_round_trip:
  assumes "no_flag rest"
  shows "flag_Parse rt (concat (map written ss) @ rest) f = Some (apply_settings ss f)"
  by (rule flag_Parse_written [OF assms])

text \<open>Libraries for the witnesses: a scheme is the list of what was added, a manager is its options and what it runs.\<close>

type_synonym demo_manager = "string list Options \<times> Builder option"

definition demo_runtime :: "(string list, unit, demo_manager) Runtime" where
  "demo_runtime = \<lparr>DecodeFile = (\<lambda>file c. Inr \<lparr>cfg_Node = \<lparr>node_Timeout = 30\<rparr>, cfg_Pod = \<lparr>pod_Timeout = 120, Ready = 120\<rparr>\<rparr>),
     NewScheme = [], clientgo_AddToScheme = (\<lambda>s. Inr (s @ [''core''])), Builder_AddToScheme = (\<lambda>b s. Inr (s @ sb_Types b)),
     lib_kind = (\<lambda>n. if n = ''kubeconfig'' then Some StringFlag else None), lib_accepts = (\<lambda>n v. True), GetConfig = (\<lambda>fs. Inr ()),
     NewManager = (\<lambda>c opts. Inr (opts, None)), Complete = (\<lambda>b m. Inr (fst m, Some b)), Start = (\<lambda>m. None)\<rparr>"

theorem flags_round_trip_witness:
  "flag_Parse demo_runtime [''--metrics-addr=:80'', ''-enable-leader-election'', ''-metrics-addr'', ''-x=1'', ''run''] default_flags =
    Some \<lparr>metricsAddr = ''-x=1'', enableLeaderElection = True, libFlags = []\<rparr>"
  using flags_round_trip [of "[''run'']" demo_runtime
      "[(True, True, MetricsAddr '':80''), (False, False, Election True), (False, False, MetricsAddr ''-x=1'')]" default_flags]
  by (simp add: no_flag_def dashed_def apply_settings_def default_flags_def)

lemma main_init_Some: "main_init rt = Some scheme \<longleftrightarrow> (\<exists>scheme0. clientgo_AddToScheme rt (NewScheme rt) = Inr scheme0 \<and>
    Builder_AddToScheme rt \<lparr>sb_GroupVersion = GroupVersion, sb_Types = [''StatefulPod'', ''StatefulPodList'']\<rparr> scheme0 = Inr scheme)"
  by (auto simp: main_init_def api_init_def SchemeBuilder_Register_def api_SchemeBuilder_def split: sum.split)

lemma main_process_started:
  "main_process rt env fuel args = (Some m, st) \<longleftrightarrow> (\<exists>conf scheme f rest mgr. initconfig_init rt = Inr conf \<and> main_init rt = Some scheme \<and>
     flag_Parse rt args default_flags = Some f \<and> GetConfig rt (libFlags f) = Inr rest \<and> NewManager rt rest (main_options scheme f) = Inr mgr \<and>
     Complete rt (SetupWithManager (env\<lparr>cfg := conf\<rparr>) fuel) mgr = Inr m \<and> st = (if Start rt m = None then 0 else 1))"
  by (auto simp: main_process_def split: sum.splits option.splits)

lemma main_process_status: "snd (main_process rt env fuel args) \<in> {0, 1, 2}"
  "fst (main_process rt env fuel args) = None \<Longrightarrow> snd (main_process rt env fuel args) \<noteq> 0"
  by (auto simp: main_process_def split: sum.splits option.splits)

lemma apply_settings_lib [simp]: "libFlags (apply_settings ss f) = libFlags f"
proof (induction ss arbitrary: f)
  case (Cons x ss)
  obtain two joined s where "x = (two, joined, s)" by (cases x)
  with Cons [of "set_to s f"] show ?case by (cases s) (simp_all add: apply_settings_def)
qed (simp add: apply_settings_def)

text \<open>C35: nothing runs that is not set up. With settings on the command line, the process starts a manager exactly if the configuration file
  was decoded, the Kubernetes types and the two types of the API group were registered, in this order, a configuration of the client was found,
  and the manager was made with that scheme, a cache resync every five seconds, port 9443 and the address and the leader election of
  the settings, and accepted a controller of three workers for StatefulPods that watches pods and claims through the event handlers and the event filter and
  runs \<open>Reconcile\<close> with the timeouts of that file. The process then ends with status 0 exactly if the manager stops without an
  error; a process that starts none never does, and one with an undefined flag starts none.\<close>

theorem process_start:
  assumes "no_flag rest" "f = apply_settings ss default_flags"
  shows "(main_process rt env fuel (concat (map written ss) @ rest) = (Some m, st) \<longleftrightarrow>
      (\<exists>conf scheme0 scheme client mgr. DecodeFile rt ''./config/node_lost_connection/config.toml'' Config_zero = Inr conf \<and>
         clientgo_AddToScheme rt (NewScheme rt) = Inr scheme0 \<and>
         Builder_AddToScheme rt \<lparr>sb_GroupVersion = GroupVersion, sb_Types = [''StatefulPod'', ''StatefulPodList'']\<rparr> scheme0 = Inr scheme \<and>
         GetConfig rt [] = Inr client \<and>
         NewManager rt client \<lparr>o_Scheme = scheme, SyncPeriod = 5000000000, MetricsBindAddress = metricsAddr f, Port = 9443,
           LeaderElection = enableLeaderElection f, LeaderElectionID = ''3118b9d6.iapetos.foundary-cloud.io''\<rparr> = Inr mgr \<and>
         Complete rt \<lparr>For = ''StatefulPod'',
           Watches = [(''Pod'', StatefulPodEvent_handle), (''PersistentVolumeClaim'', StatefulPodEvent_handle)],
           EventFilter = event_filter, MaxConcurrentReconciles = 3, Reconciler = Reconcile (env\<lparr>cfg := conf\<rparr>) fuel\<rparr> mgr = Inr m \<and>
         st = (if Start rt m = None then 0 else 1))) \<and>
    (fst (main_process rt env fuel args) = None \<longrightarrow> snd (main_process rt env fuel args) \<in> {1, 2}) \<and>
    (nm \<noteq> [] \<and> hd nm \<noteq> CHR ''-'' \<and> CHR ''='' \<notin> set nm \<and> flag_lookup rt nm = None \<longrightarrow>
      fst (main_process rt env fuel (concat (map written ss) @ dashed two nm # args2)) = None)"
proof (intro conjI impI, goal_cases)
  case 1
  have "seconds 5 = 5000000000" by (simp add: seconds_small)
  then show ?case
    unfolding main_process_started flag_Parse_written [OF assms(1)] main_init_Some assms(2) initconfig_init_def main_options_def
      SetupWithManager_def by (auto simp: default_flags_def)
next
  case 2
  then show ?case using main_process_status [of rt env fuel args] by blast
next
  case 3
  then have "flag_Parse rt (concat (map written ss) @ dashed two nm # args2) default_flags = None"
    by (intro flag_Parse_undefined) simp_all
  then show ?case by (auto simp: main_process_def split: sum.splits option.splits)
qed

theorem process_start_witness:
  "\<exists>m. main_process demo_runtime demo_env 2 [''--metrics-addr=:80'', ''-enable-leader-election''] = (Some m, 0) \<and>
    MetricsBindAddress (fst m) = '':80'' \<and> LeaderElection (fst m) \<and> o_Scheme (fst m) = [''core'', ''StatefulPod'', ''StatefulPodList'']"
proof -
  define conf where "conf = \<lparr>cfg_Node = \<lparr>node_Timeout = 30\<rparr>, cfg_Pod = \<lparr>pod_Timeout = 120, Ready = 120\<rparr>\<rparr>"
  define opts where "opts = \<lparr>o_Scheme = [''core'', ''StatefulPod'', ''StatefulPodList''], SyncPeriod = 5000000000, MetricsBindAddress = '':80'',
    Port = 9443, LeaderElection = True, LeaderElectionID = ''3118b9d6.iapetos.foundary-cloud.io''\<rparr>"
  let ?ss = "[(True, True, MetricsAddr '':80''), (False, False, Election True)]"
  have "main_process demo_runtime demo_env 2 (concat (map written ?ss) @ []) = (Some (opts, Some (SetupWithManager (demo_env\<lparr>cfg := conf\<rparr>) 2)), 0)"
    by (rule iffD2 [OF conjunct1 [OF process_start [OF _ refl]]])
      (simp_all add: no_flag_def demo_runtime_def apply_settings_def default_flags_def conf_def opts_def SetupWithManager_def)
  then show ?thesis by (intro exI) (auto simp: dashed_def opts_def)
qed

end
