(* ===== verification/UpdateLoop.thy ===== *)
theory UpdateLoop
  imports Cluster
begin

text \<open>
  The two \<open>goto\<close> loops: the update of a StatefulPod, which takes over the server's resource
  version and writes again, and the deletion of a claim in \<open>MonitorPodStatus\<close>. When they end,
  what they leave behind, and when they do not end.
\<close>

section \<open>Servers with optimistic concurrency\<close>

text \<open>
  What is stored after an update is accepted: the new version, or nothing when the update let an object go that is being deleted.
\<close>

definition written :: "ObjectMeta \<Rightarrow> StatefulPod \<Rightarrow> StatefulPod option" where
  "written old sp = (if let_go old (sp_Meta sp) then None else Some sp)"

lemma written_kept [simp]: "\<not> let_go old (sp_Meta sp) \<Longrightarrow> written old sp = Some sp"
  by (simp add: written_def)

text \<open>
  The documented behaviour of an update: NotFound for an object that is not there, a conflict for an
  old resource version, and otherwise the update is accepted; whether the object is being deleted is the server's to say.
\<close>

definition accepted :: "StatefulPod \<Rightarrow> StatefulPod \<Rightarrow> StatefulPod \<Rightarrow> bool" where
  "accepted cur sp sp' \<longleftrightarrow> Spec sp' = Spec sp \<and> Status sp' = Status sp \<and> sp_key sp' = sp_key sp \<and>
     Annotations (sp_Meta sp') = Annotations (sp_Meta sp) \<and> Finalizers (sp_Meta sp') = Finalizers (sp_Meta sp) \<and>
     DeletionTimestamp (sp_Meta sp') = DeletionTimestamp (sp_Meta cur)"

definition optimistic :: "(StatefulPod req \<Rightarrow> 'w \<Rightarrow> StatefulPod resp \<times> 'w) \<Rightarrow>
    ('w \<Rightarrow> NamespacedName \<Rightarrow> StatefulPod option) \<Rightarrow> bool" where
  "optimistic f V \<longleftrightarrow> reads f V \<and> (\<forall>sp w. case V w (sp_key sp) of
      None \<Rightarrow> f (Update sp) w = (Inl NotFound, w)
    | Some cur \<Rightarrow>
        if ResourceVersion (sp_Meta cur) = ResourceVersion (sp_Meta sp)
        then \<exists>sp' w'. f (Update sp) w = (Inr sp', w') \<and> V w' = (V w)(sp_key sp := written (sp_Meta cur) sp') \<and> accepted cur sp sp'
        else \<exists>e. e \<noteq> NotFound \<and> f (Update sp) w = (Inl e, w))"

lemma optimistic_reads: "optimistic f V \<Longrightarrow> reads f V"
  by (simp add: optimistic_def)

lemma optimistic_update:
  assumes "optimistic f V"
  shows "case V w (sp_key sp) of
      None \<Rightarrow> f (Update sp) w = (Inl NotFound, w)
    | Some cur \<Rightarrow>
        if ResourceVersion (sp_Meta cur) = ResourceVersion (sp_Meta sp)
        then \<exists>sp' w'. f (Update sp) w = (Inr sp', w') \<and> V w' = (V w)(sp_key sp := written (sp_Meta cur) sp') \<and> accepted cur sp sp'
        else \<exists>e. e \<noteq> NotFound \<and> f (Update sp) w = (Inl e, w)"
  using assms unfolding optimistic_def by blast

lemma optimistic_gone: "optimistic f V \<Longrightarrow> V w (sp_key sp) = None \<Longrightarrow> f (Update sp) w = (Inl NotFound, w)"
  using optimistic_update [of f V sp w] by simp

lemma optimistic_stale:
  assumes "optimistic f V" "V w (sp_key sp) = Some cur" "ResourceVersion (sp_Meta cur) \<noteq> ResourceVersion (sp_Meta sp)"
  obtains e where "e \<noteq> NotFound" "f (Update sp) w = (Inl e, w)"
  using optimistic_update [OF assms(1), of sp w] assms(2,3) by auto

lemma mem_optimistic [simp]: "optimistic (sp_srv mem_client) sps"
proof -
  have "case sps w (sp_key sp) of
      None \<Rightarrow> sp_srv mem_client (Update sp) w = (Inl NotFound, w)
    | Some cur \<Rightarrow>
        if ResourceVersion (sp_Meta cur) = ResourceVersion (sp_Meta sp)
        then \<exists>sp' w'. sp_srv mem_client (Update sp) w = (Inr sp', w') \<and>
          sps w' = (sps w)(sp_key sp := written (sp_Meta cur) sp') \<and> accepted cur sp sp'
        else \<exists>e. e \<noteq> NotFound \<and> sp_srv mem_client (Update sp) w = (Inl e, w)" for sp w
    by (simp add: mem_client_def serve_obj_def Let_def written_def accepted_def let_go_def split: option.splits)
  then show ?thesis unfolding optimistic_def using mem_reads(1) by blast
qed

section \<open>The update loop ends\<close>

lemma run_Update_current:
  assumes "optimistic (sp_srv cl) V" "V w (sp_key sp) = Some cur"
    "ResourceVersion (sp_Meta cur) = ResourceVersion (sp_Meta sp)"
  obtains sp' w' where "run cl (StatefulPodService_Update (Suc n) sp) w = (Done (Inr sp'), w')"
    "V w' = (V w)(sp_key sp := written (sp_Meta cur) sp')" "accepted cur sp sp'"
  using optimistic_update [OF assms(1), of sp w] assms(2,3) that by auto

lemma run_Update_write:
  assumes "optimistic (sp_srv cl) V" "V w (sp_key sp) = Some cur" "2 \<le> n"
  obtains sp' w' where "run cl (StatefulPodService_Update n sp) w = (Done (Inr sp'), w')"
    "V w' = (V w)(sp_key sp := written (sp_Meta cur) sp')" "accepted cur sp sp'"
proof -
  obtain m where n: "n = Suc (Suc m)" using assms(3) by (metis Suc_le_D numeral_2_eq_2 Suc_le_mono)
  show thesis
  proof (cases "ResourceVersion (sp_Meta cur) = ResourceVersion (sp_Meta sp)")
    case True
    show thesis by (rule run_Update_current [OF assms(1,2) True]) (use that n in blast)
  next
    case False
    let ?sp = "sp\<lparr>sp_Meta := (sp_Meta sp)\<lparr>ResourceVersion := ResourceVersion (sp_Meta cur)\<rparr>\<rparr>"
    have "V w (sp_key ?sp) = Some cur" "ResourceVersion (sp_Meta cur) = ResourceVersion (sp_Meta ?sp)" using assms(2) by simp_all
    then obtain sp' w' where u: "run cl (StatefulPodService_Update (Suc m) ?sp) w = (Done (Inr sp'), w')"
      "V w' = (V w)(sp_key ?sp := written (sp_Meta cur) sp')" "accepted cur ?sp sp'"
      by (rule run_Update_current [OF assms(1)])
    obtain e where "e \<noteq> NotFound" "sp_srv cl (Update sp) w = (Inl e, w)"
      by (rule optimistic_stale [OF assms(1,2) False])
    with assms(2) reads_Get [OF optimistic_reads [OF assms(1)]] u(1)
    have "run cl (StatefulPodService_Update n sp) w = (Done (Inr sp'), w')"
      by (simp add: n getNewResourceVersion_def del: StatefulPodService_Update.simps(2)
          add: StatefulPodService_Update.simps(2) [of "Suc m" sp])
    with u(2,3) show thesis by (intro that) (simp_all add: accepted_def)
  qed
qed

text \<open>The update of an object that is not let go.\<close>

lemma run_Update_two:
  assumes "optimistic (sp_srv cl) V" "V w (sp_key sp) = Some cur" "\<not> let_go (sp_Meta cur) (sp_Meta sp)"
  shows "\<exists>sp' w'. run cl (StatefulPodService_Update (Suc (Suc n)) sp) w = (Done (Inr sp'), w') \<and>
    V w' = (V w)(sp_key sp \<mapsto> sp') \<and> Spec sp' = Spec sp \<and> Status sp' = Status sp \<and> sp_key sp' = sp_key sp \<and>
    Annotations (sp_Meta sp') = Annotations (sp_Meta sp) \<and> Finalizers (sp_Meta sp') = Finalizers (sp_Meta sp) \<and>
    DeletionTimestamp (sp_Meta sp') = DeletionTimestamp (sp_Meta cur)"
proof -
  have n: "2 \<le> Suc (Suc n)" by simp
  obtain sp' w' where u: "run cl (StatefulPodService_Update (Suc (Suc n)) sp) w = (Done (Inr sp'), w')"
    "V w' = (V w)(sp_key sp := written (sp_Meta cur) sp')" "accepted cur sp sp'"
    by (rule run_Update_write [OF assms(1,2) n])
  have "\<not> let_go (sp_Meta cur) (sp_Meta sp')" using assms(3) u(3) by (simp add: accepted_def let_go_def)
  with u show ?thesis by (intro exI [of _ sp'] exI [of _ w']) (simp add: accepted_def)
qed

text \<open>C23: the update of a StatefulPod overwrites. Take a server that accepts every update under the current resource version and answers a
  stale one with a conflict, and a StatefulPod that is stored there and that nobody else writes during the call. The call ends after at most two rounds (fuel 2 is
  enough), without an error, and the version it leaves has the spec, status, annotations and finalizers of the caller's
  copy - also when that copy is older than the stored version \<open>cur\<close>, whose spec and status (a user's new size, another worker's status
  entry) are then lost. That version is stored, unless \<open>cur\<close> was being deleted and the copy has none of its finalizers left: then the
  server removes the object. The mark of the deletion is kept.\<close>

theorem update_overwrites:
  assumes "optimistic (sp_srv cl) V" "V w (sp_key sp) = Some cur" "2 \<le> n"
  shows "\<exists>sp' w'. run cl (StatefulPodService_Update n sp) w = (Done (Inr sp'), w') \<and>
    V w' = (V w)(sp_key sp := (if \<not> IsZero (DeletionTimestamp (sp_Meta cur)) \<and> Finalizers (sp_Meta cur) \<noteq> [] \<and>
      Finalizers (sp_Meta sp) = [] then None else Some sp')) \<and>
    Spec sp' = Spec sp \<and> Status sp' = Status sp \<and> Annotations (sp_Meta sp') = Annotations (sp_Meta sp) \<and>
    Finalizers (sp_Meta sp') = Finalizers (sp_Meta sp) \<and> DeletionTimestamp (sp_Meta sp') = DeletionTimestamp (sp_Meta cur)"
proof -
  obtain sp' w' where "run cl (StatefulPodService_Update n sp) w = (Done (Inr sp'), w')"
    "V w' = (V w)(sp_key sp := written (sp_Meta cur) sp')" "accepted cur sp sp'"
    by (rule run_Update_write [OF assms])
  then show ?thesis by (intro exI [of _ sp'] exI [of _ w']) (simp add: accepted_def written_def let_go_def)
qed

text \<open>The concrete case: a worker that read size 1 undoes the user's change of the size to 3.\<close>

theorem update_overwrites_witness:
  "\<exists>sp' w'. run mem_client (StatefulPodService_Update 2 (demo_sp 1 []))
      (empty_world\<lparr>sps := (\<lambda>_. None)(NN ''ns'' ''db'' \<mapsto> (demo_sp 3 [])\<lparr>sp_Meta := demo_meta\<lparr>ResourceVersion := ''8''\<rparr>\<rparr>)\<rparr>)
      = (Done (Inr sp'), w') \<and> sps w' (NN ''ns'' ''db'') = Some sp' \<and> Size (Spec sp') = Some (int32_of 1)"
proof -
  define w0 where "w0 = empty_world\<lparr>sps := (\<lambda>_. None)(NN ''ns'' ''db'' \<mapsto>
    (demo_sp 3 [])\<lparr>sp_Meta := demo_meta\<lparr>ResourceVersion := ''8''\<rparr>\<rparr>)\<rparr>"
  define sp0 where "sp0 = demo_sp 1 []"
  have key: "sp_key sp0 = NN ''ns'' ''db''" and size: "Size (Spec sp0) = Some (int32_of 1)"
    by (simp_all add: sp0_def demo_defs)
  have cur: "sps w0 (sp_key sp0) = Some ((demo_sp 3 [])\<lparr>sp_Meta := demo_meta\<lparr>ResourceVersion := ''8''\<rparr>\<rparr>)"
    unfolding key by (simp add: w0_def)
  have "\<exists>sp' w'. run mem_client (StatefulPodService_Update 2 sp0) w0 = (Done (Inr sp'), w') \<and>
      sps w' = (sps w0)(sp_key sp0 \<mapsto> sp') \<and> Spec sp' = Spec sp0"
    using update_overwrites [OF mem_optimistic cur order_refl] by (auto simp: demo_defs)
  then obtain sp' w' where res: "run mem_client (StatefulPodService_Update 2 sp0) w0 = (Done (Inr sp'), w')"
    "sps w' = (sps w0)(sp_key sp0 \<mapsto> sp')" "Spec sp' = Spec sp0"
    by blast
  then have "sps w' (NN ''ns'' ''db'') = Some sp'" unfolding key by simp
  with res(1,3) size show ?thesis unfolding w0_def sp0_def by metis
qed

text \<open>A StatefulPod that was deleted meanwhile is reported as written: the answer NotFound ends the loop with the
  caller's copy and no error, and nothing is stored.\<close>

theorem update_of_deleted:
  assumes "optimistic (sp_srv cl) V" "V w (sp_key sp) = None" "1 \<le> n"
  shows "run cl (StatefulPodService_Update n sp) w = (Done (Inr sp), w)"
  using assms(3) optimistic_gone [OF assms(1,2)] by (cases n) simp_all

theorem update_of_deleted_witness:
  "run mem_client (StatefulPodService_Update 1 (demo_sp 1 [])) empty_world = (Done (Inr (demo_sp 1 [])), empty_world)"
  by (rule update_of_deleted [where V = sps]) (simp_all add: empty_world_def)

section \<open>The loops that do not end\<close>

text \<open>C26: when the server refuses every update of the object for another reason than NotFound (the object is invalid, the
  program has no permission), the update loop never ends, whatever else happens: no number of rounds is
  enough, so the worker is lost.\<close>

theorem update_spins:
  assumes "\<And>x w. Name (sp_Meta x) = Name (sp_Meta sp) \<Longrightarrow> \<exists>e w'. sp_srv cl (Update x) w = (Inl e, w') \<and> e \<noteq> NotFound"
  shows "fst (run cl (StatefulPodService_Update n sp) w) = NoFuel"
  using assms
proof (induction n arbitrary: sp w)
  case (Suc n)
  obtain e w' where upd: "sp_srv cl (Update sp) w = (Inl e, w')" "e \<noteq> NotFound" using Suc.prems by blast
  obtain r w'' where get: "sp_srv cl (Get (sp_key sp)) w' = (r, w'')" by fastforce
  obtain sp' where new: "run cl (getNewResourceVersion sp) w' = (Done sp', w'')"
    "Name (sp_Meta sp') = Name (sp_Meta sp)"
    using get by (cases r) (auto simp: getNewResourceVersion_def)
  have "fst (run cl (StatefulPodService_Update n sp') w'') = NoFuel"
    by (rule Suc.IH, rule Suc.prems) (simp add: new(2))
  with upd new show ?case by simp
qed simp

theorem update_spins_witness:
  "fst (run (mem_client\<lparr>sp_srv := (\<lambda>r w. (Inl (ApiError ''Invalid''), w))\<rparr>)
     (StatefulPodService_Update 1000 (demo_sp 1 [])) empty_world) = NoFuel"
  by (rule update_spins) simp

text \<open>The deletion loop of a claim whose pod timed out never ends while the server refuses the deletion with
  another error than NotFound: no number of rounds is enough.\<close>

theorem deletePVC_spins:
  assumes "\<And>w. \<exists>e w'. pvc_srv cl (Delete pvc []) w = (Inl e, w') \<and> e \<noteq> NotFound"
  shows "fst (run cl (PodCtrl_deletePVC_loop n pvc) w) = NoFuel"
proof (induction n arbitrary: w)
  case (Suc n)
  obtain e w' where "pvc_srv cl (Delete pvc []) w = (Inl e, w')" "e \<noteq> NotFound" using assms by blast
  with Suc.IH [of w'] show ?case by (simp add: PVCService_Delete_def)
qed simp

theorem deletePVC_spins_witness:
  "fst (run (mem_client\<lparr>pvc_srv := (\<lambda>r w. (Inl (ApiError ''Forbidden''), w))\<rparr>)
     (PodCtrl_deletePVC_loop 1000 (demo_pvc ''data-db-0'' ''0'' ''Pending'')) empty_world) = NoFuel"
  by (rule deletePVC_spins) simp

end
