(* ===== verification/Templates.thy ===== *)
theory Templates
  imports Cluster
begin

text \<open>
  The names of the children, the templates they are created from, and the way back from an event of
  a child to its StatefulPod and ordinal.
\<close>

section \<open>Names\<close>

lemma append_dash_digits:
  assumes "xs @ ''-'' @ ds = ys @ ''-'' @ es" "CHR ''-'' \<notin> set ds" "CHR ''-'' \<notin> set es"
  shows "xs = ys \<and> ds = es"
proof -
  have split: "takeWhile (\<lambda>c. c \<noteq> CHR ''-'') (rev (zs @ ''-'' @ fs)) = rev fs"
    if "CHR ''-'' \<notin> set fs" for zs fs :: string
    using that by (auto simp: takeWhile_append)
  have "rev ds = rev es" unfolding split [OF assms(2), of xs, symmetric] assms(1) by (rule split [OF assms(3)])
  then have eq: "ds = es" by simp
  with assms(1) show ?thesis by simp
qed

lemma Itoa_no_dash: "0 \<le> i \<Longrightarrow> CHR ''-'' \<notin> set (Itoa i)"
  by (simp add: Itoa_def nat_Itoa_no_sign)

text \<open>Pod names are unique: two StatefulPods of a namespace and two ordinals have the same pod name only if
  they are the same StatefulPod name and the same ordinal.\<close>

theorem pod_names_injective:
  assumes "PodService_GetName a i = PodService_GetName b j" "0 \<le> i" "0 \<le> j"
  shows "Name (sp_Meta a) = Name (sp_Meta b) \<and> i = j"
proof -
  have "Name (sp_Meta a) = Name (sp_Meta b) \<and> Itoa i = Itoa j"
    by (rule append_dash_digits) (use assms in \<open>simp_all add: PodService_GetName_def Itoa_no_dash\<close>)
  then show ?thesis using Itoa_inj by blast
qed

theorem pod_names_injective_witness:
  "Name (sp_Meta (demo_sp 1 [])) = Name (sp_Meta (demo_sp 2 [])) \<and> (12 :: int) = 12"
  by (rule pod_names_injective) (simp_all add: PodService_GetName_def demo_sp_def)

text \<open>C39: when claim names collide: the claim name of the first volume (\<open>data\<close> if it is empty), the name of the
  StatefulPod and the ordinal are joined by dashes. Two ordinals of one StatefulPod never share a claim name, but two StatefulPods of one
  namespace share the claim of every ordinal as soon as their joined claim and object names are the same text: \<open>db\<close>
  with claim \<open>data-a\<close> and \<open>a-db\<close> with claim \<open>data\<close>.\<close>

theorem claim_names_collide:
  assumes "Volumes (PodTemplate (Spec a)) = v # vs" "PersistentVolumeClaim v = Some src"
    "Volumes (PodTemplate (Spec b)) = u # us" "PersistentVolumeClaim u = Some src'" "0 \<le> i" "0 \<le> j"
  shows "(\<exists>nm a' b'. SetPVCName a i = Ret (nm, a') \<and> SetPVCName b j = Ret (nm, b')) \<longleftrightarrow> i = j \<and>
    (if ClaimName src = '''' then ''data'' else ClaimName src) @ ''-'' @ Name (sp_Meta a) =
    (if ClaimName src' = '''' then ''data'' else ClaimName src') @ ''-'' @ Name (sp_Meta b)"
proof -
  define c where "c = (if ClaimName src = '''' then ''data'' else ClaimName src) @ ''-'' @ Name (sp_Meta a)"
  define d where "d = (if ClaimName src' = '''' then ''data'' else ClaimName src') @ ''-'' @ Name (sp_Meta b)"
  obtain a' where a: "SetPVCName a i = Ret (c @ ''-'' @ Itoa i, a')"
    using assms(1,2) by (simp add: SetPVCName_def go_index_def Let_def c_def)
  obtain b' where b: "SetPVCName b j = Ret (d @ ''-'' @ Itoa j, b')"
    using assms(3,4) by (simp add: SetPVCName_def go_index_def Let_def d_def)
  have "c @ ''-'' @ Itoa i = d @ ''-'' @ Itoa j \<longleftrightarrow> i = j \<and> c = d"
    using append_dash_digits [of c "Itoa i" d "Itoa j"] Itoa_no_dash [OF assms(5)] Itoa_no_dash [OF assms(6)]
      Itoa_inj [of i j] by blast
  then show ?thesis unfolding a b c_def [symmetric] d_def [symmetric] by (metis prog.inject(1) prod.inject)
qed

theorem claim_names_collide_witness:
  "\<exists>nm a' b'. SetPVCName ((demo_sp 1 [])\<lparr>Spec := (Spec (demo_sp 1 []))\<lparr>PodTemplate := demo_template\<lparr>Volumes :=
      [\<lparr>v_Name = ''v'', PersistentVolumeClaim = Some \<lparr>ClaimName = ''data-a'', cs_ReadOnly = False\<rparr>, v_rest = ''''\<rparr>]\<rparr>\<rparr>\<rparr>) 3
      = Ret (nm, a') \<and>
    SetPVCName ((demo_sp 1 [])\<lparr>sp_Meta := demo_meta\<lparr>Name := ''a-db''\<rparr>\<rparr>) 3 = Ret (nm, b')"
  by (subst claim_names_collide [where i = 3 and j = 3 and src = "\<lparr>ClaimName = ''data-a'', cs_ReadOnly = False\<rparr>"
      and src' = "\<lparr>ClaimName = ''data'', cs_ReadOnly = False\<rparr>"]) (simp_all add: demo_sp_def demo_template_def demo_meta_def, simp_all)

section \<open>The pod template\<close>

text \<open>The claim name of an ordinal, as the StatefulPod's first volume determines it.\<close>

definition claim_name :: "StatefulPod \<Rightarrow> int \<Rightarrow> string" where
  "claim_name sp i = (case Volumes (PodTemplate (Spec sp)) of [] \<Rightarrow> ''''
    | v # vs \<Rightarrow> (case PersistentVolumeClaim v of None \<Rightarrow> ''''
      | Some src \<Rightarrow> (if ClaimName src = '''' then ''data'' else ClaimName src) @ ''-'' @ Name (sp_Meta sp) @ ''-'' @ Itoa i))"

lemma SetPVCName_claim_name:
  assumes "claim_volume (Spec sp)"
  obtains sp' where "SetPVCName sp i = Ret (claim_name sp i, sp')" "sp_Meta sp' = sp_Meta sp" "Status sp' = Status sp"
    "PVCTemplate (Spec sp') = PVCTemplate (Spec sp)" "PVNames (Spec sp') = PVNames (Spec sp)"
    "claim_name sp' = claim_name sp" "claim_volume (Spec sp')"
proof -
  obtain v vs src where "Volumes (PodTemplate (Spec sp)) = v # vs" "PersistentVolumeClaim v = Some src"
    using assms by (auto simp: claim_volume_def split: list.splits)
  then have "\<exists>sp'. SetPVCName sp i = Ret (claim_name sp i, sp') \<and> sp_Meta sp' = sp_Meta sp \<and> Status sp' = Status sp \<and>
      PVCTemplate (Spec sp') = PVCTemplate (Spec sp) \<and> PVNames (Spec sp') = PVNames (Spec sp) \<and>
      claim_name sp' = claim_name sp \<and> claim_volume (Spec sp')"
    by (auto simp: SetPVCName_def claim_volume_def claim_name_def go_index_def Let_def fun_eq_iff)
  then show thesis using that by blast
qed

text \<open>The claim part: the first volume gets the ordinal's claim, the StatefulPod the default claim name.\<close>

lemma setPvc_claim:
  assumes "PVCTemplate (Spec sp) \<noteq> None" "Volumes (PodTemplate (Spec sp)) = v # vs" "PersistentVolumeClaim v = Some src"
    "Volumes (pod_Spec pod) = v # vs"
  shows "\<exists>sp'. PodService_setPvc sp pod index = Ret (pod\<lparr>pod_Spec := (pod_Spec pod)\<lparr>Volumes :=
      v\<lparr>PersistentVolumeClaim := Some (src\<lparr>ClaimName :=
        (if ClaimName src = '''' then ''data'' else ClaimName src) @ ''-'' @ Name (sp_Meta sp) @ ''-'' @ Itoa index\<rparr>)\<rparr> # vs\<rparr>\<rparr>, sp') \<and>
    sp_Meta sp' = sp_Meta sp \<and> Status sp' = Status sp \<and> ServiceTemplate (Spec sp') = ServiceTemplate (Spec sp) \<and>
    Selector (Spec sp') = Selector (Spec sp) \<and> PVCTemplate (Spec sp') = PVCTemplate (Spec sp) \<and>
    PVNames (Spec sp') = PVNames (Spec sp) \<and> claim_name sp' = claim_name sp"
  using assms by (auto simp: PodService_setPvc_def SetPVCName_def claim_name_def go_index_def Let_def fun_eq_iff)

lemma setLabels_labels:
  "Labels (pod_Meta (PodService_setLabels sp pod)) = Some (case Selector (Spec sp) of
      None \<Rightarrow> (case ServiceTemplate (Spec sp) of None \<Rightarrow> [] | Some t \<Rightarrow> copy_absent (svc_Selector t) [])
    | Some s \<Rightarrow> copy_absent (MatchLabels s) (case ServiceTemplate (Spec sp) of None \<Rightarrow> [] | Some t \<Rightarrow> copy_absent (svc_Selector t) []))"
  by (auto simp: PodService_setLabels_def split: option.split)

lemma setLabels_others [simp]:
  "Name (pod_Meta (PodService_setLabels sp pod)) = Name (pod_Meta pod)"
  "Namespace (pod_Meta (PodService_setLabels sp pod)) = Namespace (pod_Meta pod)"
  "Annotations (pod_Meta (PodService_setLabels sp pod)) = Annotations (pod_Meta pod)"
  "OwnerReferences (pod_Meta (PodService_setLabels sp pod)) = OwnerReferences (pod_Meta pod)"
  "Volumes (pod_Spec (PodService_setLabels sp pod)) = Volumes (pod_Spec pod)"
  "Hostname (pod_Spec (PodService_setLabels sp pod)) = Hostname (pod_Spec pod)"
  by (auto simp: PodService_setLabels_def split: option.split)

abbreviation own_annotations :: "StatefulPod \<Rightarrow> int \<Rightarrow> gomap" where
  "own_annotations sp index \<equiv> AList.update Index (Itoa index) (AList.update ParentNmae (Name (sp_Meta sp))
     (AList.update GroupVersion_String ''true'' (case Annotations (sp_Meta sp) of None \<Rightarrow> [] | Some m \<Rightarrow> m)))"

text \<open>What the pod of an ordinal promises, independently of how the template is filled in.\<close>

definition pod_spec :: "Env \<Rightarrow> StatefulPod \<Rightarrow> string \<Rightarrow> int \<Rightarrow> Pod \<Rightarrow> bool" where
  "pod_spec env sp name index pod \<longleftrightarrow>
     Name (pod_Meta pod) = name \<and> Namespace (pod_Meta pod) = Namespace (sp_Meta sp) \<and>
     Hostname (pod_Spec pod) = name \<and>
     gomap_get (Annotations (pod_Meta pod)) = (case Annotations (sp_Meta sp) of None \<Rightarrow> Map.empty | Some m \<Rightarrow> map_of m)
       (GroupVersion_String \<mapsto> ''true'', ParentNmae \<mapsto> Name (sp_Meta sp), Index \<mapsto> Itoa index) \<and>
     gomap_get (Labels (pod_Meta pod)) =
       (case Selector (Spec sp) of None \<Rightarrow> Map.empty | Some s \<Rightarrow> map_of (MatchLabels s)) ++
       (case ServiceTemplate (Spec sp) of None \<Rightarrow> Map.empty | Some t \<Rightarrow> map_of (svc_Selector t))"

lemma setLabels_gomap:
  assumes "Selector (Spec sp2) = Selector (Spec sp)" "ServiceTemplate (Spec sp2) = ServiceTemplate (Spec sp)"
  shows "gomap_get (Labels (pod_Meta (PodService_setLabels sp2 pod))) =
      (case Selector (Spec sp) of None \<Rightarrow> Map.empty | Some s \<Rightarrow> map_of (MatchLabels s)) ++
      (case ServiceTemplate (Spec sp) of None \<Rightarrow> Map.empty | Some t \<Rightarrow> map_of (svc_Selector t))"
  by (rule ext) (simp add: setLabels_labels assms map_of_copy_absent split: option.split)

lemma addAnnotations_shape:
  obtains pod' sp' where "PodService_addAnnotations sp pod index = (pod', sp')"
    "pod_Spec pod' = pod_Spec pod" "Name (pod_Meta pod') = Name (pod_Meta pod)"
    "Namespace (pod_Meta pod') = Namespace (pod_Meta pod)"
    "Annotations (pod_Meta pod') = Some (own_annotations sp index)" "Spec sp' = Spec sp" "Status sp' = Status sp"
    "sp_key sp' = sp_key sp"
    "Annotations (sp_Meta sp') = (if Annotations (sp_Meta sp) = None then None else Some (own_annotations sp index))"
  by (rule that [OF prod.collapse [symmetric]]) (simp_all add: PodService_addAnnotations_def Let_def)

lemma CreateTemplate_shape:
  assumes "PVCTemplate (Spec sp) \<noteq> None \<Longrightarrow> claim_volume (Spec sp)"
  obtains pod sp' where "PodService_CreateTemplate env sp name index = Ret (pod, sp')" "pod_spec env sp name index pod"
    "Annotations (sp_Meta sp') = (if Annotations (sp_Meta sp) = None then None else Some (own_annotations sp index))"
    "Status sp' = Status sp" "sp_key sp' = sp_key sp"
    "PVCTemplate (Spec sp') = PVCTemplate (Spec sp)" "PVNames (Spec sp') = PVNames (Spec sp)" "claim_name sp' = claim_name sp"
proof -
  define pod1 where "pod1 = \<lparr>pod_TypeMeta = \<lparr>tm_Kind = ''Pod'', tm_APIVersion = ''v1''\<rparr>,
      pod_Meta = ObjectMeta_zero\<lparr>Name := name, Namespace := Namespace (sp_Meta sp),
        OwnerReferences := [NewControllerRef env sp StatefulPod_GVK]\<rparr>,
      pod_Spec = (PodTemplate (Spec sp))\<lparr>Hostname := name\<rparr>, pod_Phase = '''', pod_Conditions = []\<rparr>"
  obtain pod2 sp1 where ann: "PodService_addAnnotations sp pod1 index = (pod2, sp1)"
    and pod2: "pod_Spec pod2 = pod_Spec pod1" "Name (pod_Meta pod2) = Name (pod_Meta pod1)"
    "Namespace (pod_Meta pod2) = Namespace (pod_Meta pod1)"
    "Annotations (pod_Meta pod2) = Some (own_annotations sp index)"
    and sp1: "Spec sp1 = Spec sp" "Status sp1 = Status sp" "sp_key sp1 = sp_key sp"
    "Annotations (sp_Meta sp1) = (if Annotations (sp_Meta sp) = None then None else Some (own_annotations sp index))"
    by (rule addAnnotations_shape)
  have run: "PodService_CreateTemplate env sp name index =
      bnd (PodService_setPvc sp1 pod2 index) (\<lambda>(pod3, sp2). Ret (PodService_setLabels sp2 pod3, sp2))"
    using ann by (simp add: PodService_CreateTemplate_def Let_def pod1_def)
  have spec: "pod_spec env sp name index (PodService_setLabels sp2 pod3)"
    if "Selector (Spec sp2) = Selector (Spec sp)" "ServiceTemplate (Spec sp2) = ServiceTemplate (Spec sp)"
      "pod_Meta pod3 = pod_Meta pod2" "Hostname (pod_Spec pod3) = Hostname (pod_Spec pod2)" for sp2 pod3
    unfolding pod_spec_def
    by (simp add: setLabels_gomap [OF that(1,2)] that pod2 pod1_def update_conv' fun_eq_iff split: option.split)
  have nm: "claim_name sp1 = claim_name sp" using sp1 by (auto simp: claim_name_def fun_eq_iff split: list.split option.split)
  show thesis
  proof (cases "PVCTemplate (Spec sp) = None")
    case True
    then have "PodService_setPvc sp1 pod2 index = Ret (pod2, sp1)" using sp1(1) by (simp add: PodService_setPvc_def)
    then have "PodService_CreateTemplate env sp name index = Ret (PodService_setLabels sp1 pod2, sp1)" using run by simp
    moreover have "pod_spec env sp name index (PodService_setLabels sp1 pod2)" by (rule spec) (simp_all add: sp1)
    ultimately show thesis using sp1 nm by (intro that [of "PodService_setLabels sp1 pod2" sp1]) simp_all
  next
    case False
    then obtain v vs src where v: "Volumes (PodTemplate (Spec sp)) = v # vs" "PersistentVolumeClaim v = Some src"
      using assms by (auto simp: claim_volume_def split: list.splits)
    obtain pod3 sp2 where pvc: "PodService_setPvc sp1 pod2 index = Ret (pod3, sp2)" "pod_Meta pod3 = pod_Meta pod2"
      "Hostname (pod_Spec pod3) = Hostname (pod_Spec pod2)"
      "sp_Meta sp2 = sp_Meta sp1" "Status sp2 = Status sp1" "ServiceTemplate (Spec sp2) = ServiceTemplate (Spec sp)"
      "Selector (Spec sp2) = Selector (Spec sp)" "PVCTemplate (Spec sp2) = PVCTemplate (Spec sp)"
      "PVNames (Spec sp2) = PVNames (Spec sp)" "claim_name sp2 = claim_name sp"
      using nm setPvc_claim [of sp1 v vs src pod2 index] False v sp1(1) pod2(1) by (auto simp: pod1_def)
    then have "PodService_CreateTemplate env sp name index = Ret (PodService_setLabels sp2 pod3, sp2)" using run by simp
    moreover have "pod_spec env sp name index (PodService_setLabels sp2 pod3)" by (rule spec) (simp_all add: pvc)
    ultimately show thesis using sp1 pvc by (intro that [of "PodService_setLabels sp2 pod3" sp2]) simp_all
  qed
qed

text \<open>C32: the template of a pod with a complete spec does not panic. The pod has the ordinal's name as its name and
  hostname, lies in the StatefulPod's namespace, carries the marker, the parent and the ordinal over
  whatever annotations the StatefulPod has, and its labels are those of the
  service selector first and, for keys the service does not set, those of the StatefulPod's own
  selector. A StatefulPod with a (non-nil) annotation map gets the pod's three annotations (marker, parent and ordinal) too, and keeps
  its others: the two share the map. (With a claim template, the pod template has a claim volume first.)\<close>

theorem pod_template:
  assumes "PVCTemplate (Spec sp) \<noteq> None \<Longrightarrow> claim_volume (Spec sp)"
  shows "\<exists>pod sp'. PodService_CreateTemplate env sp name index = Ret (pod, sp') \<and> pod_spec env sp name index pod \<and>
    (Annotations (sp_Meta sp) = None \<longrightarrow> Annotations (sp_Meta sp') = None) \<and>
    (Annotations (sp_Meta sp) \<noteq> None \<longrightarrow>
      gomap_get (Annotations (sp_Meta sp')) = (gomap_get (Annotations (sp_Meta sp)))
        (GroupVersion_String \<mapsto> ''true'', ''parentName'' \<mapsto> Name (sp_Meta sp), ''index'' \<mapsto> Itoa index) \<and>
      gomap_get (Annotations (sp_Meta sp')) = gomap_get (Annotations (pod_Meta pod)))"
proof (rule CreateTemplate_shape [OF assms, of env name index])
  fix pod sp'
  assume "PodService_CreateTemplate env sp name index = Ret (pod, sp')" "pod_spec env sp name index pod"
    "Annotations (sp_Meta sp') = (if Annotations (sp_Meta sp) = None then None else Some (own_annotations sp index))"
  then show ?thesis by (intro exI [of _ pod] exI [of _ sp'] conjI) (auto simp: pod_spec_def update_conv' fun_eq_iff)
qed

theorem pod_template_witness:
  "\<exists>pod sp'. PodService_CreateTemplate demo_env (demo_sp_claims 2 []) ''db-1'' 1 = Ret (pod, sp') \<and>
    pod_spec demo_env (demo_sp_claims 2 []) ''db-1'' 1 pod"
  using pod_template [of "demo_sp_claims 2 []" demo_env "''db-1''" 1]
  by (auto simp: claim_volume_def demo_defs Let_def)

section \<open>From an event back to the ordinal\<close>

lemma pod_spec_event:
  assumes "pod_spec env sp name index pod"
  shows "enqueue_owned (EvPod pod) = [NN (Namespace (sp_Meta sp)) name]"
    "gomap_val (Annotations (pod_Meta pod)) ParentNmae = Name (sp_Meta sp)"
    "pod_index pod = StringToInt (Itoa index)"
  using assms by (simp_all add: pod_spec_def enqueue_owned_def gomap_val_def pod_index_def)

lemma StringToInt_Itoa: "- (2 ^ 63) \<le> i \<Longrightarrow> i < 2 ^ 63 \<Longrightarrow> StringToInt (Itoa i) = i"
  by (simp add: StringToInt_def Atoi_Itoa)

text \<open>C33: an event of a pod made from the template leads back to its origin: the handler enqueues exactly the
  pod's own key, and the parent and the ordinal that \<open>MonitorPodStatus\<close> reads from the annotations are the
  StatefulPod's name and the ordinal the pod was created for (printed and parsed again), for every ordinal a Go int can hold.\<close>

theorem pod_event_round_trip:
  assumes "PodService_CreateTemplate env sp name index = Ret (pod, sp')"
    "PVCTemplate (Spec sp) \<noteq> None \<Longrightarrow> claim_volume (Spec sp)" "- (2 ^ 63) \<le> index" "index < 2 ^ 63"
  shows "StatefulPodEvent_Create \<lparr>ev_Meta = Some m, ev_Object = EvPod pod\<rparr> = [NN (Namespace (sp_Meta sp)) name] \<and>
    StatefulPodEvent_Delete \<lparr>ev_Meta = Some m, ev_Object = EvPod pod\<rparr> = [NN (Namespace (sp_Meta sp)) name] \<and>
    StatefulPodEvent_Update \<lparr>ev_MetaNew = Some m, ev_ObjectOld = EvPod old, ev_ObjectNew = EvPod pod\<rparr> =
      [NN (Namespace (sp_Meta sp)) name] \<and>
    gomap_val (Annotations (pod_Meta pod)) ParentNmae = Name (sp_Meta sp) \<and> pod_index pod = index"
proof (rule CreateTemplate_shape [OF assms(2), of env name index])
  fix pod2 sp2
  assume "PodService_CreateTemplate env sp name index = Ret (pod2, sp2)" "pod_spec env sp name index pod2"
  with assms(1) have "pod_spec env sp name index pod" by simp
  from pod_spec_event [OF this] show ?thesis
    by (simp add: StatefulPodEvent_Create_def StatefulPodEvent_Delete_def StatefulPodEvent_Update_def
        StringToInt_Itoa [OF assms(3,4)] del: ParentNmae_def)
qed

theorem pod_event_round_trip_witness:
  "\<exists>pod. StatefulPodEvent_Create \<lparr>ev_Meta = Some demo_meta, ev_Object = EvPod pod\<rparr> = [NN ''ns'' ''db-12''] \<and>
    pod_index pod = 12"
proof -
  obtain pod sp' where t: "PodService_CreateTemplate demo_env (demo_sp 20 []) ''db-12'' 12 = Ret (pod, sp')"
    by (rule CreateTemplate_shape [of "demo_sp 20 []" demo_env "''db-12''" 12]) (simp_all add: demo_defs)
  have "Namespace (sp_Meta (demo_sp 20 [])) = ''ns''" by (simp add: demo_defs)
  with pod_event_round_trip [OF t, of demo_meta "demo_pod ''db-12'' ''12'' ''''"] show ?thesis
    by (intro exI [of _ pod]) (simp add: demo_defs)
qed

text \<open>The claim of an ordinal leads back the same way, and the name in it is the one the status entry records.\<close>

theorem claim_event_round_trip:
  assumes "run cl (PVCService_CreateTemplate env sp name index) w = (Done (pvc, sp'), w')"
    "- (2 ^ 63) \<le> index" "index < 2 ^ 63"
  shows "StatefulPodEvent_Create \<lparr>ev_Meta = Some m, ev_Object = EvPVC pvc\<rparr> = [NN (Namespace (sp_Meta sp)) name] \<and>
    gomap_val (Annotations (pvc_Meta pvc)) ParentNmae = Name (sp_Meta sp) \<and> pvc_index pvc = index"
proof -
  have key: "sp_key sp2 = sp_key sp" if "run cl (PVCService_reserve env sp index) w = (Done sp2, w2)" for sp2 w2
    using that by (auto simp: PVCService_reserve_def go_index_def go_deref_def
        split: if_splits option.splits prod.splits outcome.splits)
  from assms(1) obtain sp2 w2 t where "run cl (PVCService_reserve env sp index) w = (Done sp2, w2)"
    "PVCTemplate (Spec sp2) = Some t" "pvc_Meta pvc = ObjectMeta_zero\<lparr>Name := name, Namespace := Namespace (sp_Meta sp2),
      Annotations := Some [(GroupVersion_String, ''true''), (ParentNmae, Name (sp_Meta sp2)), (Index, Itoa index)],
      Labels := Some [(ParentNmae, Name (sp_Meta sp2))], OwnerReferences := [NewControllerRef env sp2 StatefulPod_GVK]\<rparr>"
    by (auto simp: PVCService_CreateTemplate_def go_deref_def split: option.splits prod.splits outcome.splits)
  with key [of sp2 w2] StringToInt_Itoa [OF assms(2,3)] show ?thesis
    by (simp add: StatefulPodEvent_Create_def enqueue_owned_def gomap_val_def pvc_index_def)
qed

theorem claim_event_round_trip_witness:
  "\<exists>pvc sp'. run mem_client (PVCService_CreateTemplate demo_env (demo_sp_claims 2 []) ''data-db-1'' 1) empty_world
      = (Done (pvc, sp'), empty_world) \<and> pvc_index pvc = 1"
proof -
  obtain pvc sp' where t: "run mem_client (PVCService_CreateTemplate demo_env (demo_sp_claims 2 []) ''data-db-1'' 1) empty_world
      = (Done (pvc, sp'), empty_world)"
    by (simp add: PVCService_CreateTemplate_def PVCService_reserve_def demo_defs Let_def)
  from claim_event_round_trip [OF t] show ?thesis using t by auto
qed

end
