(* ===== verification/Growth.thy ===== *)
theory Growth
  imports UpdateLoop Templates
begin

text \<open>
  \<open>CoreCtrl\<close> against its abstract plan: the number of settled ordinals, the decision, and what one
  step of growth may touch, leaves behind and cannot recover from.
\<close>

section \<open>The plan\<close>

text \<open>
  What the decision looks at: the phases recorded for each ordinal. Only the last ordinal can be unsettled: its pod
  timed out, or was just created and is within the size asked for, or its claim is pending.
\<close>

type_synonym phases = "(PodPhase \<times> PVCPhase) list"

definition phases_of :: "StatefulPod \<Rightarrow> phases" where
  "phases_of sp = zip (map ps_Status (pods_of sp)) (map pvs_Status (pvcs_of sp))"

definition settled :: "int \<Rightarrow> phases \<Rightarrow> int" where
  "settled target ph =
     (if ph = [] then 0
      else case last ph of (p, v) \<Rightarrow>
        if p = ''CreateTimeOut'' \<or> p = ''Preparing'' \<and> int (length ph) - 1 < target \<or> v = ''Pending''
        then int (length ph) - 1 else int (length ph))"

datatype plan = RemoveAll | Grow int | ShrinkBy int | Keep

definition plan_of :: "bool \<Rightarrow> int \<Rightarrow> phases \<Rightarrow> plan" where
  "plan_of deleting target ph =
     (let n = settled target ph
      in if n < target then Grow n else if target < n then ShrinkBy n else if deleting then RemoveAll else Keep)"

definition carry_out :: "Env \<Rightarrow> nat \<Rightarrow> StatefulPod \<Rightarrow> plan \<Rightarrow> answer prog" where
  "carry_out env fuel sp p = (case p of
      RemoveAll \<Rightarrow> StatefulPodCtrl_deleteStatefulPod fuel sp
    | Grow n \<Rightarrow> StatefulPodCtrl_expansion env fuel sp n
    | ShrinkBy n \<Rightarrow> StatefulPodCtrl_shrink fuel sp n
    | Keep \<Rightarrow> bnd (StatefulPodCtrl_setFinalizer fuel sp) (\<lambda>((result, err), sp').
        if err \<noteq> None then Ret (result, None) else StatefulPodCtrl_maintain env fuel sp'))"

lemma last_nth: "xs \<noteq> [] \<Longrightarrow> xs ! (length xs - Suc 0) = last xs"
  by (simp add: last_conv_nth)

lemma phases_last:
  assumes "wf_sp sp" "pods_of sp \<noteq> []"
  shows "last (phases_of sp) = (ps_Status (last (pods_of sp)), pvs_Status (last (pvcs_of sp)))"
proof -
  have len: "length (pvcs_of sp) = length (pods_of sp)" using assms(1) by (rule wf_status_length)
  with assms(2) have "pvcs_of sp \<noteq> []" by auto
  with assms(2) len show ?thesis unfolding phases_of_def by (subst last_zip) (simp_all add: last_map)
qed

lemma phases_length: "wf_sp sp \<Longrightarrow> length (phases_of sp) = length (pods_of sp)"
  by (simp add: phases_of_def wf_status_length)

lemma getIndex_settled:
  assumes "wf_sp sp" "Size (Spec sp) = Some sz"
  shows "getIndex sp = Ret (settled (int_of_int32 sz) (phases_of sp))"
proof (cases "pods_of sp = []")
  case True
  then show ?thesis by (simp add: getIndex_def settled_def phases_of_def)
next
  case False
  have len: "length (pvcs_of sp) = length (pods_of sp)" using assms(1) by (rule wf_status_length)
  then have ne: "pvcs_of sp \<noteq> []" using False by auto
  let ?i = "int (length (pods_of sp)) - 1"
  have idx: "go_index (pods_of sp) ?i = Ret (last (pods_of sp))" "go_index (pvcs_of sp) ?i = Ret (last (pvcs_of sp))"
    using False ne len last_conv_nth_int [of "pods_of sp"] last_conv_nth_int [of "pvcs_of sp"]
    by (auto simp: go_index_def Suc_le_eq)
  have ph: "phases_of sp \<noteq> []" using False phases_length [OF assms(1)] by (metis length_0_conv)
  have pos: "\<not> ?i < 0" using False by (simp add: Suc_le_eq)
  show ?thesis
    unfolding settled_def
    using False assms(2) ph pos phases_last [OF assms(1) False] phases_length [OF assms(1)]
    by (auto simp: getIndex_def Let_def idx)
qed

lemma settled_bounds: "0 \<le> settled target ph \<and> settled target ph \<le> int (length ph)"
  by (cases ph rule: rev_cases) (auto simp: settled_def split: prod.split)

text \<open>A whole status whose last entry is neither timed out nor waiting for its claim counts in full.\<close>

lemma settled_full:
  assumes "wf_sp sp" "Suc i = length (pods_of sp)" "ps_Status (pods_of sp ! i) \<noteq> ''CreateTimeOut''"
    "ps_Status (pods_of sp ! i) \<noteq> ''Preparing'' \<or> target \<le> int i" "pvs_Status (pvcs_of sp ! i) \<noteq> ''Pending''"
  shows "settled target (phases_of sp) = int (Suc i)"
proof -
  have ne: "pods_of sp \<noteq> []" using assms(2) by auto
  have len: "length (pvcs_of sp) = Suc i" using wf_status_length [OF assms(1)] assms(2) by simp
  have l: "last (pods_of sp) = pods_of sp ! i" using ne by (simp add: last_conv_nth assms(2) [symmetric])
  have "pvcs_of sp \<noteq> []" using len by auto
  then have m: "last (pvcs_of sp) = pvcs_of sp ! i" by (simp add: last_conv_nth len)
  have "phases_of sp \<noteq> []" "length (phases_of sp) = Suc i" using phases_length [OF assms(1)] assms(2) ne by (auto simp flip: length_0_conv)
  then show ?thesis using assms(3-5) phases_last [OF assms(1) ne] by (auto simp: settled_def l m)
qed

lemma CoreCtrl_plan:
  assumes "wf_sp sp" "Size (Spec sp) = Some sz"
  shows "StatefulPodCtrl_CoreCtrl env fuel sp =
    carry_out env fuel sp (plan_of (\<not> IsZero (DeletionTimestamp (sp_Meta sp))) (int_of_int32 sz) (phases_of sp))"
  unfolding StatefulPodCtrl_CoreCtrl_def getIndex_settled [OF assms] plan_of_def carry_out_def
  by (auto simp: assms(2) Let_def)

lemma CoreCtrl_grow:
  assumes "wf_sp sp" "Size (Spec sp) = Some sz" "n = settled (int_of_int32 sz) (phases_of sp)" "n < int_of_int32 sz"
  shows "StatefulPodCtrl_CoreCtrl env fuel sp = StatefulPodCtrl_expansion env fuel sp n"
  using assms(4) unfolding CoreCtrl_plan [OF assms(1,2)] plan_of_def carry_out_def assms(3) by simp

lemma CoreCtrl_shrink:
  assumes "wf_sp sp" "Size (Spec sp) = Some sz" "n = settled (int_of_int32 sz) (phases_of sp)" "int_of_int32 sz < n"
  shows "StatefulPodCtrl_CoreCtrl env fuel sp = StatefulPodCtrl_shrink fuel sp n"
  using assms(4) unfolding CoreCtrl_plan [OF assms(1,2)] plan_of_def carry_out_def assms(3) by simp

text \<open>C3: for a well-formed status, one call of \<open>CoreCtrl\<close> carries out the plan, which depends only on the size,
  the phases recorded for the ordinals and whether the StatefulPod is being deleted: it
  grows while there are fewer settled ordinals than the size, shrinks while there are more, and only at exactly
  the size does it remove everything (if deleted) or maintain. Deletion of a StatefulPod that has not
  reached its size is preceded by growing it.\<close>

theorem CoreCtrl_refines_plan:
  assumes "wf_sp sp" "Size (Spec sp) = Some sz"
  shows "StatefulPodCtrl_CoreCtrl env fuel sp =
    carry_out env fuel sp (plan_of (\<not> IsZero (DeletionTimestamp (sp_Meta sp))) (int_of_int32 sz) (phases_of sp))"
  using assms by (rule CoreCtrl_plan)

theorem CoreCtrl_refines_plan_witness:
  "StatefulPodCtrl_CoreCtrl demo_env 2 ((demo_sp 2 [(''Running'', '''')])\<lparr>sp_Meta := demo_meta\<lparr>DeletionTimestamp := Some 5\<rparr>\<rparr>) =
   StatefulPodCtrl_expansion demo_env 2 ((demo_sp 2 [(''Running'', '''')])\<lparr>sp_Meta := demo_meta\<lparr>DeletionTimestamp := Some 5\<rparr>\<rparr>) 1"
proof -
  let ?sp = "(demo_sp 2 [(''Running'', '''')])\<lparr>sp_Meta := demo_meta\<lparr>DeletionTimestamp := Some 5\<rparr>\<rparr>"
  have "plan_of True (int_of_int32 (int32_of 2)) (phases_of ?sp) = Grow 1"
    by (simp add: plan_of_def settled_def phases_of_def demo_sp_def int_of_int32_of Let_def)
  then show ?thesis
    using CoreCtrl_refines_plan [of ?sp "int32_of 2" demo_env 2] by (simp add: carry_out_def demo_sp_def wf_status_def)
qed
section \<open>What growth may touch\<close>

text \<open>
  Entry \<open>i\<close> of a status list, appended or replaced; and the requests a step of growth for ordinal \<open>i\<close> is
  limited to, whatever the answers: reads, one service for ordinal 0, the pod and the claim of that ordinal,
  and updates of the StatefulPod in which only entry \<open>i\<close> of the two lists is new.
\<close>

definition put :: "int \<Rightarrow> 'a \<Rightarrow> 'a list \<Rightarrow> 'a list" where
  "put i x xs = (if i = int (length xs) then xs @ [x] else xs[nat i := x])"

definition only_reads :: "'o req \<Rightarrow> bool" where
  "only_reads r = (case r of Get nn \<Rightarrow> True | _ \<Rightarrow> False)"

definition grow_contract :: "StatefulPod \<Rightarrow> int \<Rightarrow> contract" where
  "grow_contract sp i = \<lparr>
     c_sp = \<lparr>guar = (\<lambda>r. case r of Get nn \<Rightarrow> True
         | Update sp' \<Rightarrow> sp_key sp' = sp_key sp \<and> (\<exists>p. pods_of sp' = put i p (pods_of sp)) \<and> (\<exists>v. pvcs_of sp' = put i v (pvcs_of sp))
         | _ \<Rightarrow> False), rely = (\<lambda>_ _. True)\<rparr>,
     c_pod = \<lparr>guar = (\<lambda>r. case r of Get nn \<Rightarrow> True
         | Create pod \<Rightarrow> NN (Namespace (pod_Meta pod)) (Name (pod_Meta pod)) = NN (Namespace (sp_Meta sp)) (PodService_GetName sp i) \<and>
             gomap_val (Annotations (pod_Meta pod)) ''parentName'' = Name (sp_Meta sp) \<and>
             gomap_val (Annotations (pod_Meta pod)) ''index'' = Itoa i
         | _ \<Rightarrow> False), rely = (\<lambda>_ _. True)\<rparr>,
     c_pvc = \<lparr>guar = (\<lambda>r. case r of Get nn \<Rightarrow> True
         | Create pvc \<Rightarrow> Namespace (pvc_Meta pvc) = Namespace (sp_Meta sp) \<and>
             gomap_val (Annotations (pvc_Meta pvc)) ''parentName'' = Name (sp_Meta sp) \<and>
             gomap_val (Annotations (pvc_Meta pvc)) ''index'' = Itoa i
         | _ \<Rightarrow> False), rely = (\<lambda>_ _. True)\<rparr>,
     c_svc = \<lparr>guar = (\<lambda>r. case r of Get nn \<Rightarrow> True
         | Create svc \<Rightarrow> i = 0 \<and> Name (svc_Meta svc) = SetServiceName sp \<and> Namespace (svc_Meta svc) = Namespace (sp_Meta sp)
         | _ \<Rightarrow> False), rely = (\<lambda>_ _. True)\<rparr>,
     c_pv = \<lparr>guar = only_reads, rely = (\<lambda>_ _. True)\<rparr>,
     c_node = \<lparr>guar = only_reads, rely = (\<lambda>_ _. True)\<rparr>\<rparr>"

abbreviation grows :: "StatefulPod \<Rightarrow> int \<Rightarrow> ('a \<Rightarrow> bool) \<Rightarrow> 'a prog \<Rightarrow> bool" where
  "grows sp i Q m \<equiv> meets (grow_contract sp i) Q (\<lambda>_. True) m"

lemma meets_Update:
  assumes "\<And>nn. guar (c_sp C) (Get nn)" "\<And>sp'. Q (Inr sp')" "guar (c_sp C) (Update sp)"
    "\<And>x rv. guar (c_sp C) (Update x) \<Longrightarrow> guar (c_sp C) (Update (x\<lparr>sp_Meta := (sp_Meta x)\<lparr>ResourceVersion := rv\<rparr>\<rparr>))"
  shows "meets C Q R (StatefulPodService_Update n sp)"
  using assms(3)
proof (induction n arbitrary: sp)
  case (Suc n)
  then show ?case using assms(1,2,4) by (auto simp: getNewResourceVersion_def split: sum.split)
qed simp

lemma grows_reserve: "grows sp i (same_status False x) (PVCService_reserve env x j)"
  by (auto simp: PVCService_reserve_def IsPvCanUse_def IsNodeReady_def go_index_def go_deref_def Let_def
      grow_contract_def only_reads_def same_status_def split: sum.split option.split)

lemma meets_SetPVCName: "meets C (\<lambda>(nm, sp'). same_status False sp sp') (\<lambda>_. True) (SetPVCName sp index)"
  by (auto simp: SetPVCName_def go_index_def go_deref_def Let_def same_status_def split: option.split)

lemma grows_createClaim:
  assumes "sp_key x = sp_key sp"
  shows "grows sp i (\<lambda>(r, x'). same_status False x x') (PVCCtrl_createClaim env x nm i)"
proof -
  have "grows sp i (\<lambda>(r, x'). same_status False x x') (bnd (go_deref (PVCTemplate (Spec y))) (\<lambda>t. k t y))"
    if "same_status False x y" "\<And>t. grows sp i (\<lambda>(r, x'). same_status False x x') (k t y)" for y k
    using that by (auto simp: go_deref_def split: option.split)
  then show ?thesis
    unfolding PVCCtrl_createClaim_def PVCService_CreateTemplate_def bnd_assoc
    by (intro meets_bndI [OF grows_reserve])
      (use assms in \<open>auto simp: PVCService_Create_def go_deref_def grow_contract_def same_status_def gomap_val_def
        split: sum.split option.split\<close>)
qed

lemma grows_ExpansionPVC:
  assumes "sp_key x = sp_key sp"
  shows "grows sp i (\<lambda>(r, x'). same_status False x x') (PVCCtrl_ExpansionPVC env x i)"
  unfolding PVCCtrl_ExpansionPVC_def PVCService_GetName_def
proof (rule meets_bndI [OF meets_SetPVCName], clarify)
  fix nm y
  assume y: "same_status False x y"
  have "grows sp i (\<lambda>(r, x'). same_status False x x') (PVCCtrl_createClaim env y nm i)"
    by (rule meets_mono [OF grows_createClaim])
      (use y assms same_status_trans in \<open>auto simp: same_status_def\<close>)
  then show "grows sp i (\<lambda>(r, x'). same_status False x x') (bnd (PVCService_IsExists (NN (Namespace (sp_Meta y)) nm))
      (\<lambda>r. case r of None \<Rightarrow> PVCCtrl_createClaim env y nm i
       | Some p \<Rightarrow> if index_too_big then Ret (Inl (ErrorsNew ''''), y)
           else bnd (go_index (pvcs_of y) i) (\<lambda>pvcStatus. Ret (Inr pvcStatus, y))))" for index_too_big
    using y by (auto simp: PVCService_IsExists_def go_index_def grow_contract_def split: sum.split)
qed

lemma grows_ExpansionPod:
  assumes "PVCTemplate (Spec sp) \<noteq> None \<Longrightarrow> claim_volume (Spec sp)" "wf_sp sp"
  shows "grows sp i (\<lambda>(r, x'). same_status False sp x') (PodCtrl_ExpansionPod env sp i)"
proof (rule CreateTemplate_shape [OF assms(1), of env "PodService_GetName sp i" i])
  fix pod sp'
  assume t: "PodService_CreateTemplate env sp (PodService_GetName sp i) i = Ret (pod, sp')"
    and p: "pod_spec env sp (PodService_GetName sp i) i pod"
  have same: "same_status False sp sp'"
    using keeps_PodService_CreateTemplate [of False sp env "PodService_GetName sp i" i] t assms(2) by (simp add: good_def)
  have idx: "gomap_val (Annotations (pod_Meta pod)) ''parentName'' = Name (sp_Meta sp)"
    "gomap_val (Annotations (pod_Meta pod)) ''index'' = Itoa i"
    using p by (simp_all add: pod_spec_def gomap_val_def)
  show ?thesis
    using same idx p
    by (auto simp: PodCtrl_ExpansionPod_def Let_def t PodService_IsExists_def PodService_Create_def go_index_def
        grow_contract_def pod_spec_def split: sum.split)
qed

lemma grows_record:
  assumes "Status x = Status sp" "sp_key x = sp_key sp" "0 \<le> i" "wf_sp sp"
  shows "grows sp i (\<lambda>x'. sp_key x' = sp_key sp \<and> (\<exists>p. pods_of x' = put i p (pods_of sp)) \<and>
    (\<exists>v. pvcs_of x' = put i v (pvcs_of sp))) (StatefulPodCtrl_record x i p v)"
  using assms wf_status_length [OF assms(4)]
  by (auto simp: StatefulPodCtrl_record_def put_def go_assign_def)

lemma grows_Update:
  assumes "sp_key x = sp_key sp" "\<exists>p. pods_of x = put i p (pods_of sp)" "\<exists>v. pvcs_of x = put i v (pvcs_of sp)"
  shows "grows sp i (\<lambda>_. True) (bnd (StatefulPodService_Update fuel x) (\<lambda>r. case r of
      Inl err \<Rightarrow> Ret (f err) | Inr s \<Rightarrow> Ret (g s)))"
  by (rule meets_bndI [OF meets_Update [where Q = "\<lambda>_. True"]]) (use assms in \<open>auto simp: grow_contract_def split: sum.split\<close>)

lemma grows_expansionPVC:
  assumes "sp_key x = sp_key sp"
  shows "grows sp i (\<lambda>(r, x'). same_status False x x') (StatefulPodCtrl_expansionPVC env x i)"
  using grows_ExpansionPVC [OF assms] by (simp add: StatefulPodCtrl_expansionPVC_def)

lemma grows_expansionSvc: "grows sp i (\<lambda>_. True) (StatefulPodCtrl_expansionSvc env sp i)"
  by (auto simp: StatefulPodCtrl_expansionSvc_def ServiceController_CreateService_def Service_IsExists_def
      Service_GetName_def Service_CreateTemplate_def Service_Create_def go_deref_def Let_def grow_contract_def
      split: sum.split option.split)

lemma grows_expansion:
  assumes "PVCTemplate (Spec sp) \<noteq> None \<Longrightarrow> claim_volume (Spec sp)" "wf_sp sp" "0 \<le> i"
  shows "grows sp i (\<lambda>_. True) (StatefulPodCtrl_expansion env fuel sp i)"
proof -
  have finish: "grows sp i (\<lambda>_. True) (bnd (StatefulPodCtrl_record x i p v) (\<lambda>y.
      bnd (StatefulPodService_Update fuel y) (\<lambda>r. case r of
        Inl err \<Rightarrow> Ret (requeue_wait, None) | Inr s \<Rightarrow> Ret (result0, None))))"
    if "same_status False sp x" for x p v
    by (rule meets_bndI [OF grows_record]) (use that assms in \<open>auto simp: same_status_def simp del: meets_bnd intro!: grows_Update\<close>)
  have claim: "grows sp i (\<lambda>_. True) (bnd (StatefulPodCtrl_expansionPVC env x i) (\<lambda>(r, y). case r of
          Inl err \<Rightarrow> Ret (result0, None)
        | Inr v \<Rightarrow> bnd (StatefulPodCtrl_record y i p v) (\<lambda>z. bnd (StatefulPodService_Update fuel z) (\<lambda>r. case r of
              Inl err \<Rightarrow> Ret (requeue_wait, None) | Inr s \<Rightarrow> Ret (result0, None)))))"
    if x: "same_status False sp x" for x p
    by (rule meets_bndI [OF grows_expansionPVC])
      (use x in \<open>auto simp: same_status_def simp del: meets_bnd split: sum.split intro!: finish\<close>)
  show ?thesis
    unfolding StatefulPodCtrl_expansion_def
    by (rule meets_bndI [OF grows_expansionSvc])
      (auto simp del: meets_bnd split: sum.split intro!: meets_bndI [OF grows_ExpansionPod [OF assms(1,2)]] claim)
qed

text \<open>C4: growth is ordered and touches one ordinal only. When fewer ordinals are settled than asked for, then
  whatever the API server answers, every request \<open>CoreCtrl\<close> makes is a read, the creation of the service (only
  for ordinal 0), of the pod or of the claim of the first ordinal \<open>n\<close> that is not settled, or
  an update of the StatefulPod in which only entry \<open>n\<close> of the two lists differs. In particular no later
  ordinal is created before all earlier ones are settled, and nothing is deleted.\<close>

theorem growth_is_ordered:
  assumes "wf_sp sp" "Size (Spec sp) = Some sz" "PVCTemplate (Spec sp) \<noteq> None \<Longrightarrow> claim_volume (Spec sp)"
    "settled (int_of_int32 sz) (phases_of sp) < int_of_int32 sz"
  shows "meets (grow_contract sp (settled (int_of_int32 sz) (phases_of sp))) (\<lambda>_. True) (\<lambda>_. True)
    (StatefulPodCtrl_CoreCtrl env fuel sp)"
  unfolding CoreCtrl_plan [OF assms(1,2)]
  using assms(4) settled_bounds grows_expansion [OF assms(3,1)] by (simp add: plan_of_def carry_out_def)

theorem growth_is_ordered_witness:
  "meets (grow_contract (demo_sp_claims 3 [(''Running'', ''Bound''), (''Preparing'', ''Bound'')]) 1) (\<lambda>_. True) (\<lambda>_. True)
    (StatefulPodCtrl_CoreCtrl demo_env 2 (demo_sp_claims 3 [(''Running'', ''Bound''), (''Preparing'', ''Bound'')]))"
proof -
  let ?sp = "demo_sp_claims 3 [(''Running'', ''Bound''), (''Preparing'', ''Bound'')]"
  have n: "settled (int_of_int32 (int32_of 3)) (phases_of ?sp) = 1"
    by (simp add: settled_def phases_of_def demo_sp_def demo_sp_claims_def int_of_int32_of Let_def)
  have "Size (Spec ?sp) = Some (int32_of 3)" "claim_volume (Spec ?sp)" by (simp_all add: claim_volume_def demo_defs Let_def)
  from growth_is_ordered [OF good_demo(2) this(1) this(2), unfolded n] show ?thesis by (simp add: int_of_int32_of)
qed

end
