(* ===== verification/GrowthCases.thy ===== *)
theory GrowthCases
  imports Growth
begin

text \<open>
  One step of growth case by case: against a server that accepts every creation, when the service is
  still missing, when the pod exists without a status entry, and when the claim cannot be made.
\<close>

section \<open>A cooperative server\<close>

text \<open>
  Views of the StatefulPods, pods and claims a server holds; a creation of an object that is not
  there succeeds and keeps its name and annotations, and a call on one kind of object leaves the other kinds alone.
\<close>

definition accepts :: "('o \<Rightarrow> ObjectMeta) \<Rightarrow> ('o req \<Rightarrow> 'w \<Rightarrow> 'o resp \<times> 'w) \<Rightarrow> ('w \<Rightarrow> NamespacedName \<Rightarrow> 'o option) \<Rightarrow> bool" where
  "accepts meta f V \<longleftrightarrow> (\<forall>x w. V w (NN (Namespace (meta x)) (Name (meta x))) = None \<longrightarrow>
     (\<exists>y w'. f (Create x) w = (Inr y, w') \<and> Name (meta y) = Name (meta x) \<and>
        V w' = (V w)(NN (Namespace (meta x)) (Name (meta x)) \<mapsto> y) \<and> Namespace (meta y) = Namespace (meta x) \<and>
        Annotations (meta y) = Annotations (meta x) \<and> DeletionTimestamp (meta y) = DeletionTimestamp (meta x)))"

definition cooperative :: "'w client \<Rightarrow> ('w \<Rightarrow> NamespacedName \<Rightarrow> StatefulPod option) \<Rightarrow>
    ('w \<Rightarrow> NamespacedName \<Rightarrow> Pod option) \<Rightarrow> ('w \<Rightarrow> NamespacedName \<Rightarrow> PVC option) \<Rightarrow> bool" where
  "cooperative cl Vs Vp Vc \<longleftrightarrow> optimistic (sp_srv cl) Vs \<and>
     reads (pod_srv cl) Vp \<and> accepts pod_Meta (pod_srv cl) Vp \<and>
     reads (pvc_srv cl) Vc \<and> accepts pvc_Meta (pvc_srv cl) Vc \<and>
     (\<forall>r w. Vs (snd (pod_srv cl r w)) = Vs w \<and> Vc (snd (pod_srv cl r w)) = Vc w) \<and>
     (\<forall>r w. Vs (snd (pvc_srv cl r w)) = Vs w \<and> Vp (snd (pvc_srv cl r w)) = Vp w) \<and>
     (\<forall>r w. Vp (snd (sp_srv cl r w)) = Vp w \<and> Vc (snd (sp_srv cl r w)) = Vc w)"

lemma accepts_Create:
  assumes "accepts meta f V" "V w (NN (Namespace (meta x)) (Name (meta x))) = None"
  obtains y w' where "f (Create x) w = (Inr y, w')" "Name (meta y) = Name (meta x)"
    "V w' = (V w)(NN (Namespace (meta x)) (Name (meta x)) \<mapsto> y)" "Namespace (meta y) = Namespace (meta x)"
    "Annotations (meta y) = Annotations (meta x)" "DeletionTimestamp (meta y) = DeletionTimestamp (meta x)"
  using assms unfolding accepts_def by blast

lemma mem_accepts [simp]: "accepts pod_Meta (pod_srv mem_client) pods" "accepts pvc_Meta (pvc_srv mem_client) claims"
  by (auto simp: accepts_def mem_client_def serve_obj_def Let_def)

lemma mem_cooperative [simp]: "cooperative mem_client sps pods claims"
proof -
  have "sps (snd (pod_srv mem_client r w)) = sps w" "claims (snd (pod_srv mem_client r w)) = claims w" for r w
    by (simp_all add: mem_client_def split: prod.split)
  moreover have "sps (snd (pvc_srv mem_client r w)) = sps w" "pods (snd (pvc_srv mem_client r w)) = pods w" for r w
    by (simp_all add: mem_client_def split: prod.split)
  moreover have "pods (snd (sp_srv mem_client r w)) = pods w" "claims (snd (sp_srv mem_client r w)) = claims w" for r w
    by (simp_all add: mem_client_def split: prod.split)
  ultimately show ?thesis unfolding cooperative_def by simp
qed

text \<open>The views after the update loop.\<close>

lemma run_Update_frame:
  assumes "\<And>r w. V (snd (sp_srv cl r w)) = V w" "run cl (StatefulPodService_Update n sp) w = (x, w')"
  shows "V w' = V w"
  using assms(2)
proof (induction n arbitrary: sp w)
  case (Suc n)
  have snd: "V w2 = V w1" if "sp_srv cl r w1 = (y, w2)" for r w1 y w2
    using assms(1) [of r w1] that by simp
  obtain y w1 where u: "sp_srv cl (Update sp) w = (y, w1)" by fastforce
  obtain z w2 where g: "sp_srv cl (Get (sp_key sp)) w1 = (z, w2)" by fastforce
  show ?case
    using Suc.prems u g snd [OF u] snd [OF g] Suc.IH
    by (auto simp: getNewResourceVersion_def split: sum.splits if_splits)
qed simp

section \<open>What a step keeps, and what it creates\<close>

text \<open>
  What the operations keep of a StatefulPod they write: its key, its finalizers, its size, its templates, its list of reserved
  volumes and the names of its claims.
\<close>

definition same_shape :: "StatefulPod \<Rightarrow> StatefulPod \<Rightarrow> bool" where
  "same_shape sp sp' \<longleftrightarrow> sp_key sp' = sp_key sp \<and> Size (Spec sp') = Size (Spec sp) \<and>
     ServiceTemplate (Spec sp') = ServiceTemplate (Spec sp) \<and> PVNames (Spec sp') = PVNames (Spec sp) \<and>
     PVCTemplate (Spec sp') = PVCTemplate (Spec sp) \<and> claim_name sp' = claim_name sp \<and>
     Finalizers (sp_Meta sp') = Finalizers (sp_Meta sp)"

lemma same_shape_refl [simp]: "same_shape sp sp"
  by (simp add: same_shape_def)

lemma same_shape_trans: "same_shape a b \<Longrightarrow> same_shape b c \<Longrightarrow> same_shape a c"
  by (simp add: same_shape_def)

lemma same_shape_key: "same_shape sp sp' \<Longrightarrow> Namespace (sp_Meta sp') = Namespace (sp_Meta sp)"
  by (simp add: same_shape_def)

lemma same_shape_stored:
  "Spec sp' = Spec sp \<Longrightarrow> sp_key sp' = sp_key sp \<Longrightarrow> Finalizers (sp_Meta sp') = Finalizers (sp_Meta sp) \<Longrightarrow> same_shape sp sp'"
  by (auto simp: same_shape_def claim_name_def fun_eq_iff split: list.split option.split)

lemma SetPVCName_shape:
  assumes "claim_volume (Spec sp)"
  obtains sp' where "SetPVCName sp i = Ret (claim_name sp i, sp')" "same_shape sp sp'" "Status sp' = Status sp"
proof -
  obtain sp' where sp': "SetPVCName sp i = Ret (claim_name sp i, sp')" "sp_Meta sp' = sp_Meta sp" "Status sp' = Status sp"
    "PVCTemplate (Spec sp') = PVCTemplate (Spec sp)" "PVNames (Spec sp') = PVNames (Spec sp)" "claim_name sp' = claim_name sp"
    by (rule SetPVCName_claim_name [OF assms, of i])
  moreover have "same_status False sp sp'" using keeps_SetPVCName [of False sp i] sp'(1) by simp
  moreover have "ServiceTemplate (Spec sp') = ServiceTemplate (Spec sp)"
    using sp'(1) by (auto simp: SetPVCName_def go_index_def go_deref_def Let_def split: if_splits option.splits)
  ultimately show thesis using that by (simp add: same_shape_def same_status_def)
qed

text \<open>The metadata of a pod or claim the program made for ordinal \<open>i\<close>, as its events will be read.\<close>

definition child :: "StatefulPod \<Rightarrow> string \<Rightarrow> int \<Rightarrow> ObjectMeta \<Rightarrow> bool" where
  "child sp nm i m \<longleftrightarrow> Namespace m = Namespace (sp_Meta sp) \<and> Name m = nm \<and>
     gomap_get (Annotations m) ''parentName'' = Some (Name (sp_Meta sp)) \<and> gomap_get (Annotations m) ''index'' = Some (Itoa i) \<and>
     IsZero (DeletionTimestamp m)"

lemma CreateTemplate_keeps:
  assumes "PodService_CreateTemplate env sp nm i = Ret (pod, sp')"
  shows "DeletionTimestamp (pod_Meta pod) = None" "ServiceTemplate (Spec sp') = ServiceTemplate (Spec sp)"
    "Finalizers (sp_Meta sp') = Finalizers (sp_Meta sp)"
  using assms by (auto simp: PodService_CreateTemplate_def PodService_setPvc_def PodService_addAnnotations_def SetPVCName_def
      PodService_setLabels_def ObjectMeta_zero_def Let_def go_index_def go_deref_def split: if_splits option.splits)

section \<open>The pod and the claim of the next ordinal\<close>

lemma run_ExpansionPod_new:
  assumes "reads (pod_srv cl) Vp" "accepts pod_Meta (pod_srv cl) Vp"
    "Vp w (NN (Namespace (sp_Meta sp)) (PodService_GetName sp i)) = None"
    "PVCTemplate (Spec sp) \<noteq> None \<Longrightarrow> claim_volume (Spec sp)" "wf_sp sp"
  obtains pod sp' w' where "run cl (PodCtrl_ExpansionPod env sp i) w = (Done (Inr \<lparr>PodName = PodService_GetName sp i,
      ps_Status = ''Preparing'', ps_Index = Some (int32_of i), NodeName = ''''\<rparr>, sp'), w')"
    "Vp w' = (Vp w)(NN (Namespace (sp_Meta sp)) (PodService_GetName sp i) \<mapsto> pod)" "Status sp' = Status sp" "same_shape sp sp'"
    "child sp (PodService_GetName sp i) i (pod_Meta pod)" "\<exists>p y. pod_srv cl (Create p) w = (y, w')"
proof (rule CreateTemplate_shape [OF assms(4), of env "PodService_GetName sp i" i])
  fix pod sp'
  assume t: "PodService_CreateTemplate env sp (PodService_GetName sp i) i = Ret (pod, sp')"
    and p: "pod_spec env sp (PodService_GetName sp i) i pod"
    and rest: "PVCTemplate (Spec sp') = PVCTemplate (Spec sp)" "PVNames (Spec sp') = PVNames (Spec sp)"
      "claim_name sp' = claim_name sp"
  have same: "same_status False sp sp'"
    using keeps_PodService_CreateTemplate [of False sp env "PodService_GetName sp i" i] t assms(5) by (simp add: good_def)
  then have st: "Status sp' = Status sp" "same_shape sp sp'"
    using rest CreateTemplate_keeps(2,3) [OF t] by (simp_all add: same_status_def same_shape_def)
  have key: "Namespace (pod_Meta pod) = Namespace (sp_Meta sp)" "Name (pod_Meta pod) = PodService_GetName sp i"
    "gomap_get (Annotations (pod_Meta pod)) ''parentName'' = Some (Name (sp_Meta sp))"
    "gomap_get (Annotations (pod_Meta pod)) ''index'' = Some (Itoa i)"
    using p by (simp_all add: pod_spec_def)
  have "Vp w (NN (Namespace (pod_Meta pod)) (Name (pod_Meta pod))) = None" using assms(3) key by simp
  then obtain obj w' where c: "pod_srv cl (Create pod) w = (Inr obj, w')" "Name (pod_Meta obj) = Name (pod_Meta pod)"
    "Vp w' = (Vp w)(NN (Namespace (pod_Meta pod)) (Name (pod_Meta pod)) \<mapsto> obj)" and m: "Namespace (pod_Meta obj) = Namespace (pod_Meta pod)"
    "Annotations (pod_Meta obj) = Annotations (pod_Meta pod)" "DeletionTimestamp (pod_Meta obj) = DeletionTimestamp (pod_Meta pod)"
    by (rule accepts_Create [OF assms(2)])
  have "child sp (PodService_GetName sp i) i (pod_Meta obj)"
    using key c(2) m CreateTemplate_keeps(1) [OF t] by (simp add: child_def)
  then show thesis
    by (intro that [OF _ _ st, of w' obj])
      (use c key assms(3) in \<open>auto simp: PodCtrl_ExpansionPod_def Let_def t PodService_Create_def
        pod_reader.IsExists_reads [OF assms(1)]\<close>)
qed

lemma claim_volume_name: "claim_volume (Spec sp) \<longleftrightarrow> claim_name sp 0 \<noteq> ''''"
  by (auto simp: claim_volume_def claim_name_def split: list.split option.split)

text \<open>The entry of the claim: a placeholder without a claim template, else pending.\<close>

definition claim_entry :: "StatefulPod \<Rightarrow> int \<Rightarrow> PVCStatus" where
  "claim_entry sp i = (case PVCTemplate (Spec sp) of
      None \<Rightarrow> \<lparr>pvs_Index = Some (int32_of i), PVCName = ''none'', pvs_Status = '''', Capacity = '''',
        pvs_AccessModes = [''none''], StorageClass = '''', PVName = ''''\<rparr>
    | Some t \<Rightarrow> \<lparr>pvs_Index = Some (int32_of i), PVCName = claim_name sp i, pvs_Status = ''Pending'', Capacity = '''',
        pvs_AccessModes = AccessModes t,
        StorageClass = (case StorageClassName t of None \<Rightarrow> '''' | Some c \<Rightarrow> c), PVName = ''''\<rparr>)"

text \<open>The claim an ordinal gets, if the StatefulPod has claims.\<close>

definition claim_made :: "StatefulPod \<Rightarrow> int \<Rightarrow> (NamespacedName \<Rightarrow> PVC option) \<Rightarrow> (NamespacedName \<Rightarrow> PVC option) \<Rightarrow> bool" where
  "claim_made sp i V V' \<longleftrightarrow> (if PVCTemplate (Spec sp) = None then V' = V
     else \<exists>pvc. V' = V(NN (Namespace (sp_Meta sp)) (claim_name sp i) \<mapsto> pvc) \<and> child sp (claim_name sp i) i (pvc_Meta pvc))"

lemma claim_made_shape: "same_shape sp sp' \<Longrightarrow> claim_made sp' i V V' = claim_made sp i V V'"
  by (simp add: claim_made_def child_def same_shape_def)

lemma run_expansionPVC_new:
  assumes "reads (pvc_srv cl) Vc" "accepts pvc_Meta (pvc_srv cl) Vc" "PVNames (Spec sp) = []"
    "\<And>t. PVCTemplate (Spec sp) = Some t \<Longrightarrow> claim_volume (Spec sp) \<and> StorageClassName t \<noteq> None \<and>
       Vc w (NN (Namespace (sp_Meta sp)) (claim_name sp i)) = None"
  obtains sp' w' where "run cl (StatefulPodCtrl_expansionPVC env sp i) w = (Done (Inr (claim_entry sp i), sp'), w')"
    "Status sp' = Status sp" "same_shape sp sp'" "w' = w \<or> (\<exists>p y. pvc_srv cl (Create p) w = (y, w'))" "claim_made sp i (Vc w) (Vc w')"
proof (cases "PVCTemplate (Spec sp)")
  case None
  then show thesis by (intro that [of sp w]) (simp_all add: StatefulPodCtrl_expansionPVC_def claim_entry_def IntToIntr32_def claim_made_def)
next
  case (Some t)
  with assms(4) obtain c where c: "claim_volume (Spec sp)" "StorageClassName t = Some c"
    "Vc w (NN (Namespace (sp_Meta sp)) (claim_name sp i)) = None" by auto
  obtain sp1 where nm: "SetPVCName sp i = Ret (claim_name sp i, sp1)" "same_shape sp sp1" "Status sp1 = Status sp"
    by (rule SetPVCName_shape [OF c(1), of i])
  have k: "PVCTemplate (Spec sp1) = Some t" "PVNames (Spec sp1) = []" "Namespace (sp_Meta sp1) = Namespace (sp_Meta sp)"
    "Name (sp_Meta sp1) = Name (sp_Meta sp)" using nm(2) Some assms(3) by (simp_all add: same_shape_def)
  define pvc where "pvc = \<lparr>pvc_TypeMeta = \<lparr>tm_Kind = ''PersistentVolumeClaim'', tm_APIVersion = ''v1''\<rparr>,
           pvc_Meta = ObjectMeta_zero\<lparr>Name := claim_name sp i, Namespace := Namespace (sp_Meta sp1),
             Annotations := Some [(GroupVersion_String, ''true''), (ParentNmae, Name (sp_Meta sp1)), (Index, Itoa i)],
             Labels := Some [(ParentNmae, Name (sp_Meta sp1))],
             OwnerReferences := [NewControllerRef env sp1 StatefulPod_GVK]\<rparr>,
           pvc_Spec = t, pvc_Phase = ''''\<rparr>"
  have m: "child sp (claim_name sp i) i (pvc_Meta pvc)" by (simp add: pvc_def child_def k ObjectMeta_zero_def)
  have "Vc w (NN (Namespace (pvc_Meta pvc)) (Name (pvc_Meta pvc))) = None" using c(3) k by (simp add: pvc_def)
  then obtain y w' where y: "pvc_srv cl (Create pvc) w = (Inr y, w')" "Name (pvc_Meta y) = Name (pvc_Meta pvc)"
    "Vc w' = (Vc w)(NN (Namespace (pvc_Meta pvc)) (Name (pvc_Meta pvc)) \<mapsto> y)" "Namespace (pvc_Meta y) = Namespace (pvc_Meta pvc)"
    "Annotations (pvc_Meta y) = Annotations (pvc_Meta pvc)" "DeletionTimestamp (pvc_Meta y) = DeletionTimestamp (pvc_Meta pvc)"
    by (rule accepts_Create [OF assms(2)])
  have tmpl: "run cl (PVCService_CreateTemplate env sp1 (claim_name sp i) i) w = (Done (pvc, sp1), w)"
    using k by (simp add: PVCService_CreateTemplate_def PVCService_reserve_def pvc_def)
  have "run cl (StatefulPodCtrl_expansionPVC env sp i) w = (Done (Inr (claim_entry sp i), sp1), w')"
    using Some nm c y(1) tmpl k
    by (simp add: StatefulPodCtrl_expansionPVC_def PVCCtrl_ExpansionPVC_def PVCService_GetName_def
        pvc_reader.IsExists_reads [OF assms(1)] PVCCtrl_createClaim_def PVCService_Create_def IntToIntr32_def claim_entry_def)
  moreover have "claim_made sp i (Vc w) (Vc w')"
    using Some m y(2-6) by (auto simp: claim_made_def child_def)
  ultimately show thesis using nm y(1) by (intro that [of sp1 w']) auto
qed

section \<open>A step of growth\<close>

lemma cooperativeD:
  assumes "cooperative cl Vs Vp Vc"
  shows "optimistic (sp_srv cl) Vs" "reads (pod_srv cl) Vp" "accepts pod_Meta (pod_srv cl) Vp"
    "reads (pvc_srv cl) Vc" "accepts pvc_Meta (pvc_srv cl) Vc"
    "pod_srv cl r w = (x, w') \<Longrightarrow> Vs w' = Vs w" "pod_srv cl r w = (x, w') \<Longrightarrow> Vc w' = Vc w"
    "pvc_srv cl q w = (y, w') \<Longrightarrow> Vs w' = Vs w" "pvc_srv cl q w = (y, w') \<Longrightarrow> Vp w' = Vp w"
    "Vp (snd (sp_srv cl u w)) = Vp w" "Vc (snd (sp_srv cl u w)) = Vc w"
  using assms unfolding cooperative_def by (auto dest: arg_cong [of _ _ snd] simp: prod_eq_iff)

lemma run_record_put:
  assumes "Status x = Status sp" "0 \<le> n" "n \<le> int (length (pods_of sp))" "wf_sp sp"
  shows "run cl (StatefulPodCtrl_record x n p v) w =
    (Done (set_pvcs (put n v (pvcs_of sp)) (set_pods (put n p (pods_of sp)) x)), w)"
  using assms wf_status_length [OF assms(4)] by (auto simp: StatefulPodCtrl_record_def put_def go_assign_def)

lemma settled_put:
  assumes "wf_sp sp" "n = settled target (phases_of sp)" "n < target" "pods_of sp' = put n p (pods_of sp)"
    "pvcs_of sp' = put n v (pvcs_of sp)" "ps_Status p = ''Preparing''"
  shows "settled target (phases_of sp') = n"
proof -
  have len: "length (pvcs_of sp) = length (pods_of sp)" using assms(1) by (rule wf_status_length)
  have n: "n = int (length (pods_of sp)) \<or> n = int (length (pods_of sp)) - 1 \<and> pods_of sp \<noteq> []"
    using assms(2) phases_length [OF assms(1)] by (auto simp: settled_def phases_of_def split: if_splits prod.splits)
  have "\<exists>ps vs. pods_of sp' = ps @ [p] \<and> pvcs_of sp' = vs @ [v] \<and> length ps = nat n \<and> length vs = nat n"
    using n
  proof
    assume "n = int (length (pods_of sp))"
    then show ?thesis using assms(4,5) len by (simp add: put_def)
  next
    assume a: "n = int (length (pods_of sp)) - 1 \<and> pods_of sp \<noteq> []"
    then obtain ps q where ps: "pods_of sp = ps @ [q]" by (cases "pods_of sp" rule: rev_cases) auto
    with len obtain vs u where vs: "pvcs_of sp = vs @ [u]" by (cases "pvcs_of sp" rule: rev_cases) auto
    from a ps have n: "n = int (length ps)" by simp
    have l: "length vs = length ps" using len ps vs by simp
    have "pods_of sp' = ps @ [p]" using assms(4) ps n by (simp add: put_def)
    moreover have "pvcs_of sp' = vs @ [v]" using assms(5) vs n unfolding l [symmetric] by (simp add: put_def)
    ultimately show ?thesis using l n by auto
  qed
  then have "phases_of sp' \<noteq> []" "last (phases_of sp') = (ps_Status p, pvs_Status v)" "length (phases_of sp') = Suc (nat n)"
    by (auto simp: phases_of_def)
  then show ?thesis using assms(3,6) assms(2) settled_bounds [of target "phases_of sp"] by (simp add: settled_def)
qed

text \<open>The end of a step: with the pod and the claim dealt with, the entry is recorded and stored.\<close>

lemma run_expansion_finish:
  assumes "cooperative cl Vs Vp Vc" "wf_sp sp" "0 \<le> n" "n \<le> int (length (pods_of sp))" "2 \<le> fuel"
    "run cl (StatefulPodCtrl_expansionSvc env sp n) w = (Done True, w)"
    "run cl (PodCtrl_ExpansionPod env sp n) w = (Done (Inr p, sp1), w1)"
    "run cl (StatefulPodCtrl_expansionPVC env sp1 n) w1 = (Done (Inr v, sp2), w2)"
    "Status sp2 = Status sp" "sp_key sp2 = sp_key sp" "Vs w2 (sp_key sp) = Some cur"
  shows "\<exists>sp' w'. run cl (StatefulPodCtrl_expansion env fuel sp n) w = (Done (result0, None), w') \<and>
    Vs w' = (Vs w2)(sp_key sp := written (sp_Meta cur) sp') \<and> Vp w' = Vp w2 \<and> Vc w' = Vc w2 \<and>
    pods_of sp' = put n p (pods_of sp) \<and> pvcs_of sp' = put n v (pvcs_of sp) \<and> Spec sp' = Spec sp2 \<and> sp_key sp' = sp_key sp \<and>
    Finalizers (sp_Meta sp') = Finalizers (sp_Meta sp2) \<and> DeletionTimestamp (sp_Meta sp') = DeletionTimestamp (sp_Meta cur)"
proof -
  note c = cooperativeD [OF assms(1)]
  define sp3 where "sp3 = set_pvcs (put n v (pvcs_of sp)) (set_pods (put n p (pods_of sp)) sp2)"
  have rec: "run cl (StatefulPodCtrl_record sp2 n p v) w2 = (Done sp3, w2)"
    unfolding sp3_def by (rule run_record_put [OF assms(9,3,4,2)])
  have key3: "sp_key sp3 = sp_key sp" using assms(10) by (simp add: sp3_def)
  have "Vs w2 (sp_key sp3) = Some cur" using assms(11) key3 by simp
  then obtain sp' w' where upd: "run cl (StatefulPodService_Update fuel sp3) w2 = (Done (Inr sp'), w')"
    "Vs w' = (Vs w2)(sp_key sp3 := written (sp_Meta cur) sp')" "accepted cur sp3 sp'"
    by (rule run_Update_write [OF c(1) _ assms(5)])
  have "Vp w' = Vp w2" "Vc w' = Vc w2"
    using run_Update_frame [OF c(10) upd(1)] run_Update_frame [OF c(11) upd(1)] by simp_all
  moreover have "run cl (StatefulPodCtrl_expansion env fuel sp n) w = (Done (result0, None), w')"
    by (simp add: StatefulPodCtrl_expansion_def assms(6-8) rec upd(1))
  ultimately show ?thesis using upd key3 by (intro exI [of _ sp'] exI [of _ w']) (simp add: sp3_def accepted_def)
qed

text \<open>The keys of an ordinal's pod and claim, and of the service, which is no issue once it is there.\<close>

abbreviation pod_key :: "StatefulPod \<Rightarrow> nat \<Rightarrow> NamespacedName" where
  "pod_key sp i \<equiv> NN (Namespace (sp_Meta sp)) (PodService_GetName sp (int i))"

abbreviation claim_key :: "StatefulPod \<Rightarrow> nat \<Rightarrow> NamespacedName" where
  "claim_key sp i \<equiv> NN (Namespace (sp_Meta sp)) (claim_name sp (int i))"

abbreviation claims_wanted :: "StatefulPod \<Rightarrow> bool" where
  "claims_wanted sp \<equiv> PVCTemplate (Spec sp) \<noteq> None"

abbreviation svc_key :: "StatefulPod \<Rightarrow> NamespacedName" where
  "svc_key sp \<equiv> NN (Namespace (sp_Meta sp)) (SetServiceName sp)"

lemma run_expansionSvc:
  assumes "reads (svc_srv cl) Vv" "n = 0 \<Longrightarrow> ServiceTemplate (Spec sp) \<noteq> None \<Longrightarrow> Vv w (svc_key sp) \<noteq> None"
  shows "run cl (StatefulPodCtrl_expansionSvc env sp n) w = (Done True, w)"
  using assms(2)
  by (auto simp: StatefulPodCtrl_expansionSvc_def ServiceController_CreateService_def Service_GetName_def
      svc_reader.IsExists_reads [OF assms(1)] split: option.split)

lemma run_growth_over:
  assumes "cooperative cl Vs Vp Vc" "wf_sp sp" "Size (Spec sp) = Some sz" "n = settled (int_of_int32 sz) (phases_of sp)"
    "n < int_of_int32 sz" "run cl (StatefulPodCtrl_expansionSvc env sp n) w = (Done True, w)" "PVNames (Spec sp) = []"
    "\<And>t. PVCTemplate (Spec sp) = Some t \<Longrightarrow> claim_volume (Spec sp) \<and> StorageClassName t \<noteq> None \<and>
       Vc w (NN (Namespace (sp_Meta sp)) (claim_name sp n)) = None"
    "Vp w (NN (Namespace (sp_Meta sp)) (PodService_GetName sp n)) = None" "Vs w (sp_key sp) = Some cur" "2 \<le> fuel"
  shows "\<exists>sp' pod w'. run cl (StatefulPodCtrl_CoreCtrl env fuel sp) w = (Done (result0, None), w') \<and>
    Vs w' = (Vs w)(sp_key sp := written (sp_Meta cur) sp') \<and>
    Vp w' = (Vp w)(NN (Namespace (sp_Meta sp)) (PodService_GetName sp n) \<mapsto> pod) \<and>
    child sp (PodService_GetName sp n) n (pod_Meta pod) \<and> claim_made sp n (Vc w) (Vc w') \<and> same_shape sp sp' \<and>
    pods_of sp' = put n \<lparr>PodName = PodService_GetName sp n, ps_Status = ''Preparing'', ps_Index = Some (int32_of n),
      NodeName = ''''\<rparr> (pods_of sp) \<and>
    pvcs_of sp' = put n (claim_entry sp n) (pvcs_of sp) \<and>
    settled (int_of_int32 sz) (phases_of sp') = n \<and> DeletionTimestamp (sp_Meta sp') = DeletionTimestamp (sp_Meta cur)"
proof -
  note c = cooperativeD [OF assms(1)]
  have b: "0 \<le> n" "n \<le> int (length (pods_of sp))"
    using assms(4) settled_bounds phases_length [OF assms(2)] by metis+
  let ?p = "\<lparr>PodName = PodService_GetName sp n, ps_Status = ''Preparing'', ps_Index = Some (int32_of n), NodeName = ''''\<rparr>"
  have vol: "PVCTemplate (Spec sp) \<noteq> None \<Longrightarrow> claim_volume (Spec sp)" using assms(8) by blast
  obtain pod sp1 w1 where pod: "run cl (PodCtrl_ExpansionPod env sp n) w = (Done (Inr ?p, sp1), w1)"
    "Vp w1 = (Vp w)(NN (Namespace (sp_Meta sp)) (PodService_GetName sp n) \<mapsto> pod)" "Status sp1 = Status sp" "same_shape sp sp1"
    "child sp (PodService_GetName sp n) n (pod_Meta pod)" "\<exists>p y. pod_srv cl (Create p) w = (y, w1)"
    by (rule run_ExpansionPod_new [OF c(2,3) assms(9) vol assms(2)])
  have v1: "Vs w1 = Vs w" "Vc w1 = Vc w" using pod(6) c(6,7) by blast+
  have s1: "PVCTemplate (Spec sp1) = PVCTemplate (Spec sp)" "PVNames (Spec sp1) = PVNames (Spec sp)" "claim_name sp1 = claim_name sp"
    "sp_key sp1 = sp_key sp" using pod(4) by (simp_all add: same_shape_def)
  have e1: "claim_entry sp1 n = claim_entry sp n" unfolding claim_entry_def s1 ..
  have cv1: "claim_volume (Spec sp1)" if "PVCTemplate (Spec sp1) = Some t" for t
    using vol that s1(1) unfolding claim_volume_name s1(3) by simp
  obtain sp2 w2 where pvc: "run cl (StatefulPodCtrl_expansionPVC env sp1 n) w1 = (Done (Inr (claim_entry sp n), sp2), w2)"
    "Status sp2 = Status sp1" "same_shape sp1 sp2" "w2 = w1 \<or> (\<exists>p y. pvc_srv cl (Create p) w1 = (y, w2))"
    "claim_made sp1 n (Vc w1) (Vc w2)"
    unfolding e1 [symmetric]
    by (rule run_expansionPVC_new [OF c(4,5), of sp1 w1 n env])
      (use assms(7,8) s1 v1 cv1 in auto)
  have v2: "Vs w2 = Vs w" "Vp w2 = Vp w1" using pvc(4) c(8,9) v1 by auto
  have shape: "same_shape sp sp2" by (rule same_shape_trans [OF pod(4) pvc(3)])
  have made: "claim_made sp n (Vc w) (Vc w2)" using pvc(5) unfolding claim_made_shape [OF pod(4)] v1 .
  have "Status sp2 = Status sp" "sp_key sp2 = sp_key sp" "Vs w2 (sp_key sp) = Some cur"
    using pvc(2) pod(3) shape v2 assms(10) by (simp_all add: same_shape_def)
  then obtain sp' w' where fin: "run cl (StatefulPodCtrl_expansion env fuel sp n) w = (Done (result0, None), w')"
    "Vs w' = (Vs w2)(sp_key sp := written (sp_Meta cur) sp')" "Vp w' = Vp w2" "Vc w' = Vc w2" and lists: "pods_of sp' = put n ?p (pods_of sp)"
    "pvcs_of sp' = put n (claim_entry sp n) (pvcs_of sp)" and st: "Spec sp' = Spec sp2" "sp_key sp' = sp_key sp"
    "Finalizers (sp_Meta sp') = Finalizers (sp_Meta sp2)" "DeletionTimestamp (sp_Meta sp') = DeletionTimestamp (sp_Meta cur)"
    using run_expansion_finish [OF assms(1,2) b assms(11,6) pod(1) pvc(1)] by blast
  have "settled (int_of_int32 sz) (phases_of sp') = n"
    by (rule settled_put [OF assms(2,4,5) lists]) simp
  moreover have "same_shape sp sp'"
    using shape st by (intro same_shape_trans [OF shape same_shape_stored]) (simp_all add: same_shape_def)
  ultimately show ?thesis using fin lists v2 pod(2,5) made st(4) unfolding CoreCtrl_grow [OF assms(2-5)]
    by (intro exI [of _ sp'] exI [of _ pod] exI [of _ w']) simp
qed

text \<open>The same when the StatefulPod is the stored version.\<close>

lemma written_shape [simp]: "same_shape sp sp' \<Longrightarrow> written (sp_Meta sp) sp' = Some sp'"
  by (simp add: same_shape_def)

lemma run_growth:
  assumes "cooperative cl Vs Vp Vc" "wf_sp sp" "Size (Spec sp) = Some sz" "n = settled (int_of_int32 sz) (phases_of sp)"
    "n < int_of_int32 sz" "run cl (StatefulPodCtrl_expansionSvc env sp n) w = (Done True, w)" "PVNames (Spec sp) = []"
    "\<And>t. PVCTemplate (Spec sp) = Some t \<Longrightarrow> claim_volume (Spec sp) \<and> StorageClassName t \<noteq> None \<and>
       Vc w (NN (Namespace (sp_Meta sp)) (claim_name sp n)) = None"
    "Vp w (NN (Namespace (sp_Meta sp)) (PodService_GetName sp n)) = None" "Vs w (sp_key sp) = Some sp" "2 \<le> fuel"
  shows "\<exists>sp' pod w'. run cl (StatefulPodCtrl_CoreCtrl env fuel sp) w = (Done (result0, None), w') \<and>
    Vs w' = (Vs w)(sp_key sp \<mapsto> sp') \<and>
    Vp w' = (Vp w)(NN (Namespace (sp_Meta sp)) (PodService_GetName sp n) \<mapsto> pod) \<and>
    child sp (PodService_GetName sp n) n (pod_Meta pod) \<and> claim_made sp n (Vc w) (Vc w') \<and> same_shape sp sp' \<and>
    pods_of sp' = put n \<lparr>PodName = PodService_GetName sp n, ps_Status = ''Preparing'', ps_Index = Some (int32_of n),
      NodeName = ''''\<rparr> (pods_of sp) \<and>
    pvcs_of sp' = put n (claim_entry sp n) (pvcs_of sp) \<and>
    settled (int_of_int32 sz) (phases_of sp') = n \<and> DeletionTimestamp (sp_Meta sp') = DeletionTimestamp (sp_Meta sp)"
  using run_growth_over [OF assms] by (fastforce simp del: written_kept)

text \<open>C5: a step of growth succeeds. Take a server that accepts creations and updates, a StatefulPod without reserved volumes whose claim template, if
  it has one, is complete (the pod template has a claim volume, the claim template a storage class), with the service of ordinal 0 already
  there if there is to be one, and the child names of the ordinal free. One call of \<open>CoreCtrl\<close> creates the pod of the
  first unsettled ordinal \<open>n\<close> and, if there is a claim template, its claim - both under the ordinal's names and with annotations that lead
  back to the StatefulPod and the ordinal - and writes a StatefulPod whose entry \<open>n\<close> says that the
  pod is being prepared and the claim is pending, whatever version \<open>cur\<close> was stored before (the server lets it go if \<open>cur\<close> is being deleted and
  the copy has no finalizer left). Size, templates, names and finalizers stay. The
  ordinal then is not settled, so the next ordinal has to wait for its pod.\<close>

theorem growth_step:
  assumes "cooperative cl Vs Vp Vc" "wf_sp sp" "Size (Spec sp) = Some sz" "n = settled (int_of_int32 sz) (phases_of sp)"
    "n < int_of_int32 sz" "reads (svc_srv cl) Vv"
    "n = 0 \<Longrightarrow> ServiceTemplate (Spec sp) \<noteq> None \<Longrightarrow> Vv w (svc_key sp) \<noteq> None" "PVNames (Spec sp) = []"
    "\<And>t. PVCTemplate (Spec sp) = Some t \<Longrightarrow> claim_volume (Spec sp) \<and> StorageClassName t \<noteq> None \<and>
       Vc w (NN (Namespace (sp_Meta sp)) (claim_name sp n)) = None"
    "Vp w (NN (Namespace (sp_Meta sp)) (PodService_GetName sp n)) = None" "Vs w (sp_key sp) = Some cur" "2 \<le> fuel"
  shows "\<exists>sp' pod w'. run cl (StatefulPodCtrl_CoreCtrl env fuel sp) w = (Done (result0, None), w') \<and>
    Vs w' = (Vs w)(sp_key sp := written (sp_Meta cur) sp') \<and>
    Vp w' = (Vp w)(NN (Namespace (sp_Meta sp)) (PodService_GetName sp n) \<mapsto> pod) \<and>
    child sp (PodService_GetName sp n) n (pod_Meta pod) \<and> claim_made sp n (Vc w) (Vc w') \<and> same_shape sp sp' \<and>
    pods_of sp' = put n \<lparr>PodName = PodService_GetName sp n, ps_Status = ''Preparing'', ps_Index = Some (int32_of n),
      NodeName = ''''\<rparr> (pods_of sp) \<and>
    pvcs_of sp' = put n (claim_entry sp n) (pvcs_of sp) \<and>
    settled (int_of_int32 sz) (phases_of sp') = n"
  using run_growth_over [OF assms(1-5) run_expansionSvc [OF assms(6,7)] assms(8-12)] by blast

text \<open>The concrete cluster of the witnesses: the StatefulPod of size 2 with one running ordinal, and nothing else.\<close>

definition growing_sp :: StatefulPod where
  "growing_sp = demo_sp_claims 2 [(''Running'', ''Bound'')]"

lemma growing_sp_simps:
  "wf_sp growing_sp" "Size (Spec growing_sp) = Some (int32_of 2)" "ServiceTemplate (Spec growing_sp) = None"
  "PVNames (Spec growing_sp) = []" "PVCTemplate (Spec growing_sp) = Some demo_claim" "claim_volume (Spec growing_sp)"
  "sp_key growing_sp = NN ''ns'' ''db''" "length (pods_of growing_sp) = 1"
  by (simp_all add: growing_sp_def claim_volume_def) (simp_all add: demo_defs Let_def)

lemma growing_sp_settled: "settled (int_of_int32 (int32_of 2)) (phases_of growing_sp) = 1" "int_of_int32 (int32_of 2) = 2"
    "settled 2 (phases_of growing_sp) = 1"
  by (simp_all add: settled_def phases_of_def growing_sp_def demo_sp_def demo_sp_claims_def int_of_int32_of Let_def)

theorem growth_step_witness:
  "\<exists>sp' pod w'. run mem_client (StatefulPodCtrl_CoreCtrl demo_env 2 growing_sp)
      (empty_world\<lparr>sps := (\<lambda>_. None)(NN ''ns'' ''db'' \<mapsto> growing_sp)\<rparr>) = (Done (result0, None), w') \<and>
    sps w' (NN ''ns'' ''db'') = Some sp' \<and> length (pods_of sp') = 2 \<and>
    pods w' (NN ''ns'' (PodService_GetName growing_sp 1)) = Some pod"
proof -
  define w0 where "w0 = empty_world\<lparr>sps := (\<lambda>_. None)(NN ''ns'' ''db'' \<mapsto> growing_sp)\<rparr>"
  have w0: "sps w0 (sp_key growing_sp) = Some growing_sp" "pods w0 nn = None" "claims w0 nn = None" for nn
    unfolding growing_sp_simps(7) by (simp_all add: w0_def empty_world_def)
  have ns: "Namespace (sp_Meta growing_sp) = ''ns''" "Name (sp_Meta growing_sp) = ''db''" using growing_sp_simps(7) by simp_all
  from growth_step [OF mem_cooperative growing_sp_simps(1,2), of 1 svcs w0 growing_sp 2 demo_env]
  obtain sp' pod w' where "run mem_client (StatefulPodCtrl_CoreCtrl demo_env 2 growing_sp) w0 = (Done (result0, None), w')"
    "sps w' = (sps w0)(sp_key growing_sp \<mapsto> sp')"
    "pods w' = (pods w0)(NN (Namespace (sp_Meta growing_sp)) (PodService_GetName growing_sp 1) \<mapsto> pod)"
    "pods_of sp' = put 1 \<lparr>PodName = PodService_GetName growing_sp 1, ps_Status = ''Preparing'',
      ps_Index = Some (int32_of 1), NodeName = ''''\<rparr> (pods_of growing_sp)"
    using growing_sp_simps growing_sp_settled w0 by (auto simp: demo_claim_def)
  then show ?thesis
    unfolding w0_def ns growing_sp_simps(7)
    by (intro exI [of _ sp'] exI [of _ pod] exI [of _ w']) (simp add: put_def growing_sp_simps(8) ns)
qed

section \<open>The service comes first\<close>

lemma run_service_missing:
  assumes "wf_sp sp" "Size (Spec sp) = Some sz" "0 < int_of_int32 sz" "settled (int_of_int32 sz) (phases_of sp) = 0"
    "ServiceTemplate (Spec sp) = Some t" "reads (svc_srv cl) V"
    "V w (NN (Namespace (sp_Meta sp)) (Name (sp_Meta sp) @ ''-service'')) = None"
  shows "\<exists>svc r w'. svc_srv cl (Create svc) w = (r, w') \<and> svc_Spec svc = t \<and>
    Name (svc_Meta svc) = Name (sp_Meta sp) @ ''-service'' \<and> Namespace (svc_Meta svc) = Namespace (sp_Meta sp) \<and>
    run cl (StatefulPodCtrl_CoreCtrl env fuel sp) w = (Done (requeue_wait, None), w')"
proof -
  define svc where "svc = \<lparr>svc_TypeMeta = \<lparr>tm_Kind = ''Service'', tm_APIVersion = ''v1''\<rparr>,
          svc_Meta = ObjectMeta_zero\<lparr>Name := SetServiceName sp, Namespace := Namespace (sp_Meta sp),
            Annotations := Some [(GroupVersion_String, ''true''), (ParentNmae, Name (sp_Meta sp))],
            OwnerReferences := [NewControllerRef env sp StatefulPod_GVK]\<rparr>, svc_Spec = t\<rparr>"
  obtain r w' where r: "svc_srv cl (Create svc) w = (r, w')" by fastforce
  have "run cl (StatefulPodCtrl_expansionSvc env sp 0) w = (Done False, w')"
    using assms(5,7) r
    by (cases r) (simp_all add: StatefulPodCtrl_expansionSvc_def ServiceController_CreateService_def Service_GetName_def
        SetServiceName_def svc_reader.IsExists_reads [OF assms(6)] Service_CreateTemplate_def Service_Create_def svc_def)
  then have "run cl (StatefulPodCtrl_CoreCtrl env fuel sp) w = (Done (requeue_wait, None), w')"
    using assms(3) CoreCtrl_grow [OF assms(1,2), of 0 env fuel] assms(4) by (simp add: StatefulPodCtrl_expansion_def)
  then show ?thesis using r by (intro exI [of _ svc] exI [of _ r] exI [of _ w']) (simp add: svc_def SetServiceName_def)
qed

text \<open>While the service of a StatefulPod that asks for one is not there, growth of ordinal 0 only tries to create it
  and comes back later: no pod, no claim and no status entry is written, whether the creation
  succeeds or not; the pods come only once a later call finds the service.\<close>

theorem service_before_pods:
  assumes "wf_sp sp" "Size (Spec sp) = Some sz" "0 < int_of_int32 sz" "settled (int_of_int32 sz) (phases_of sp) = 0"
    "ServiceTemplate (Spec sp) = Some t" "reads (svc_srv cl) V"
    "V w (NN (Namespace (sp_Meta sp)) (Name (sp_Meta sp) @ ''-service'')) = None"
  shows "\<exists>svc r w'. svc_srv cl (Create svc) w = (r, w') \<and> svc_Spec svc = t \<and>
    Name (svc_Meta svc) = Name (sp_Meta sp) @ ''-service'' \<and> Namespace (svc_Meta svc) = Namespace (sp_Meta sp) \<and>
    run cl (StatefulPodCtrl_CoreCtrl env fuel sp) w = (Done (requeue_wait, None), w')"
  by (rule run_service_missing [where V = V and w = w, OF assms])

theorem service_before_pods_witness:
  "\<exists>w'. run mem_client (StatefulPodCtrl_CoreCtrl demo_env 2 ((demo_sp 1 [])\<lparr>Spec := (Spec (demo_sp 1 []))\<lparr>ServiceTemplate :=
      Some \<lparr>svc_Selector = [], ServiceSpec_rest = ''''\<rparr>\<rparr>\<rparr>)) empty_world = (Done (requeue_wait, None), w')"
proof -
  define sp where "sp = (demo_sp 1 [])\<lparr>Spec := (Spec (demo_sp 1 []))\<lparr>ServiceTemplate :=
      Some \<lparr>svc_Selector = [], ServiceSpec_rest = ''''\<rparr>\<rparr>\<rparr>"
  have sp: "wf_sp sp" "Size (Spec sp) = Some (int32_of 1)" "settled (int_of_int32 (int32_of 1)) (phases_of sp) = 0"
    "ServiceTemplate (Spec sp) = Some \<lparr>svc_Selector = [], ServiceSpec_rest = ''''\<rparr>" "0 < int_of_int32 (int32_of 1)"
    by (simp_all add: sp_def demo_sp_def wf_status_def settled_def phases_of_def int_of_int32_of)
  have "svcs empty_world (NN (Namespace (sp_Meta sp)) (Name (sp_Meta sp) @ ''-service'')) = None" by (simp add: empty_world_def)
  from service_before_pods [where V = svcs, OF sp(1,2,5,3,4) mem_reads(4) this, of demo_env 2]
  obtain w' where "run mem_client (StatefulPodCtrl_CoreCtrl demo_env 2 sp) empty_world = (Done (requeue_wait, None), w')"
    by blast
  then show ?thesis unfolding sp_def by (rule exI)
qed

section \<open>Growth that cannot go on\<close>

lemma run_ExpansionPod_existing:
  assumes "reads (pod_srv cl) V" "V w (NN (Namespace (sp_Meta sp)) (PodService_GetName sp i)) = Some pod"
    "int (length (pods_of sp)) \<le> i"
  shows "run cl (PodCtrl_ExpansionPod env sp i) w = (Done (Inl (ErrorsNew ''''), sp), w)"
  using assms(2,3) by (simp add: PodCtrl_ExpansionPod_def Let_def pod_reader.IsExists_reads [OF assms(1)])

text \<open>A pod of the next ordinal that exists without a status entry stops growth for good: \<open>CoreCtrl\<close> asks
  to be called again at once and changes nothing, so the next call does the same, as long as the
  pod is there.\<close>

theorem existing_pod_stalls_growth:
  assumes "wf_sp sp" "Size (Spec sp) = Some sz" "int (length (pods_of sp)) < int_of_int32 sz"
    "settled (int_of_int32 sz) (phases_of sp) = int (length (pods_of sp))"
    "pods_of sp \<noteq> [] \<or> ServiceTemplate (Spec sp) = None" "reads (pod_srv cl) V"
    "V w (NN (Namespace (sp_Meta sp)) (PodService_GetName sp (int (length (pods_of sp))))) = Some pod"
  shows "run cl (StatefulPodCtrl_CoreCtrl env fuel sp) w = (Done (requeue_now, None), w)"
proof -
  have svc: "StatefulPodCtrl_expansionSvc env sp (int (length (pods_of sp))) = Ret True"
    using assms(5) by (auto simp: StatefulPodCtrl_expansionSvc_def)
  show ?thesis
    unfolding CoreCtrl_grow [OF assms(1,2) assms(4) [symmetric] assms(3)]
    by (simp add: StatefulPodCtrl_expansion_def svc run_ExpansionPod_existing [OF assms(6,7)])
qed

theorem existing_pod_stalls_growth_witness:
  "run mem_client (StatefulPodCtrl_CoreCtrl demo_env 2 growing_sp)
     (empty_world\<lparr>pods := (\<lambda>_. None)(NN ''ns'' (PodService_GetName growing_sp 1) \<mapsto> demo_pod ''db-1'' ''1'' ''Running'')\<rparr>) =
   (Done (requeue_now, None),
     empty_world\<lparr>pods := (\<lambda>_. None)(NN ''ns'' (PodService_GetName growing_sp 1) \<mapsto> demo_pod ''db-1'' ''1'' ''Running'')\<rparr>)"
proof -
  define p where "p = demo_pod ''db-1'' ''1'' ''Running''"
  define w0 where "w0 = empty_world\<lparr>pods := (\<lambda>_. None)(NN ''ns'' (PodService_GetName growing_sp 1) \<mapsto> p)\<rparr>"
  have "Namespace (sp_Meta growing_sp) = ''ns''" using growing_sp_simps(7) by simp
  then have "pods w0 (NN (Namespace (sp_Meta growing_sp)) (PodService_GetName growing_sp (int (length (pods_of growing_sp))))) = Some p"
    by (simp add: w0_def growing_sp_simps(8))
  from existing_pod_stalls_growth [OF growing_sp_simps(1,2) _ _ _ mem_reads(2) this, of demo_env 2]
  show ?thesis unfolding w0_def [symmetric] p_def [symmetric] by (simp add: growing_sp_simps(3,8) growing_sp_settled)
qed

text \<open>C36: a refused claim strands its pod. When the pod of the next ordinal can be created but its claim cannot, \<open>CoreCtrl\<close>
  answers that it is done (no retry is asked for) and writes no status entry; the pod is left
  behind, and from then on every call finds it and stalls.\<close>

theorem refused_claim_strands_pod:
  assumes "wf_sp sp" "Size (Spec sp) = Some sz" "n = int (length (pods_of sp))" "n < int_of_int32 sz"
    "settled (int_of_int32 sz) (phases_of sp) = n" "pods_of sp \<noteq> [] \<or> ServiceTemplate (Spec sp) = None"
    "PVCTemplate (Spec sp) = Some t" "claim_volume (Spec sp)" "PVNames (Spec sp) = []"
    "reads (pod_srv cl) Vp" "accepts pod_Meta (pod_srv cl) Vp"
    "Vp w (NN (Namespace (sp_Meta sp)) (PodService_GetName sp n)) = None"
    "\<And>nn w. pvc_srv cl (Get nn) w = (Inl NotFound, w)" "\<And>c w. \<exists>e. pvc_srv cl (Create c) w = (Inl e, w)"
  shows "\<exists>pod w'. run cl (StatefulPodCtrl_CoreCtrl env fuel sp) w = (Done (result0, None), w') \<and>
    Vp w' = (Vp w)(NN (Namespace (sp_Meta sp)) (PodService_GetName sp n) \<mapsto> pod) \<and>
    run cl (StatefulPodCtrl_CoreCtrl env fuel sp) w' = (Done (requeue_now, None), w')"
proof -
  have svc: "StatefulPodCtrl_expansionSvc env sp n = Ret True"
    using assms(3,6) by (auto simp: StatefulPodCtrl_expansionSvc_def)
  note core = CoreCtrl_grow [OF assms(1,2) assms(5) [symmetric] assms(4), of env fuel]
  obtain p pod sp1 w1 where pod: "run cl (PodCtrl_ExpansionPod env sp n) w = (Done (Inr p, sp1), w1)"
    "Vp w1 = (Vp w)(NN (Namespace (sp_Meta sp)) (PodService_GetName sp n) \<mapsto> pod)"
    "PVCTemplate (Spec sp1) = PVCTemplate (Spec sp)" "PVNames (Spec sp1) = PVNames (Spec sp)"
    "claim_name sp1 = claim_name sp"
    using run_ExpansionPod_new [OF assms(10,11,12) assms(8) assms(1)] unfolding same_shape_def by metis
  have "claim_volume (Spec sp1)" using assms(8) unfolding claim_volume_name pod(5) .
  then obtain sp2 where nm: "SetPVCName sp1 n = Ret (claim_name sp1 n, sp2)"
    "PVCTemplate (Spec sp2) = Some t" "PVNames (Spec sp2) = []"
    using assms(7,9) pod(3,4) by (metis SetPVCName_claim_name)
  have "\<exists>e sp3. run cl (StatefulPodCtrl_expansionPVC env sp1 n) w1 = (Done (Inl e, sp3), w1)"
  proof -
    obtain pvc where tmpl: "run cl (PVCService_CreateTemplate env sp2 (claim_name sp1 n) n) w1 = (Done (pvc, sp2), w1)"
      using nm by (simp add: PVCService_CreateTemplate_def PVCService_reserve_def)
    obtain e where "pvc_srv cl (Create pvc) w1 = (Inl e, w1)" using assms(14) by blast
    then show ?thesis using nm tmpl assms(7,13) pod(3)
      by (simp add: StatefulPodCtrl_expansionPVC_def PVCCtrl_ExpansionPVC_def PVCService_GetName_def
          PVCService_IsExists_def PVCCtrl_createClaim_def PVCService_Create_def)
  qed
  then obtain e sp3 where "run cl (StatefulPodCtrl_expansionPVC env sp1 n) w1 = (Done (Inl e, sp3), w1)" by blast
  then have first: "run cl (StatefulPodCtrl_CoreCtrl env fuel sp) w = (Done (result0, None), w1)"
    unfolding core by (simp add: StatefulPodCtrl_expansion_def svc pod(1))
  have "Vp w1 (NN (Namespace (sp_Meta sp)) (PodService_GetName sp n)) = Some pod" using pod(2) by simp
  then have "run cl (PodCtrl_ExpansionPod env sp n) w1 = (Done (Inl (ErrorsNew ''''), sp), w1)"
    by (rule run_ExpansionPod_existing [OF assms(10)]) (simp add: assms(3))
  then have "run cl (StatefulPodCtrl_CoreCtrl env fuel sp) w1 = (Done (requeue_now, None), w1)"
    unfolding core by (simp add: StatefulPodCtrl_expansion_def svc)
  with first pod(2) show ?thesis by blast
qed

definition quota_client :: "world client" where
  "quota_client = mem_client\<lparr>pvc_srv := (\<lambda>r w. (case r of Get nn \<Rightarrow> Inl NotFound | _ \<Rightarrow> Inl (ApiError ''Forbidden''), w))\<rparr>"

theorem refused_claim_strands_pod_witness:
  "\<exists>w'. run quota_client (StatefulPodCtrl_CoreCtrl demo_env 2 growing_sp) empty_world = (Done (result0, None), w') \<and>
    run quota_client (StatefulPodCtrl_CoreCtrl demo_env 2 growing_sp) w' = (Done (requeue_now, None), w')"
proof -
  have q: "reads (pod_srv quota_client) pods" "accepts pod_Meta (pod_srv quota_client) pods"
    "pvc_srv quota_client (Get nn) w = (Inl NotFound, w)" "\<exists>e. pvc_srv quota_client (Create c) w = (Inl e, w)" for nn c w
    by (simp_all add: quota_client_def)
  have none: "pods empty_world nn = None" for nn by (simp add: empty_world_def)
  have "\<exists>pod w'. run quota_client (StatefulPodCtrl_CoreCtrl demo_env 2 growing_sp) empty_world = (Done (result0, None), w') \<and>
    pods w' = (pods empty_world)(NN (Namespace (sp_Meta growing_sp)) (PodService_GetName growing_sp 1) \<mapsto> pod) \<and>
    run quota_client (StatefulPodCtrl_CoreCtrl demo_env 2 growing_sp) w' = (Done (requeue_now, None), w')"
    using growing_sp_simps(3) growing_sp_settled
    by (intro refused_claim_strands_pod [OF growing_sp_simps(1,2) _ _ _ _ growing_sp_simps(5,6,4) q(1,2) none q(3,4)])
      (simp_all add: growing_sp_simps(8))
  then show ?thesis by blast
qed

text \<open>A claim template without a storage class makes the program panic, and only after the claim was created: the
  class is read through the nil pointer when the status entry is filled in.\<close>

theorem missing_storage_class_panics:
  assumes "reads (pvc_srv cl) Vc" "accepts pvc_Meta (pvc_srv cl) Vc" "PVCTemplate (Spec sp) = Some t"
    "StorageClassName t = None" "PVNames (Spec sp) = []" "claim_volume (Spec sp)"
    "Vc w (NN (Namespace (sp_Meta sp)) (claim_name sp i)) = None"
  shows "\<exists>pvc w'. run cl (StatefulPodCtrl_expansionPVC env sp i) w = (Panicked NilDereference, w') \<and>
    Vc w' = (Vc w)(NN (Namespace (sp_Meta sp)) (claim_name sp i) \<mapsto> pvc)"
proof -
  obtain sp1 where nm: "SetPVCName sp i = Ret (claim_name sp i, sp1)" "sp_Meta sp1 = sp_Meta sp"
    "PVCTemplate (Spec sp1) = Some t" "PVNames (Spec sp1) = []"
    using assms(3,5,6) by (metis SetPVCName_claim_name)
  obtain pvc where tmpl: "run cl (PVCService_CreateTemplate env sp1 (claim_name sp i) i) w = (Done (pvc, sp1), w)"
    "Namespace (pvc_Meta pvc) = Namespace (sp_Meta sp)" "Name (pvc_Meta pvc) = claim_name sp i"
    using nm by (simp add: PVCService_CreateTemplate_def PVCService_reserve_def)
  then have "Vc w (NN (Namespace (pvc_Meta pvc)) (Name (pvc_Meta pvc))) = None" using assms(7) by simp
  then obtain y w' where y: "pvc_srv cl (Create pvc) w = (Inr y, w')"
    "Vc w' = (Vc w)(NN (Namespace (sp_Meta sp)) (claim_name sp i) \<mapsto> y)"
    using accepts_Create [OF assms(2)] tmpl(2,3) by metis
  have "run cl (StatefulPodCtrl_expansionPVC env sp i) w = (Panicked NilDereference, w')"
    using nm y(1) tmpl(1) assms(3,4,7)
    by (simp add: StatefulPodCtrl_expansionPVC_def PVCCtrl_ExpansionPVC_def PVCService_GetName_def
        pvc_reader.IsExists_reads [OF assms(1)] PVCCtrl_createClaim_def PVCService_Create_def)
  with y(2) show ?thesis by blast
qed

theorem missing_storage_class_panics_witness:
  "\<exists>w'. run mem_client (StatefulPodCtrl_expansionPVC demo_env ((demo_sp 1 [])\<lparr>Spec := (Spec (demo_sp 1 []))\<lparr>PVCTemplate :=
      Some (demo_claim\<lparr>StorageClassName := None\<rparr>)\<rparr>\<rparr>) 0) empty_world = (Panicked NilDereference, w')"
proof -
  define sp where "sp = (demo_sp 1 [])\<lparr>Spec := (Spec (demo_sp 1 []))\<lparr>PVCTemplate := Some (demo_claim\<lparr>StorageClassName := None\<rparr>)\<rparr>\<rparr>"
  have sp: "PVCTemplate (Spec sp) = Some (demo_claim\<lparr>StorageClassName := None\<rparr>)" "PVNames (Spec sp) = []" "claim_volume (Spec sp)"
    by (simp_all add: sp_def demo_defs claim_volume_def)
  have none: "claims empty_world nn = None" for nn by (simp add: empty_world_def)
  have "StorageClassName (demo_claim\<lparr>StorageClassName := None\<rparr>) = None" by simp
  from missing_storage_class_panics [where Vc = claims, OF mem_reads(3) mem_accepts(2) sp(1) this sp(2,3) none, of demo_env]
  show ?thesis unfolding sp_def by blast
qed

text \<open>C37: a reserved volume leaks into later claims. When the claim of ordinal \<open>i\<close> takes one of the user's
  volumes, the name is written into the StatefulPod's own claim template, so the claim of every ordinal that has no
  volume of its own then asks for the same volume.\<close>

theorem reserved_volume_leaks:
  assumes "0 \<le> i" "i < int (length (PVNames (Spec sp)))" "PVCTemplate (Spec sp) = Some t"
    "run cl (IsPvCanUse env (NN '''' (PVNames (Spec sp) ! nat i))) w = (Done (Some node), w1)"
    "int (length (PVNames (Spec sp))) \<le> j"
  shows "\<exists>pvc sp'. run cl (PVCService_CreateTemplate env sp nm i) w = (Done (pvc, sp'), w1) \<and>
    VolumeName (pvc_Spec pvc) = PVNames (Spec sp) ! nat i \<and>
    (\<forall>w2. \<exists>pvc2. run cl (PVCService_CreateTemplate env sp' nm' j) w2 = (Done (pvc2, sp'), w2) \<and>
       VolumeName (pvc_Spec pvc2) = PVNames (Spec sp) ! nat i)"
proof -
  have "PVNames (Spec sp) \<noteq> []" using assms(1,2) by auto
  then show ?thesis using assms by (simp add: PVCService_CreateTemplate_def PVCService_reserve_def go_index_def)
qed

theorem reserved_volume_leaks_witness:
  "\<exists>pvc sp' pvc2. run (mem_client\<lparr>pv_srv := (\<lambda>r w. (Inr \<lparr>pv_Meta = demo_meta\<lparr>Annotations := Some [(''kubevirt.io/provisionOnNode'', '''')]\<rparr>,
        pv_ReclaimPolicy = ''Retain'', pv_StorageClassName = '''', pv_ClaimRef = None, pv_Phase = ''Available'', pv_rest = ''''\<rparr>, w))\<rparr>)
      (PVCService_CreateTemplate demo_env ((demo_sp_claims 2 [])\<lparr>Spec := (Spec (demo_sp_claims 2 []))\<lparr>PVNames := [''pv-a'']\<rparr>\<rparr>) ''data-db-0'' 0) empty_world
      = (Done (pvc, sp'), empty_world) \<and>
    run mem_client (PVCService_CreateTemplate demo_env sp' ''data-db-1'' 1) empty_world = (Done (pvc2, sp'), empty_world) \<and>
    VolumeName (pvc_Spec pvc2) = ''pv-a''"
proof -
  define cl where "cl = mem_client\<lparr>pv_srv := (\<lambda>r w. (Inr \<lparr>pv_Meta = demo_meta\<lparr>Annotations := Some [(''kubevirt.io/provisionOnNode'', '''')]\<rparr>,
        pv_ReclaimPolicy = ''Retain'', pv_StorageClassName = '''', pv_ClaimRef = None, pv_Phase = ''Available'', pv_rest = ''''\<rparr>, w))\<rparr>"
  define sp where "sp = (demo_sp_claims 2 [])\<lparr>Spec := (Spec (demo_sp_claims 2 []))\<lparr>PVNames := [''pv-a'']\<rparr>\<rparr>"
  have sp: "PVNames (Spec sp) = [''pv-a'']" "PVCTemplate (Spec sp) = Some demo_claim"
    by (simp_all add: sp_def demo_sp_claims_def Let_def)
  have use: "run cl (IsPvCanUse demo_env (NN '''' (PVNames (Spec sp) ! nat 0))) empty_world = (Done (Some ''''), empty_world)"
    by (simp add: IsPvCanUse_def IsNodeReady_def cl_def)
  have "0 < int (length (PVNames (Spec sp)))" "int (length (PVNames (Spec sp))) \<le> 1" by (simp_all add: sp(1))
  from reserved_volume_leaks [OF order_refl this(1) sp(2) use this(2), of "''data-db-0''" "''data-db-1''"]
  obtain pvc sp' where q: "run cl (PVCService_CreateTemplate demo_env sp ''data-db-0'' 0) empty_world = (Done (pvc, sp'), empty_world)"
    "\<forall>w2. \<exists>pvc2. run cl (PVCService_CreateTemplate demo_env sp' ''data-db-1'' 1) w2 = (Done (pvc2, sp'), w2) \<and>
       VolumeName (pvc_Spec pvc2) = PVNames (Spec sp) ! nat 0" by blast
  then obtain pvc2 where r: "run cl (PVCService_CreateTemplate demo_env sp ''data-db-0'' 0) empty_world = (Done (pvc, sp'), empty_world)"
    "run cl (PVCService_CreateTemplate demo_env sp' ''data-db-1'' 1) empty_world = (Done (pvc2, sp'), empty_world)"
    "VolumeName (pvc_Spec pvc2) = ''pv-a''" by (metis sp(1) nat_0 nth_Cons_0)
  then have "PVNames (Spec sp') = [''pv-a'']"
    by (auto simp: PVCService_CreateTemplate_def PVCService_reserve_def sp use [unfolded sp(1), simplified] go_index_def)
  with r(2) have "run mem_client (PVCService_CreateTemplate demo_env sp' ''data-db-1'' 1) empty_world = (Done (pvc2, sp'), empty_world)"
    by (auto simp: PVCService_CreateTemplate_def PVCService_reserve_def go_deref_def split: option.splits)
  with r show ?thesis unfolding cl_def sp_def by blast
qed

end
