(* ===== verification/Shrinking.thy ===== *)
theory Shrinking
  imports GrowthCases
begin

text \<open>
  One step of shrinking, case by case, and what it does when the last ordinal is not settled; then
  the removal of a StatefulPod: its children first, its finalizer last.
\<close>

section \<open>Shrinking\<close>

lemma run_ShrinkPod:
  assumes "reads (pod_srv cl) Vp"
  shows "run cl (PodCtrl_ShrinkPod sp i) w = (case Vp w (NN (Namespace (sp_Meta sp)) (PodService_GetName sp i)) of
      None \<Rightarrow> (Done True, w)
    | Some pod \<Rightarrow> (Done False, snd (pod_srv cl (Delete pod []) w)))"
  by (auto simp: PodCtrl_ShrinkPod_def Let_def pod_reader.IsExists_reads [OF assms] run_PodService_Delete
      split: option.split prod.split sum.split)

lemma run_PVCCtrl_remove:
  assumes "reads (pvc_srv cl) Vc"
  shows "run cl (PVCCtrl_remove nn) w = (case Vc w nn of
      None \<Rightarrow> (Done True, w)
    | Some pvc \<Rightarrow> (Done False, snd (pvc_srv cl (Delete pvc []) w)))"
  by (auto simp: PVCCtrl_remove_def pvc_reader.IsExists_reads [OF assms] run_PVCService_Delete
      split: option.split prod.split sum.split)

text \<open>The claim of the ordinal that is to go, if the StatefulPod has claims and it is still there.\<close>

definition claim_left :: "StatefulPod \<Rightarrow> (NamespacedName \<Rightarrow> PVC option) \<Rightarrow> int \<Rightarrow> PVC option" where
  "claim_left sp V i = (if PVCTemplate (Spec sp) = None then None else V (NN (Namespace (sp_Meta sp)) (claim_name sp i)))"

lemma run_shrink_claim:
  assumes "reads (pvc_srv cl) Vc" "PVCTemplate (Spec sp) \<noteq> None \<Longrightarrow> claim_volume (Spec sp)"
  shows "\<exists>sp'. Status sp' = Status sp \<and> same_shape sp sp' \<and>
    run cl (if PVCTemplate (Spec sp) \<noteq> None then PVCCtrl_ShrinkPVC sp i else Ret (True, sp)) w =
      (case claim_left sp (Vc w) i of
         None \<Rightarrow> (Done (True, sp'), w)
       | Some pvc \<Rightarrow> (Done (False, sp'), snd (pvc_srv cl (Delete pvc []) w)))"
proof (cases "PVCTemplate (Spec sp) = None")
  case True
  then show ?thesis by (intro exI [of _ sp]) (simp add: claim_left_def same_shape_def)
next
  case False
  obtain sp' where "SetPVCName sp i = Ret (claim_name sp i, sp')" "same_shape sp sp'" "Status sp' = Status sp"
    by (rule SetPVCName_shape [OF assms(2) [OF False], of i])
  with False show ?thesis
    by (intro exI [of _ sp']) (auto simp: claim_left_def PVCCtrl_ShrinkPVC_def PVCService_GetName_def same_shape_key
        run_PVCCtrl_remove [OF assms(1)] split: option.split)
qed

lemma shrink_steps:
  assumes "cooperative cl Vs Vp Vc" "wf_sp sp" "Size (Spec sp) = Some sz"
    "n = settled (int_of_int32 sz) (phases_of sp)" "int_of_int32 sz < n" "0 \<le> int_of_int32 sz"
    "PVCTemplate (Spec sp) \<noteq> None \<Longrightarrow> claim_volume (Spec sp)" "Vs w (sp_key sp) = Some cur" "2 \<le> fuel"
  shows "case Vp w (NN (Namespace (sp_Meta sp)) (PodService_GetName sp (n - 1))) of
      Some pod \<Rightarrow> run cl (StatefulPodCtrl_CoreCtrl env fuel sp) w = (Done (requeue_wait, None), snd (pod_srv cl (Delete pod []) w))
    | None \<Rightarrow> (case claim_left sp (Vc w) (n - 1) of
        Some pvc \<Rightarrow> run cl (StatefulPodCtrl_CoreCtrl env fuel sp) w = (Done (requeue_wait, None), snd (pvc_srv cl (Delete pvc []) w))
      | None \<Rightarrow> (\<exists>sp' w'. run cl (StatefulPodCtrl_CoreCtrl env fuel sp) w = (Done (result0, None), w') \<and>
          Vs w' = (Vs w)(sp_key sp := written (sp_Meta cur) sp') \<and> pods_of sp' = take (nat (n - 1)) (pods_of sp) \<and>
          pvcs_of sp' = take (nat (n - 1)) (pvcs_of sp) \<and> same_shape sp sp' \<and> Vp w' = Vp w \<and> Vc w' = Vc w))"
proof -
  note c = cooperativeD [OF assms(1)]
  have core: "StatefulPodCtrl_CoreCtrl env fuel sp = StatefulPodCtrl_shrink fuel sp n"
    by (rule CoreCtrl_shrink [OF assms(2-5)])
  have n: "0 \<le> n - 1" "n - 1 \<le> int (length (pods_of sp))"
    using assms(4-6) settled_bounds [of "int_of_int32 sz" "phases_of sp"] phases_length [OF assms(2)] by linarith+
  show ?thesis
  proof (cases "Vp w (NN (Namespace (sp_Meta sp)) (PodService_GetName sp (n - 1)))")
    case (Some pod)
    then show ?thesis unfolding core by (simp add: StatefulPodCtrl_shrink_def run_ShrinkPod [OF c(2)])
  next
    case None
    obtain sp1 where sp1: "Status sp1 = Status sp" "same_shape sp sp1"
      "run cl (if PVCTemplate (Spec sp) \<noteq> None then PVCCtrl_ShrinkPVC sp (n - 1) else Ret (True, sp)) w =
        (case claim_left sp (Vc w) (n - 1) of None \<Rightarrow> (Done (True, sp1), w)
         | Some pvc \<Rightarrow> (Done (False, sp1), snd (pvc_srv cl (Delete pvc []) w)))"
      using run_shrink_claim [where Vc = Vc and cl = cl and sp = sp and i = "n - 1" and w = w, OF c(4) assms(7)] by blast
    have shrink: "run cl (StatefulPodCtrl_shrink fuel sp n) w = (case claim_left sp (Vc w) (n - 1) of
        None \<Rightarrow> run cl (bnd (StatefulPodService_Update fuel (set_pvcs (take (nat (n - 1)) (pvcs_of sp))
            (set_pods (take (nat (n - 1)) (pods_of sp)) sp1))) (\<lambda>r. case r of
              Inl err \<Rightarrow> Ret (requeue_wait, None) | Inr s \<Rightarrow> Ret (result0, None))) w
      | Some pvc \<Rightarrow> (Done (requeue_wait, None), snd (pvc_srv cl (Delete pvc []) w)))"
      unfolding StatefulPodCtrl_shrink_def
      using None n sp1 wf_status_length [OF assms(2)]
      by (simp only: run_bnd run_ShrinkPod [OF c(2)]) (auto simp: go_slice_to_def split: option.split)
    show ?thesis
    proof (cases "claim_left sp (Vc w) (n - 1)")
      case (Some pvc)
      with None show ?thesis unfolding core shrink by simp
    next
      case cl: None
      define sp3 where "sp3 = set_pvcs (take (nat (n - 1)) (pvcs_of sp)) (set_pods (take (nat (n - 1)) (pods_of sp)) sp1)"
      have k3: "sp_key sp3 = sp_key sp" using sp1(2) by (simp add: sp3_def same_shape_def)
      then have "Vs w (sp_key sp3) = Some cur" using assms(8) by simp
      then obtain sp' w' where u: "run cl (StatefulPodService_Update fuel sp3) w = (Done (Inr sp'), w')"
        "Vs w' = (Vs w)(sp_key sp3 := written (sp_Meta cur) sp')" "accepted cur sp3 sp'"
        by (rule run_Update_write [OF c(1) _ assms(9)])
      have upd: "run cl (StatefulPodService_Update fuel sp3) w = (Done (Inr sp'), w')"
        "Vs w' = (Vs w)(sp_key sp := written (sp_Meta cur) sp')" "Status sp' = Status sp3" "Spec sp' = Spec sp3" "sp_key sp' = sp_key sp3"
        "Finalizers (sp_Meta sp') = Finalizers (sp_Meta sp3)"
        using u k3 by (simp_all add: accepted_def)
      have shape: "same_shape sp sp'"
        by (rule same_shape_trans [OF sp1(2) same_shape_stored]) (simp_all add: upd(4-6) sp3_def)
      have frame: "Vp w' = Vp w" "Vc w' = Vc w"
        using run_Update_frame [OF c(10) upd(1)] run_Update_frame [OF c(11) upd(1)] by simp_all
      have "run cl (StatefulPodCtrl_shrink fuel sp n) w = (Done (result0, None), w')"
        unfolding shrink cl sp3_def [symmetric] by (simp add: upd(1))
      with None cl upd(1-3) frame shape show ?thesis unfolding core
        by (auto simp: sp3_def intro!: exI [of _ sp'] exI [of _ w'])
    qed
  qed
qed

text \<open>C18: shrinking when more ordinals \<open>n\<close> are settled than asked for. While the pod of ordinal \<open>n - 1\<close>
  exists the call deletes it and comes back later; once it is gone the call does the same with the
  claim; and only when both are gone is the StatefulPod written with its two status lists
  cut back to the first \<open>n - 1\<close> ordinals (and stored, whatever version \<open>cur\<close> was there, unless \<open>cur\<close> is being deleted and the copy has
  none of its finalizers left: then the server lets it go). No other pod or claim is touched.\<close>

theorem shrink_step:
  assumes "cooperative cl Vs Vp Vc" "wf_sp sp" "Size (Spec sp) = Some sz"
    "n = settled (int_of_int32 sz) (phases_of sp)" "int_of_int32 sz < n" "0 \<le> int_of_int32 sz"
    "PVCTemplate (Spec sp) \<noteq> None \<Longrightarrow> claim_volume (Spec sp)" "Vs w (sp_key sp) = Some cur" "2 \<le> fuel"
  shows "case Vp w (NN (Namespace (sp_Meta sp)) (PodService_GetName sp (n - 1))) of
      Some pod \<Rightarrow> run cl (StatefulPodCtrl_CoreCtrl env fuel sp) w = (Done (requeue_wait, None), snd (pod_srv cl (Delete pod []) w))
    | None \<Rightarrow> (case claim_left sp (Vc w) (n - 1) of
        Some pvc \<Rightarrow> run cl (StatefulPodCtrl_CoreCtrl env fuel sp) w = (Done (requeue_wait, None), snd (pvc_srv cl (Delete pvc []) w))
      | None \<Rightarrow> (\<exists>sp' w'. run cl (StatefulPodCtrl_CoreCtrl env fuel sp) w = (Done (result0, None), w') \<and>
          Vs w' = (Vs w)(sp_key sp := written (sp_Meta cur) sp') \<and> pods_of sp' = take (nat (n - 1)) (pods_of sp) \<and>
          pvcs_of sp' = take (nat (n - 1)) (pvcs_of sp) \<and> same_shape sp sp' \<and> Vp w' = Vp w \<and> Vc w' = Vc w))"
  using assms by (rule shrink_steps)

text \<open>The StatefulPod of the witnesses: three ordinals, the last of them as given, with size 1.\<close>

definition shrinking_sp :: "PVCPhase \<Rightarrow> StatefulPod" where
  "shrinking_sp v = demo_sp_claims 1 [(''Running'', ''Bound''), (''Running'', ''Bound''), (''Running'', v)]"

lemma shrinking_sp_simps:
  "wf_sp (shrinking_sp v)" "Size (Spec (shrinking_sp v)) = Some (int32_of 1)" "claim_volume (Spec (shrinking_sp v))"
  "sp_key (shrinking_sp v) = NN ''ns'' ''db''" "length (pods_of (shrinking_sp v)) = 3"
  by (simp_all add: shrinking_sp_def claim_volume_def) (simp_all add: demo_defs Let_def)

lemma shrinking_sp_settled:
  "settled (int_of_int32 (int32_of 1)) (phases_of (shrinking_sp ''Bound'')) = 3"
  "settled (int_of_int32 (int32_of 1)) (phases_of (shrinking_sp ''Pending'')) = 2" "int_of_int32 (int32_of 1) = 1"
  by (simp_all add: settled_def phases_of_def shrinking_sp_def demo_sp_def demo_sp_claims_def int_of_int32_of Let_def)

theorem shrink_step_witness:
  "\<exists>sp' w'. run mem_client (StatefulPodCtrl_CoreCtrl demo_env 2 (shrinking_sp ''Bound''))
      (empty_world\<lparr>sps := (\<lambda>_. None)(NN ''ns'' ''db'' \<mapsto> shrinking_sp ''Bound'')\<rparr>) = (Done (result0, None), w') \<and>
    sps w' (NN ''ns'' ''db'') = Some sp' \<and> length (pods_of sp') = 2"
proof -
  define sp where "sp = shrinking_sp ''Bound''"
  note sp = shrinking_sp_simps [of "''Bound''", folded sp_def] shrinking_sp_settled(1) [folded sp_def]
  define w0 where "w0 = empty_world\<lparr>sps := (\<lambda>_. None)(NN ''ns'' ''db'' \<mapsto> sp)\<rparr>"
  have w0: "sps w0 (sp_key sp) = Some sp" "pods w0 nn = None" "claim_left sp (claims w0) i = None" for nn i
    unfolding sp(4) by (simp_all add: w0_def empty_world_def claim_left_def)
  have "\<exists>sp' w'. run mem_client (StatefulPodCtrl_CoreCtrl demo_env 2 sp) w0 = (Done (result0, None), w') \<and>
          sps w' = (sps w0)(sp_key sp \<mapsto> sp') \<and> pods_of sp' = take (nat (3 - 1)) (pods_of sp)"
    using shrink_step [OF mem_cooperative sp(1,2) sp(6) [symmetric] _ _ sp(3) w0(1), of 2 demo_env] shrinking_sp_settled(3)
    by (auto simp: w0)
  then obtain sp' w' where r: "run mem_client (StatefulPodCtrl_CoreCtrl demo_env 2 sp) w0 = (Done (result0, None), w')"
    "sps w' = (sps w0)(sp_key sp \<mapsto> sp')" "pods_of sp' = take (nat (3 - 1)) (pods_of sp)" by blast
  then have "sps w' (NN ''ns'' ''db'') = Some sp'" "length (pods_of sp') = 2" unfolding sp(4) by (simp_all add: sp(5))
  with r(1) show ?thesis unfolding w0_def sp_def by blast
qed

text \<open>C38: shrinking with an unsettled last ordinal skips it. When the last of \<open>m\<close> ordinals timed out or has a pending claim and
  at least two have to go, the step works on ordinal \<open>m - 2\<close>: with that ordinal's pod and claim gone it drops both
  last entries at once, while the pod and the claim of ordinal \<open>m - 1\<close> are neither looked up nor
  deleted: they stay without a status entry.\<close>

theorem shrink_orphans_unsettled:
  assumes "cooperative cl Vs Vp Vc" "wf_sp sp" "Size (Spec sp) = Some sz" "m = length (pods_of sp)"
    "settled (int_of_int32 sz) (phases_of sp) = int m - 1" "int_of_int32 sz < int m - 1" "0 \<le> int_of_int32 sz"
    "PVCTemplate (Spec sp) \<noteq> None \<Longrightarrow> claim_volume (Spec sp)" "Vs w (sp_key sp) = Some cur" "2 \<le> fuel"
    "Vp w (NN (Namespace (sp_Meta sp)) (PodService_GetName sp (int m - 2))) = None"
    "claim_left sp (Vc w) (int m - 2) = None"
  shows "\<exists>sp' w'. run cl (StatefulPodCtrl_CoreCtrl env fuel sp) w = (Done (result0, None), w') \<and>
    Vs w' = (Vs w)(sp_key sp := written (sp_Meta cur) sp') \<and> length (pods_of sp') = m - 2 \<and> Vp w' = Vp w \<and> Vc w' = Vc w"
proof -
  have "int m - 1 - 1 = int m - 2" by simp
  then have "\<exists>sp' w'. run cl (StatefulPodCtrl_CoreCtrl env fuel sp) w = (Done (result0, None), w') \<and>
      Vs w' = (Vs w)(sp_key sp := written (sp_Meta cur) sp') \<and> pods_of sp' = take (nat (int m - 2)) (pods_of sp) \<and> Vp w' = Vp w \<and> Vc w' = Vc w"
    using shrink_steps [OF assms(1-3) assms(5) [symmetric] assms(6-10), of env] assms(11,12) by auto
  moreover have "nat (int m - 2) = m - 2" by simp
  ultimately obtain sp' w' where r: "run cl (StatefulPodCtrl_CoreCtrl env fuel sp) w = (Done (result0, None), w')"
    "Vs w' = (Vs w)(sp_key sp := written (sp_Meta cur) sp')" "pods_of sp' = take (m - 2) (pods_of sp)" "Vp w' = Vp w" "Vc w' = Vc w" by metis
  then have "length (pods_of sp') = m - 2" using assms(4) by simp
  with r show ?thesis by blast
qed

theorem shrink_orphans_unsettled_witness:
  "\<exists>sp' w'. run mem_client (StatefulPodCtrl_CoreCtrl demo_env 2 (shrinking_sp ''Pending''))
      (empty_world\<lparr>sps := (\<lambda>_. None)(NN ''ns'' ''db'' \<mapsto> shrinking_sp ''Pending''),
        pods := (\<lambda>_. None)(NN ''ns'' ''db-2'' \<mapsto> demo_pod ''db-2'' ''2'' ''Running'')\<rparr>) = (Done (result0, None), w') \<and>
    sps w' (NN ''ns'' ''db'') = Some sp' \<and> length (pods_of sp') = 1 \<and> pods w' (NN ''ns'' ''db-2'') \<noteq> None"
proof -
  define sp where "sp = shrinking_sp ''Pending''"
  note sp = shrinking_sp_simps [of "''Pending''", folded sp_def] shrinking_sp_settled(2) [folded sp_def]
  define w0 where "w0 = empty_world\<lparr>sps := (\<lambda>_. None)(NN ''ns'' ''db'' \<mapsto> sp),
        pods := (\<lambda>_. None)(NN ''ns'' ''db-2'' \<mapsto> demo_pod ''db-2'' ''2'' ''Running'')\<rparr>"
  have "Itoa 1 = ''1''" by code_simp
  then have nm: "PodService_GetName sp 1 = ''db-1''" using sp(4) by (simp add: PodService_GetName_def)
  have w0: "sps w0 (sp_key sp) = Some sp" "pods w0 (NN (Namespace (sp_Meta sp)) (PodService_GetName sp (int 3 - 2))) = None"
    "claim_left sp (claims w0) i = None" "pods w0 (NN ''ns'' ''db-2'') \<noteq> None" for i
    unfolding sp(4) by (simp_all add: w0_def empty_world_def claim_left_def nm)
  have "\<exists>sp' w'. run mem_client (StatefulPodCtrl_CoreCtrl demo_env 2 sp) w0 = (Done (result0, None), w') \<and>
          sps w' = (sps w0)(sp_key sp := written (sp_Meta sp) sp') \<and> length (pods_of sp') = 3 - 2 \<and> pods w' = pods w0 \<and> claims w' = claims w0"
    by (rule shrink_orphans_unsettled [OF mem_cooperative sp(1,2) sp(5) [symmetric] _ _ _ sp(3) w0(1) _ w0(2,3)])
      (simp_all add: sp(6) [unfolded shrinking_sp_settled(3)] shrinking_sp_settled(3))
  moreover have "written (sp_Meta sp) x = Some x" for x by (simp add: sp_def shrinking_sp_def demo_defs Let_def)
  ultimately obtain sp' w' where r: "run mem_client (StatefulPodCtrl_CoreCtrl demo_env 2 sp) w0 = (Done (result0, None), w')"
    "sps w' = (sps w0)(sp_key sp \<mapsto> sp')" "length (pods_of sp') = 3 - 2" "pods w' = pods w0" by auto
  then have "sps w' (NN ''ns'' ''db'') = Some sp'" "length (pods_of sp') = 1" unfolding sp(4) by simp_all
  with r w0(4) show ?thesis unfolding w0_def sp_def by metis
qed
end
