(* ===== verification/Removal.thy ===== *)
theory Removal
  imports Shrinking
begin

text \<open>
  The removal of a StatefulPod: volumes, pods and claims first, the finalizer last.
\<close>

section \<open>Pods and claims\<close>

lemma DeletePodAll_frame:
  assumes "\<And>r w. F (snd (pod_srv cl r w)) = F w"
  shows "run cl (PodCtrl_DeletePodAll_loop ns ps cnt) w = (x, w') \<Longrightarrow> F w' = F w"
proof (induction ps arbitrary: cnt w)
  case (Cons p ps)
  have snd: "F w2 = F w1" if "pod_srv cl r w1 = (y, w2)" for r w1 y w2
    using assms [of r w1] that by simp
  obtain r w1 where g: "pod_srv cl (Get (NN ns (PodName p))) w = (r, w1)" by fastforce
  show ?case
  proof (cases r)
    case (Inl e)
    with Cons g snd [OF g] show ?thesis by (auto simp: PodService_IsExists_def)
  next
    case (Inr pod)
    obtain r2 w2 where d: "pod_srv cl (Delete pod []) w1 = (r2, w2)" by fastforce
    with Cons g Inr snd [OF g] snd [OF d] show ?thesis
      by (auto simp: PodService_IsExists_def run_PodService_Delete split: sum.splits option.splits)
  qed
qed simp

lemma DeletePvcAll_frame:
  assumes "\<And>r w. F (snd (pvc_srv cl r w)) = F w"
  shows "run cl (PVCCtrl_DeletePvcAll_loop ns ps cnt) w = (x, w') \<Longrightarrow> F w' = F w"
proof (induction ps arbitrary: cnt w)
  case (Cons p ps)
  have snd: "F w2 = F w1" if "pvc_srv cl r w1 = (y, w2)" for r w1 y w2
    using assms [of r w1] that by simp
  obtain r w1 where g: "pvc_srv cl (Get (NN ns (PVCName p))) w = (r, w1)" by fastforce
  show ?case
  proof (cases r)
    case (Inl e)
    with Cons g snd [OF g] show ?thesis by (auto simp: PVCService_IsExists_def)
  next
    case (Inr pvc)
    obtain r2 w2 where d: "pvc_srv cl (Delete pvc []) w1 = (r2, w2)" by fastforce
    with Cons g Inr snd [OF g] snd [OF d] show ?thesis
      by (auto simp: PVCService_IsExists_def run_PVCService_Delete split: sum.splits option.splits)
  qed
qed simp

lemma run_DeletePodAll:
  assumes "reads (pod_srv cl) Vp" "wf_sp sp" "\<And>r w. F (snd (pod_srv cl r w)) = F w"
  shows "\<exists>b w'. run cl (PodCtrl_DeletePodAll sp) w = (Done b, w') \<and> F w' = F w \<and>
    (b \<longleftrightarrow> (\<forall>s \<in> set (pods_of sp). Vp w (NN (Namespace (sp_Meta sp)) (PodName s)) = None)) \<and> (b \<longrightarrow> w' = w)"
proof -
  obtain r w' where r: "run cl (PodCtrl_DeletePodAll_loop (Namespace (sp_Meta sp)) (pods_of sp) 0) w = (Done r, w')"
    using pod_remover.loop_total by metis
  have iff: "r = Some (length (pods_of sp)) \<longleftrightarrow> (\<forall>s \<in> set (pods_of sp). Vp w (NN (Namespace (sp_Meta sp)) (PodName s)) = None)"
    using pod_remover.loop_complete_iff [OF assms(1), of "Namespace (sp_Meta sp)" "pods_of sp" 0 w] r by simp
  moreover have "w' = w" if "r = Some (length (pods_of sp))"
    using pod_remover.loop_absent [OF assms(1), of "pods_of sp" w "Namespace (sp_Meta sp)" 0] that iff r by simp
  moreover have "F w' = F w" by (rule DeletePodAll_frame [OF assms(3) r])
  ultimately show ?thesis
    using r wf_status_length [OF assms(2)] by (cases r) (auto simp: PodCtrl_DeletePodAll_def)
qed

lemma run_DeletePvcAll:
  assumes "reads (pvc_srv cl) Vc" "\<And>r w. F (snd (pvc_srv cl r w)) = F w"
  shows "\<exists>b w'. run cl (PVCCtrl_DeletePvcAll sp) w = (Done b, w') \<and> F w' = F w \<and>
    (b \<longleftrightarrow> (\<forall>s \<in> set (pvcs_of sp). Vc w (NN (Namespace (sp_Meta sp)) (PVCName s)) = None)) \<and> (b \<longrightarrow> w' = w)"
proof -
  obtain r w' where r: "run cl (PVCCtrl_DeletePvcAll_loop (Namespace (sp_Meta sp)) (pvcs_of sp) 0) w = (Done r, w')"
    using pvc_remover.loop_total by metis
  have iff: "r = Some (length (pvcs_of sp)) \<longleftrightarrow> (\<forall>s \<in> set (pvcs_of sp). Vc w (NN (Namespace (sp_Meta sp)) (PVCName s)) = None)"
    using pvc_remover.loop_complete_iff [OF assms(1), of "Namespace (sp_Meta sp)" "pvcs_of sp" 0 w] r by simp
  moreover have "w' = w" if "r = Some (length (pvcs_of sp))"
    using pvc_remover.loop_absent [OF assms(1), of "pvcs_of sp" w "Namespace (sp_Meta sp)" 0] that iff r by simp
  moreover have "F w' = F w" by (rule DeletePvcAll_frame [OF assms(2) r])
  ultimately show ?thesis
    using r by (cases r) (auto simp: PVCCtrl_DeletePvcAll_def)
qed

section \<open>The finalizer goes last\<close>

lemma run_deleteStatefulPod:
  assumes "cooperative cl Vs Vp Vc" "wf_sp sp" "GroupVersion_String \<in> set (Finalizers (sp_Meta sp))"
    "PVRecyclePolicy (Spec sp) \<noteq> ''Retain''" "Vs w (sp_key sp) = Some cur" "2 \<le> fuel"
  shows "if (\<forall>s \<in> set (pods_of sp). Vp w (NN (Namespace (sp_Meta sp)) (PodName s)) = None) \<and>
       (\<forall>s \<in> set (pvcs_of sp). Vc w (NN (Namespace (sp_Meta sp)) (PVCName s)) = None)
    then \<exists>sp' w'. run cl (StatefulPodCtrl_deleteStatefulPod fuel sp) w = (Done (result0, None), w') \<and>
      Vs w' = (Vs w)(sp_key sp := (if \<not> IsZero (DeletionTimestamp (sp_Meta cur)) \<and> Finalizers (sp_Meta cur) \<noteq> [] \<and>
        remove1 GroupVersion_String (Finalizers (sp_Meta sp)) = [] then None else Some sp')) \<and>
      Finalizers (sp_Meta sp') = remove1 GroupVersion_String (Finalizers (sp_Meta sp))
    else \<exists>w'. run cl (StatefulPodCtrl_deleteStatefulPod fuel sp) w = (Done (requeue_wait, None), w') \<and> Vs w' = Vs w"
proof -
  note c = cooperativeD [OF assms(1)]
  have fr: "Vs (snd (pod_srv cl r w)) = Vs w" "Vs (snd (pvc_srv cl r' w)) = Vs w" "Vc (snd (pod_srv cl r w)) = Vc w" for r r' w
    using assms(1) unfolding cooperative_def by blast+
  obtain b1 w1 where p: "run cl (PodCtrl_DeletePodAll sp) w = (Done b1, w1)" "Vs w1 = Vs w"
    "b1 \<longleftrightarrow> (\<forall>s \<in> set (pods_of sp). Vp w (NN (Namespace (sp_Meta sp)) (PodName s)) = None)" "b1 \<longrightarrow> w1 = w"
    using run_DeletePodAll [of cl Vp sp Vs w, OF c(2) assms(2) fr(1)] by blast
  obtain b2 w2 where v: "run cl (PVCCtrl_DeletePvcAll sp) w = (Done b2, w2)" "Vs w2 = Vs w"
    "b2 \<longleftrightarrow> (\<forall>s \<in> set (pvcs_of sp). Vc w (NN (Namespace (sp_Meta sp)) (PVCName s)) = None)" "b2 \<longrightarrow> w2 = w"
    using run_DeletePvcAll [of cl Vc Vs sp w, OF c(4) fr(2)] by blast
  define sp' where "sp' = sp\<lparr>sp_Meta := (sp_Meta sp)\<lparr>Finalizers := remove1 GroupVersion_String (Finalizers (sp_Meta sp))\<rparr>\<rparr>"
  have k': "sp_key sp' = sp_key sp" by (simp add: sp'_def)
  then have "Vs w (sp_key sp') = Some cur" using assms(5) by simp
  then obtain sp2 w3 where u: "run cl (StatefulPodService_Update fuel sp') w = (Done (Inr sp2), w3)"
    "Vs w3 = (Vs w)(sp_key sp' := written (sp_Meta cur) sp2)" "accepted cur sp' sp2"
    by (rule run_Update_write [OF c(1) _ assms(6)])
  have run: "run cl (StatefulPodCtrl_deleteStatefulPod fuel sp) w =
      (if b1 then (if b2 then (Done (result0, None), w3) else (Done (requeue_wait, None), w2)) else (Done (requeue_wait, None), w1))"
    using assms(3,4) p(1,4) v(1,4) u(1) [unfolded sp'_def]
    by (simp add: StatefulPodCtrl_deleteStatefulPod_def PVCtrl_SetPVRetain_def PVCtrl_SetPVAvailable_def Let_def
        del: GroupVersion_String_simp)
  have fin: "Finalizers (sp_Meta sp2) = remove1 GroupVersion_String (Finalizers (sp_Meta sp))" using u(3) by (simp add: sp'_def accepted_def)
  then show ?thesis unfolding run p(3) [symmetric] v(3) [symmetric] using u(2) k' p(2) v(2)
    by (auto simp: written_def let_go_def)
qed

text \<open>C19: for a StatefulPod without retained volumes the finalizer is removed exactly when every pod and every claim of
  its status lists is gone: then one call writes the StatefulPod without the finalizer. The server removes the StatefulPod with that
  if it is being deleted and the program's was the last finalizer; otherwise it stores it with the others. As long as a pod or a claim
  exists the call answers that it wants to come back, and leaves the stored StatefulPod as it is.\<close>

theorem finalizer_removed_last:
  assumes "cooperative cl Vs Vp Vc" "wf_sp sp" "GroupVersion_String \<in> set (Finalizers (sp_Meta sp))"
    "PVRecyclePolicy (Spec sp) \<noteq> ''Retain''" "Vs w (sp_key sp) = Some cur" "2 \<le> fuel"
  shows "if (\<forall>s \<in> set (pods_of sp). Vp w (NN (Namespace (sp_Meta sp)) (PodName s)) = None) \<and>
       (\<forall>s \<in> set (pvcs_of sp). Vc w (NN (Namespace (sp_Meta sp)) (PVCName s)) = None)
    then \<exists>sp' w'. run cl (StatefulPodCtrl_deleteStatefulPod fuel sp) w = (Done (result0, None), w') \<and>
      Vs w' = (Vs w)(sp_key sp := (if \<not> IsZero (DeletionTimestamp (sp_Meta cur)) \<and> Finalizers (sp_Meta cur) \<noteq> [] \<and>
        remove1 GroupVersion_String (Finalizers (sp_Meta sp)) = [] then None else Some sp')) \<and>
      Finalizers (sp_Meta sp') = remove1 GroupVersion_String (Finalizers (sp_Meta sp))
    else \<exists>w'. run cl (StatefulPodCtrl_deleteStatefulPod fuel sp) w = (Done (requeue_wait, None), w') \<and> Vs w' = Vs w"
  by (rule run_deleteStatefulPod [OF assms])

theorem finalizer_removed_last_witness:
  "\<exists>w'. run mem_client (StatefulPodCtrl_deleteStatefulPod 2
      ((demo_sp 1 [(''Running'', '''')])\<lparr>sp_Meta := demo_meta\<lparr>Finalizers := [''iapetos.foundary-cloud.io/v1''], DeletionTimestamp := Some 5\<rparr>\<rparr>))
      (empty_world\<lparr>sps := (\<lambda>_. None)(NN ''ns'' ''db'' \<mapsto> (demo_sp 1 [(''Running'', '''')])\<lparr>sp_Meta :=
        demo_meta\<lparr>Finalizers := [''iapetos.foundary-cloud.io/v1''], DeletionTimestamp := Some 5\<rparr>\<rparr>)\<rparr>) = (Done (result0, None), w') \<and>
    sps w' (NN ''ns'' ''db'') = None"
proof -
  define sp where "sp = (demo_sp 1 [(''Running'', '''')])\<lparr>sp_Meta := demo_meta\<lparr>Finalizers := [''iapetos.foundary-cloud.io/v1''],
    DeletionTimestamp := Some 5\<rparr>\<rparr>"
  define w0 where "w0 = empty_world\<lparr>sps := (\<lambda>_. None)(NN ''ns'' ''db'' \<mapsto> sp)\<rparr>"
  have sp: "wf_sp sp" "GroupVersion_String \<in> set (Finalizers (sp_Meta sp))" "PVRecyclePolicy (Spec sp) \<noteq> ''Retain''"
    "sp_key sp = NN ''ns'' ''db''" "Finalizers (sp_Meta sp) = [''iapetos.foundary-cloud.io/v1'']" "\<not> IsZero (DeletionTimestamp (sp_Meta sp))"
    by (simp_all add: sp_def demo_defs wf_status_def)
  have w0: "sps w0 (sp_key sp) = Some sp" "pods w0 nn = None" "claims w0 nn = None" for nn
    unfolding sp(4) by (simp_all add: w0_def empty_world_def)
  obtain w' where r: "run mem_client (StatefulPodCtrl_deleteStatefulPod 2 sp) w0 = (Done (result0, None), w')"
    "sps w' = (sps w0)(sp_key sp := None)"
    using finalizer_removed_last [OF mem_cooperative sp(1-3) w0(1) order_refl] w0(2,3) sp(5,6) by auto
  then have "sps w' (NN ''ns'' ''db'') = None" unfolding sp(4) by simp
  with r(1) show ?thesis unfolding w0_def sp_def by blast
qed

section \<open>Volumes\<close>

definition volume_key :: "PVCStatus \<Rightarrow> NamespacedName" where
  "volume_key v = NN '''' (PVName v)"

text \<open>A volume that counts as retained, and one that counts as available: gone, or as the loops want it.\<close>

definition retained :: "PV option \<Rightarrow> bool" where
  "retained p = (case p of None \<Rightarrow> True
    | Some pv \<Rightarrow> gomap_get (Annotations (pv_Meta pv)) ''redis-slave'' \<noteq> None \<or> pv_ReclaimPolicy pv = ''Retain'')"

definition available :: "PV option \<Rightarrow> bool" where
  "available p = (case p of None \<Rightarrow> True
    | Some pv \<Rightarrow> gomap_get (Annotations (pv_Meta pv)) ''redis-slave'' = None \<and> pv_Phase pv = ''Available'')"

lemma PVService_Get_reads: "reads (pv_srv cl) V \<Longrightarrow>
    run cl (PVService_Get nn) w = (Done (case V w nn of None \<Rightarrow> Inl NotFound | Some pv \<Rightarrow> Inr pv), w)"
  by (simp add: PVService_Get_def reads_Get split: option.split)

text \<open>
  What the two loops share: an entry whose volume is as wanted is counted and nothing is written;
  for another the loop goes on without counting it, or ends there.
\<close>

locale counter =
  fixes srv :: "'w client \<Rightarrow> PV req \<Rightarrow> 'w \<Rightarrow> PV resp \<times> 'w"
    and loop :: "PVCStatus list \<Rightarrow> nat \<Rightarrow> nat option prog" and ok :: "PV option \<Rightarrow> bool"
  assumes loop_Nil: "loop [] cnt = Ret (Some cnt)"
    and loop_ok: "reads (srv cl) V \<Longrightarrow> ok (V w (volume_key v)) \<Longrightarrow>
      run cl (loop (v # vs) cnt) w = run cl (loop vs (Suc cnt)) w"
    and loop_not: "reads (srv cl) V \<Longrightarrow> \<not> ok (V w (volume_key v)) \<Longrightarrow>
      (\<exists>w2. run cl (loop (v # vs) cnt) w = run cl (loop vs cnt) w2) \<or>
      (\<exists>r w2. run cl (loop (v # vs) cnt) w = (Done r, w2) \<and> (\<forall>n. r = Some n \<longrightarrow> n \<le> cnt))"
begin

lemma loop_bound:
  assumes "reads (srv cl) V"
  shows "\<exists>r w'. run cl (loop vs cnt) w = (Done r, w') \<and> (\<forall>n. r = Some n \<longrightarrow> n \<le> cnt + length vs)"
proof (induction vs arbitrary: cnt w)
  case Nil
  then show ?case by (simp add: loop_Nil)
next
  case (Cons v vs)
  show ?case
  proof (cases "ok (V w (volume_key v))")
    case True
    then show ?thesis using Cons.IH [of "Suc cnt" w] loop_ok [OF assms True, of vs cnt] by simp
  next
    case False
    from loop_not [OF assms False, of vs cnt] show ?thesis
    proof (elim disjE exE conjE)
      fix w2 assume "run cl (loop (v # vs) cnt) w = run cl (loop vs cnt) w2"
      then show ?thesis using Cons.IH [of cnt w2] by fastforce
    qed fastforce
  qed
qed

lemma loop_full:
  assumes "reads (srv cl) V" "\<forall>v \<in> set vs. ok (V w (volume_key v))"
  shows "run cl (loop vs cnt) w = (Done (Some (cnt + length vs)), w)"
  using assms(2) by (induction vs arbitrary: cnt) (simp_all add: loop_Nil loop_ok [OF assms(1)])

lemma loop_full_iff:
  assumes "reads (srv cl) V"
  shows "(\<exists>w'. run cl (loop vs cnt) w = (Done (Some (cnt + length vs)), w')) \<longleftrightarrow> (\<forall>v \<in> set vs. ok (V w (volume_key v)))"
    (is "?L vs cnt \<longleftrightarrow> ?R vs")
proof (intro iffI)
  show "?L vs cnt \<Longrightarrow> ?R vs"
  proof (induction vs arbitrary: cnt)
    case (Cons v vs)
    show ?case
    proof (cases "ok (V w (volume_key v))")
      case True
      with Cons.prems loop_ok [OF assms True, of vs cnt] have "?L vs (Suc cnt)" by simp
      from Cons.IH [OF this] True show ?thesis by simp
    next
      case False
      obtain w' where full: "run cl (loop (v # vs) cnt) w = (Done (Some (cnt + length (v # vs))), w')"
        using Cons.prems by blast
      from loop_not [OF assms False, of vs cnt] have False
      proof (elim disjE exE conjE)
        fix w2 assume eq: "run cl (loop (v # vs) cnt) w = run cl (loop vs cnt) w2"
        obtain r w3 where "run cl (loop vs cnt) w2 = (Done r, w3)" "\<forall>n. r = Some n \<longrightarrow> n \<le> cnt + length vs"
          using loop_bound [OF assms] by blast
        with full eq show False by auto
      next
        fix r w2 assume "run cl (loop (v # vs) cnt) w = (Done r, w2)" "\<forall>n. r = Some n \<longrightarrow> n \<le> cnt"
        with full show False by auto
      qed
      then show ?thesis ..
    qed
  qed simp
qed (use loop_full [OF assms] in blast)

end

interpretation retain_loop: counter pv_srv PVCtrl_SetPVRetain_loop retained
proof
  fix cl :: "'a client" and V w v vs cnt
  assume r: "reads (pv_srv cl) V"
  show "retained (V w (volume_key v)) \<Longrightarrow>
      run cl (PVCtrl_SetPVRetain_loop (v # vs) cnt) w = run cl (PVCtrl_SetPVRetain_loop vs (Suc cnt)) w"
    by (auto simp: PVService_Get_reads [OF r] retained_def volume_key_def split: option.splits)
  assume "\<not> retained (V w (volume_key v))"
  then obtain pv where pv: "V w (NN '''' (PVName v)) = Some pv"
    "gomap_get (Annotations (pv_Meta pv)) ''redis-slave'' = None" "pv_ReclaimPolicy pv \<noteq> ''Retain''"
    by (auto simp: retained_def volume_key_def split: option.splits)
  obtain u w2 where "run cl (PVService_Update (pv\<lparr>pv_ReclaimPolicy := ''Retain'', pv_StorageClassName := ''''\<rparr>)) w = (Done u, w2)"
    using pv_versioned.Write_total by metis
  with pv show "(\<exists>w2. run cl (PVCtrl_SetPVRetain_loop (v # vs) cnt) w = run cl (PVCtrl_SetPVRetain_loop vs cnt) w2) \<or>
      (\<exists>r w2. run cl (PVCtrl_SetPVRetain_loop (v # vs) cnt) w = (Done r, w2) \<and> (\<forall>n. r = Some n \<longrightarrow> n \<le> cnt))"
    by (cases u) (auto simp: PVService_Get_reads [OF r])
qed simp

interpretation available_loop: counter pv_srv PVCtrl_SetPVAvailable_loop available
proof
  fix cl :: "'a client" and V w v vs cnt
  assume r: "reads (pv_srv cl) V"
  show "available (V w (volume_key v)) \<Longrightarrow>
      run cl (PVCtrl_SetPVAvailable_loop (v # vs) cnt) w = run cl (PVCtrl_SetPVAvailable_loop vs (Suc cnt)) w"
    by (auto simp: PVService_Get_reads [OF r] available_def volume_key_def split: option.splits)
  assume "\<not> available (V w (volume_key v))"
  then obtain pv where pv: "V w (NN '''' (PVName v)) = Some pv"
    "gomap_get (Annotations (pv_Meta pv)) ''redis-slave'' \<noteq> None \<or> pv_Phase pv \<noteq> ''Available''"
    by (auto simp: available_def volume_key_def split: option.splits)
  obtain u w2 where "run cl (PVService_Update (pv\<lparr>pv_Meta := (pv_Meta pv)\<lparr>Finalizers := []\<rparr>,
      pv_ClaimRef := None, pv_Phase := ''Available''\<rparr>)) w = (Done u, w2)"
    using pv_versioned.Write_total by metis
  with pv show "(\<exists>w2. run cl (PVCtrl_SetPVAvailable_loop (v # vs) cnt) w = run cl (PVCtrl_SetPVAvailable_loop vs cnt) w2) \<or>
      (\<exists>r w2. run cl (PVCtrl_SetPVAvailable_loop (v # vs) cnt) w = (Done r, w2) \<and> (\<forall>n. r = Some n \<longrightarrow> n \<le> cnt))"
    by (cases u) (auto simp: PVService_Get_reads [OF r])
qed simp

lemma run_SetPV:
  assumes "reads (pv_srv cl) V"
  shows "(if PVRecyclePolicy (Spec sp) \<noteq> ''Retain'' \<or> (\<forall>v \<in> set (pvcs_of sp). retained (V w (NN '''' (PVName v))))
      then run cl (PVCtrl_SetPVRetain sp) w = (Done True, w)
      else \<exists>w'. run cl (PVCtrl_SetPVRetain sp) w = (Done False, w')) \<and>
    (if PVRecyclePolicy (Spec sp) \<noteq> ''Retain'' \<or> (\<forall>v \<in> set (pvcs_of sp). available (V w (NN '''' (PVName v))))
      then run cl (PVCtrl_SetPVAvailable sp) w = (Done True, w)
      else \<exists>w'. run cl (PVCtrl_SetPVAvailable sp) w = (Done False, w'))"
proof -
  obtain r1 w1 where r1: "run cl (PVCtrl_SetPVRetain_loop (pvcs_of sp) 0) w = (Done r1, w1)"
    using retain_loop.loop_bound [OF assms] by metis
  obtain r2 w2 where r2: "run cl (PVCtrl_SetPVAvailable_loop (pvcs_of sp) 0) w = (Done r2, w2)"
    using available_loop.loop_bound [OF assms] by metis
  have "r1 = Some (length (pvcs_of sp)) \<longleftrightarrow> (\<forall>v \<in> set (pvcs_of sp). retained (V w (NN '''' (PVName v))))"
    using retain_loop.loop_full_iff [OF assms, of "pvcs_of sp" 0 w] r1 by (simp add: volume_key_def)
  moreover have "w1 = w" if "\<forall>v \<in> set (pvcs_of sp). retained (V w (NN '''' (PVName v)))"
    using retain_loop.loop_full [OF assms, of "pvcs_of sp" w 0] that r1 by (simp add: volume_key_def)
  moreover have "r2 = Some (length (pvcs_of sp)) \<longleftrightarrow> (\<forall>v \<in> set (pvcs_of sp). available (V w (NN '''' (PVName v))))"
    using available_loop.loop_full_iff [OF assms, of "pvcs_of sp" 0 w] r2 by (simp add: volume_key_def)
  moreover have "w2 = w" if "\<forall>v \<in> set (pvcs_of sp). available (V w (NN '''' (PVName v)))"
    using available_loop.loop_full [OF assms, of "pvcs_of sp" w 0] that r2 by (simp add: volume_key_def)
  ultimately show ?thesis using r1 r2
    by (cases r1; cases r2) (auto simp: PVCtrl_SetPVRetain_def PVCtrl_SetPVAvailable_def)
qed

text \<open>C20: before a StatefulPod with the policy \<open>Retain\<close> loses its pods, all its volumes are retained: \<open>SetPVRetain\<close>
  answers true exactly when each volume of the status list is gone, belongs to a redis slave or already
  has the policy \<open>Retain\<close>, and then it writes nothing; and after the claims, \<open>SetPVAvailable\<close> answers true exactly
  when each is gone, or is available and not a redis slave's, so a redis slave's volume holds the
  removal up until it is deleted. With any other policy both answer true at once.\<close>

theorem volumes_retained_then_available:
  assumes "reads (pv_srv cl) V"
  shows "(if PVRecyclePolicy (Spec sp) \<noteq> ''Retain'' \<or> (\<forall>v \<in> set (pvcs_of sp). retained (V w (NN '''' (PVName v))))
      then run cl (PVCtrl_SetPVRetain sp) w = (Done True, w)
      else \<exists>w'. run cl (PVCtrl_SetPVRetain sp) w = (Done False, w')) \<and>
    (if PVRecyclePolicy (Spec sp) \<noteq> ''Retain'' \<or> (\<forall>v \<in> set (pvcs_of sp). available (V w (NN '''' (PVName v))))
      then run cl (PVCtrl_SetPVAvailable sp) w = (Done True, w)
      else \<exists>w'. run cl (PVCtrl_SetPVAvailable sp) w = (Done False, w'))"
  using assms by (rule run_SetPV)

text \<open>The concrete case: the one volume of the StatefulPod belongs to a redis slave.\<close>

definition slave_pv :: PV where
  "slave_pv = \<lparr>pv_Meta = demo_meta\<lparr>Name := ''pv-0'', Annotations := Some [(''redis-slave'', '''')]\<rparr>, pv_ReclaimPolicy = ''Delete'',
     pv_StorageClassName = '''', pv_ClaimRef = None, pv_Phase = ''Available'', pv_rest = ''''\<rparr>"

theorem volumes_retained_then_available_witness:
  "run mem_client (PVCtrl_SetPVRetain ((demo_sp 1 [(''Running'', ''Bound'')])\<lparr>Spec := (Spec (demo_sp 1 []))\<lparr>PVRecyclePolicy := ''Retain''\<rparr>\<rparr>))
      (empty_world\<lparr>pvs := (\<lambda>_. Some slave_pv)\<rparr>) = (Done True, empty_world\<lparr>pvs := (\<lambda>_. Some slave_pv)\<rparr>) \<and>
   (\<exists>w'. run mem_client (PVCtrl_SetPVAvailable ((demo_sp 1 [(''Running'', ''Bound'')])\<lparr>Spec := (Spec (demo_sp 1 []))\<lparr>PVRecyclePolicy := ''Retain''\<rparr>\<rparr>))
      (empty_world\<lparr>pvs := (\<lambda>_. Some slave_pv)\<rparr>) = (Done False, w'))"
  using volumes_retained_then_available [OF mem_reads(5), of "(demo_sp 1 [(''Running'', ''Bound'')])\<lparr>Spec := (Spec (demo_sp 1 []))\<lparr>PVRecyclePolicy := ''Retain''\<rparr>\<rparr>"
      "empty_world\<lparr>pvs := (\<lambda>_. Some slave_pv)\<rparr>"]
  by (simp add: retained_def available_def slave_pv_def demo_sp_def)

end
