(* ===== verification/Maintenance.thy ===== *)
theory Maintenance
  imports Removal
begin

text \<open>
  Maintenance: the two scans of the status list, the steady state, and the recreation of a pod that
  has vanished.
\<close>

section \<open>The scans\<close>

text \<open>An entry agrees with the cluster when its pod exists and is recorded as running if it runs.\<close>

definition entry_ok :: "(NamespacedName \<Rightarrow> Pod option) \<Rightarrow> string \<Rightarrow> PodStatus \<Rightarrow> bool" where
  "entry_ok V ns p = (case V (NN ns (PodName p)) of None \<Rightarrow> False
    | Some pod \<Rightarrow> pod_Phase pod = ''Running'' \<longrightarrow> ps_Status p = ''Running'')"

definition corrected :: "(NamespacedName \<Rightarrow> Pod option) \<Rightarrow> string \<Rightarrow> PodStatus \<Rightarrow> PodStatus" where
  "corrected V ns p = p\<lparr>ps_Status := (if V (NN ns (PodName p)) = None then ''Deleting'' else ''Running'')\<rparr>"

lemma drop_Cons_nth:
  assumes "p # ps = drop i xs"
  shows "i < length xs \<and> xs ! i = p \<and> ps = drop (Suc i) xs"
proof -
  have lt: "i < length xs" using assms by (cases "i < length xs") auto
  then have "xs ! i # drop (Suc i) xs = p # ps" using Cons_nth_drop_Suc [OF lt] assms by simp
  with lt show ?thesis by simp
qed

lemma run_PodIsOk_loop:
  assumes "reads (pod_srv cl) V" "i + length ps = length (pods_of sp)" "ps = drop i (pods_of sp)"
  shows "run cl (PodCtrl_PodIsOk_loop sp ps i) w =
    (case find (\<lambda>j. \<not> entry_ok (V w) (Namespace (sp_Meta sp)) (pods_of sp ! j)) [i..<length (pods_of sp)] of
       None \<Rightarrow> (Done (None, sp), w)
     | Some j \<Rightarrow> (Done (Some j, set_pods ((pods_of sp)[j := corrected (V w) (Namespace (sp_Meta sp)) (pods_of sp ! j)]) sp), w))"
  using assms(2,3)
proof (induction ps arbitrary: i)
  case (Cons p ps)
  have i: "i < length (pods_of sp)" "pods_of sp ! i = p" "ps = drop (Suc i) (pods_of sp)"
    using drop_Cons_nth [OF Cons.prems(2)] by simp_all
  have upt: "[i..<length (pods_of sp)] = i # [Suc i..<length (pods_of sp)]" using i(1) by (simp add: upt_conv_Cons)
  have IH: "run cl (PodCtrl_PodIsOk_loop sp ps (Suc i)) w =
    (case find (\<lambda>j. \<not> entry_ok (V w) (Namespace (sp_Meta sp)) (pods_of sp ! j)) [Suc i..<length (pods_of sp)] of
       None \<Rightarrow> (Done (None, sp), w)
     | Some j \<Rightarrow> (Done (Some j, set_pods ((pods_of sp)[j := corrected (V w) (Namespace (sp_Meta sp)) (pods_of sp ! j)]) sp), w))"
    by (rule Cons.IH) (use Cons.prems(1) i(3) in simp_all)
  show ?case
    unfolding upt using IH i(1,2)
    by (cases "V w (NN (Namespace (sp_Meta sp)) (PodName p))")
      (simp_all add: pod_reader.IsExists_reads [OF assms(1)] entry_ok_def corrected_def)
qed simp

lemma find_upt_Some: "find P [0..<n] = Some j \<longleftrightarrow> j < n \<and> P j \<and> (\<forall>k < j. \<not> P k)"
  by (auto simp: find_Some_iff)

lemma find_upt_None: "find P [a..<b] = None \<longleftrightarrow> (\<forall>k. a \<le> k \<and> k < b \<longrightarrow> \<not> P k)"
  by (auto simp: find_None_iff)

lemma run_MaintainPod_loop:
  assumes "reads (pod_srv cl) V" "i + length ps = length (pods_of sp)" "ps = drop i (pods_of sp)"
  shows "run cl (PodCtrl_MaintainPod_loop ns ps i) w =
    (Done (find (\<lambda>j. ps_Status (pods_of sp ! j) = ''Deleting'' \<and> V w (NN ns (PodName (pods_of sp ! j))) = None)
       [i..<length (pods_of sp)]), w)"
  using assms(2,3)
proof (induction ps arbitrary: i)
  case (Cons p ps)
  have i: "i < length (pods_of sp)" "pods_of sp ! i = p" "ps = drop (Suc i) (pods_of sp)"
    using drop_Cons_nth [OF Cons.prems(2)] by simp_all
  have upt: "[i..<length (pods_of sp)] = i # [Suc i..<length (pods_of sp)]" using i(1) by (simp add: upt_conv_Cons)
  have IH: "run cl (PodCtrl_MaintainPod_loop ns ps (Suc i)) w =
    (Done (find (\<lambda>j. ps_Status (pods_of sp ! j) = ''Deleting'' \<and> V w (NN ns (PodName (pods_of sp ! j))) = None)
       [Suc i..<length (pods_of sp)]), w)"
    by (rule Cons.IH) (use Cons.prems(1) i(3) in simp_all)
  show ?case
    unfolding upt using IH i(1,2)
    by (cases "V w (NN ns (PodName p))") (simp_all add: pod_reader.IsExists_reads [OF assms(1)])
qed simp

lemma run_PodIsOk:
  assumes "reads (pod_srv cl) V"
  shows "run cl (PodCtrl_PodIsOk sp) w =
    (case find (\<lambda>j. \<not> entry_ok (V w) (Namespace (sp_Meta sp)) (pods_of sp ! j)) [0..<length (pods_of sp)] of
       None \<Rightarrow> (Done (None, sp), w)
     | Some j \<Rightarrow> (Done (Some j, set_pods ((pods_of sp)[j := corrected (V w) (Namespace (sp_Meta sp)) (pods_of sp ! j)]) sp), w))"
  unfolding PodCtrl_PodIsOk_def by (rule run_PodIsOk_loop [OF assms]) simp_all

lemma run_MaintainPod:
  assumes "reads (pod_srv cl) V"
  shows "run cl (PodCtrl_MaintainPod sp) w =
    (Done (find (\<lambda>j. ps_Status (pods_of sp ! j) = ''Deleting'' \<and> V w (NN (Namespace (sp_Meta sp)) (PodName (pods_of sp ! j))) = None)
       [0..<length (pods_of sp)]), w)"
  unfolding PodCtrl_MaintainPod_def by (rule run_MaintainPod_loop [OF assms]) simp_all

text \<open>C22: \<open>PodIsOk\<close> finds the first status entry that disagrees with the cluster (its pod is missing, or runs without
  being recorded as running), marks it as deleting or running accordingly and changes no other entry; it finds none
  exactly if all entries agree. \<open>MaintainPod\<close> gives the first entry marked as deleting whose pod is
  gone. Neither writes to the cluster.\<close>

theorem scans_find_first:
  assumes "reads (pod_srv cl) V"
  shows "(\<exists>r sp'. run cl (PodCtrl_PodIsOk sp) w = (Done (r, sp'), w) \<and>
      (case r of
        None \<Rightarrow> sp' = sp \<and> (\<forall>p \<in> set (pods_of sp). entry_ok (V w) (Namespace (sp_Meta sp)) p)
      | Some j \<Rightarrow> j < length (pods_of sp) \<and> \<not> entry_ok (V w) (Namespace (sp_Meta sp)) (pods_of sp ! j) \<and>
          (\<forall>k < j. entry_ok (V w) (Namespace (sp_Meta sp)) (pods_of sp ! k)) \<and>
          sp' = set_pods ((pods_of sp)[j := corrected (V w) (Namespace (sp_Meta sp)) (pods_of sp ! j)]) sp)) \<and>
    (\<exists>r. run cl (PodCtrl_MaintainPod sp) w = (Done r, w) \<and>
      (\<forall>j. r = Some j \<longleftrightarrow> j < length (pods_of sp) \<and>
        ps_Status (pods_of sp ! j) = ''Deleting'' \<and> V w (NN (Namespace (sp_Meta sp)) (PodName (pods_of sp ! j))) = None \<and>
        (\<forall>k < j. ps_Status (pods_of sp ! k) = ''Deleting'' \<longrightarrow> V w (NN (Namespace (sp_Meta sp)) (PodName (pods_of sp ! k))) \<noteq> None)))"
proof (intro conjI)
  let ?f = "find (\<lambda>j. \<not> entry_ok (V w) (Namespace (sp_Meta sp)) (pods_of sp ! j)) [0..<length (pods_of sp)]"
  show "\<exists>r sp'. run cl (PodCtrl_PodIsOk sp) w = (Done (r, sp'), w) \<and>
      (case r of
        None \<Rightarrow> sp' = sp \<and> (\<forall>p \<in> set (pods_of sp). entry_ok (V w) (Namespace (sp_Meta sp)) p)
      | Some j \<Rightarrow> j < length (pods_of sp) \<and> \<not> entry_ok (V w) (Namespace (sp_Meta sp)) (pods_of sp ! j) \<and>
          (\<forall>k < j. entry_ok (V w) (Namespace (sp_Meta sp)) (pods_of sp ! k)) \<and>
          sp' = set_pods ((pods_of sp)[j := corrected (V w) (Namespace (sp_Meta sp)) (pods_of sp ! j)]) sp)"
  proof (cases ?f)
    case None
    then have "\<forall>k < length (pods_of sp). entry_ok (V w) (Namespace (sp_Meta sp)) (pods_of sp ! k)"
      by (simp add: find_upt_None)
    with None show ?thesis by (simp add: run_PodIsOk [OF assms]) (auto simp: in_set_conv_nth)
  next
    case (Some j)
    with iffD1 [OF find_upt_Some Some] show ?thesis by (simp add: run_PodIsOk [OF assms])
  qed
next
  show "\<exists>r. run cl (PodCtrl_MaintainPod sp) w = (Done r, w) \<and>
      (\<forall>j. r = Some j \<longleftrightarrow> j < length (pods_of sp) \<and>
        ps_Status (pods_of sp ! j) = ''Deleting'' \<and> V w (NN (Namespace (sp_Meta sp)) (PodName (pods_of sp ! j))) = None \<and>
        (\<forall>k < j. ps_Status (pods_of sp ! k) = ''Deleting'' \<longrightarrow> V w (NN (Namespace (sp_Meta sp)) (PodName (pods_of sp ! k))) \<noteq> None))"
    unfolding run_MaintainPod [OF assms] by (auto simp: find_upt_Some)
qed

theorem scans_find_first_witness:
  "\<exists>r sp'. run mem_client (PodCtrl_PodIsOk (demo_sp 1 [(''Running'', '''')])) empty_world = (Done (r, sp'), empty_world) \<and>
    (\<exists>r. run mem_client (PodCtrl_MaintainPod (demo_sp 1 [(''Running'', '''')])) empty_world = (Done r, empty_world))"
  using scans_find_first [OF mem_reads(2), of "demo_sp 1 [(''Running'', '''')]" empty_world] by blast

section \<open>The steady state\<close>

lemma CoreCtrl_keep:
  assumes "wf_sp sp" "Size (Spec sp) = Some sz" "settled (int_of_int32 sz) (phases_of sp) = int_of_int32 sz"
    "IsZero (DeletionTimestamp (sp_Meta sp))" "GroupVersion_String \<in> set (Finalizers (sp_Meta sp))"
  shows "StatefulPodCtrl_CoreCtrl env fuel sp = StatefulPodCtrl_maintain env fuel sp"
  unfolding CoreCtrl_plan [OF assms(1,2)]
  using assms(3-5) by (simp add: plan_of_def carry_out_def StatefulPodCtrl_setFinalizer_def del: GroupVersion_String_simp)

lemma run_steady:
  assumes "wf_sp sp" "Size (Spec sp) = Some sz" "settled (int_of_int32 sz) (phases_of sp) = int_of_int32 sz"
    "IsZero (DeletionTimestamp (sp_Meta sp))" "GroupVersion_String \<in> set (Finalizers (sp_Meta sp))"
    "reads (pod_srv cl) V" "\<forall>p \<in> set (pods_of sp). entry_ok (V w) (Namespace (sp_Meta sp)) p"
  shows "run cl (StatefulPodCtrl_CoreCtrl env fuel sp) w = (Done (result0, None), w)"
proof -
  have "find (\<lambda>j. \<not> entry_ok (V w) (Namespace (sp_Meta sp)) (pods_of sp ! j)) [0..<length (pods_of sp)] = None"
    using assms(7) by (auto simp: find_upt_None)
  moreover have "find (\<lambda>j. ps_Status (pods_of sp ! j) = ''Deleting'' \<and> V w (NN (Namespace (sp_Meta sp)) (PodName (pods_of sp ! j))) = None)
       [0..<length (pods_of sp)] = None"
    using assms(7) by (auto simp: find_upt_None entry_ok_def split: option.splits)
  ultimately show ?thesis
    unfolding CoreCtrl_keep [OF assms(1-5)]
    by (simp add: StatefulPodCtrl_maintain_def run_PodIsOk [OF assms(6)] run_MaintainPod [OF assms(6)])
qed

text \<open>C21: the steady state is a fixed point: when the StatefulPod has its size, its finalizer and no deletion, and every
  status entry agrees with the cluster, \<open>CoreCtrl\<close> answers that it is done, asks for no further call
  and writes nothing.\<close>

theorem steady_state:
  assumes "wf_sp sp" "Size (Spec sp) = Some sz" "settled (int_of_int32 sz) (phases_of sp) = int_of_int32 sz"
    "IsZero (DeletionTimestamp (sp_Meta sp))" "GroupVersion_String \<in> set (Finalizers (sp_Meta sp))"
    "reads (pod_srv cl) V" "\<forall>p \<in> set (pods_of sp). entry_ok (V w) (Namespace (sp_Meta sp)) p"
  shows "run cl (StatefulPodCtrl_CoreCtrl env fuel sp) w = (Done (result0, None), w)"
  by (rule run_steady [OF assms])

text \<open>A StatefulPod of one ordinal that is complete and has its finalizer.\<close>

definition steady_sp :: StatefulPod where
  "steady_sp = (demo_sp_claims 1 [(''Running'', ''Bound'')])\<lparr>sp_Meta := demo_meta\<lparr>Finalizers := [''iapetos.foundary-cloud.io/v1'']\<rparr>\<rparr>"

lemma steady_sp_simps:
  "wf_sp steady_sp" "Size (Spec steady_sp) = Some (int32_of 1)"
  "settled (int_of_int32 (int32_of 1)) (phases_of steady_sp) = int_of_int32 (int32_of 1)"
  "IsZero (DeletionTimestamp (sp_Meta steady_sp))" "GroupVersion_String \<in> set (Finalizers (sp_Meta steady_sp))"
  "pods_of steady_sp = [\<lparr>PodName = PodService_GetName steady_sp 0, ps_Status = ''Running'', ps_Index = Some (int32_of 0), NodeName = ''''\<rparr>]"
  "sp_key steady_sp = NN ''ns'' ''db''" "claim_volume (Spec steady_sp)" "PVCTemplate (Spec steady_sp) = Some demo_claim"
  "ServiceTemplate (Spec steady_sp) = None"
  by (simp_all add: steady_sp_def demo_defs Let_def wf_status_def settled_def phases_of_def int_of_int32_of claim_volume_def
      PodService_GetName_def)

theorem steady_state_witness:
  "run mem_client (StatefulPodCtrl_CoreCtrl demo_env 2 steady_sp) (empty_world\<lparr>pods := (\<lambda>_. Some (demo_pod ''db-0'' ''0'' ''Running''))\<rparr>) =
    (Done (result0, None), empty_world\<lparr>pods := (\<lambda>_. Some (demo_pod ''db-0'' ''0'' ''Running''))\<rparr>)"
  by (rule steady_state [OF steady_sp_simps(1-5) mem_reads(2)]) (simp add: steady_sp_simps(6) entry_ok_def)

section \<open>A vanished pod\<close>

lemma run_expansionPVC_existing:
  assumes "reads (pvc_srv cl) Vc" "claims_wanted sp" "claim_volume (Spec sp)" "Vc w (claim_key sp i) = Some pvc" "i < length (pvcs_of sp)"
  obtains sp' where "run cl (StatefulPodCtrl_expansionPVC env sp (int i)) w = (Done (Inr (pvcs_of sp ! i), sp'), w)"
    "Status sp' = Status sp" "same_shape sp sp'"
proof -
  obtain sp1 where sp1: "SetPVCName sp (int i) = Ret (claim_name sp (int i), sp1)" "same_shape sp sp1" "Status sp1 = Status sp"
    by (rule SetPVCName_shape [OF assms(3), of "int i"])
  then show thesis
    using same_shape_key [OF sp1(2)] assms(2)
    by (intro that [of sp1]) (auto simp: StatefulPodCtrl_expansionPVC_def PVCCtrl_ExpansionPVC_def PVCService_GetName_def
        pvc_reader.IsExists_reads [OF assms(1)] assms(4) assms(5) assms(5) [unfolded not_le [symmetric]])
qed

text \<open>A repair takes the claim that is there, with its entry, or makes a new one.\<close>

definition has_claim :: "StatefulPod \<Rightarrow> nat \<Rightarrow> (NamespacedName \<Rightarrow> PVC option) \<Rightarrow> bool" where
  "has_claim sp i V \<longleftrightarrow> claims_wanted sp \<and> V (claim_key sp i) \<noteq> None"

definition kept_entry :: "StatefulPod \<Rightarrow> nat \<Rightarrow> (NamespacedName \<Rightarrow> PVC option) \<Rightarrow> PVCStatus" where
  "kept_entry sp i V = (if has_claim sp i V then pvcs_of sp ! i else claim_entry sp (int i))"

definition claim_kept :: "StatefulPod \<Rightarrow> nat \<Rightarrow> (NamespacedName \<Rightarrow> PVC option) \<Rightarrow> (NamespacedName \<Rightarrow> PVC option) \<Rightarrow> bool" where
  "claim_kept sp i V V' \<longleftrightarrow> (if has_claim sp i V then V' = V else claim_made sp (int i) V V')"

lemma same_shape_entry: "same_shape sp sp' \<Longrightarrow> claim_entry sp' i = claim_entry sp i"
  by (auto simp: claim_entry_def same_shape_def split: option.split)

lemma same_shape_claim:
  assumes "same_shape sp sp'"
  shows "has_claim sp' i V = has_claim sp i V" "claim_kept sp' i V V' = claim_kept sp i V V'"
    "pvcs_of sp' ! i = pvcs_of sp ! i \<Longrightarrow> kept_entry sp' i V = kept_entry sp i V"
  using assms claim_made_shape [OF assms] same_shape_entry [OF assms]
  by (auto simp: has_claim_def claim_kept_def kept_entry_def same_shape_def)

lemma run_expansionPVC_repair:
  assumes "reads (pvc_srv cl) Vc" "accepts pvc_Meta (pvc_srv cl) Vc" "PVNames (Spec sp) = []"
    "\<And>t. PVCTemplate (Spec sp) = Some t \<Longrightarrow> claim_volume (Spec sp) \<and> StorageClassName t \<noteq> None" "i < length (pvcs_of sp)"
  obtains sp' w' where "run cl (StatefulPodCtrl_expansionPVC env sp (int i)) w = (Done (Inr (kept_entry sp i (Vc w)), sp'), w')"
    "Status sp' = Status sp" "same_shape sp sp'" "w' = w \<or> (\<exists>p y. pvc_srv cl (Create p) w = (y, w'))"
    "claim_kept sp i (Vc w) (Vc w')"
proof (cases "has_claim sp i (Vc w)")
  case True
  then obtain pvc where c: "claims_wanted sp" "Vc w (claim_key sp i) = Some pvc" by (auto simp: has_claim_def)
  then have "claim_volume (Spec sp)" using assms(4) by blast
  then obtain sp' where "run cl (StatefulPodCtrl_expansionPVC env sp (int i)) w = (Done (Inr (pvcs_of sp ! i), sp'), w)"
    "Status sp' = Status sp" "same_shape sp sp'"
    using run_expansionPVC_existing [OF assms(1) c(1) _ c(2) assms(5)] by blast
  with True show thesis by (intro that [of sp' w]) (simp_all add: kept_entry_def claim_kept_def)
next
  case False
  then have "\<And>t. PVCTemplate (Spec sp) = Some t \<Longrightarrow> claim_volume (Spec sp) \<and> StorageClassName t \<noteq> None \<and> Vc w (claim_key sp i) = None"
    using assms(4) by (auto simp: has_claim_def)
  then obtain sp' w' where "run cl (StatefulPodCtrl_expansionPVC env sp (int i)) w = (Done (Inr (claim_entry sp (int i)), sp'), w')"
    "Status sp' = Status sp" "same_shape sp sp'" "w' = w \<or> (\<exists>p y. pvc_srv cl (Create p) w = (y, w'))"
    "claim_made sp (int i) (Vc w) (Vc w')"
    by (rule run_expansionPVC_new [OF assms(1-3)])
  with False show thesis by (intro that [of sp' w']) (simp_all add: kept_entry_def claim_kept_def)
qed

lemma settled_upd:
  assumes "wf_sp sp" "i < length (pods_of sp)"
  shows "wf_sp (set_pods ((pods_of sp)[i := (pods_of sp ! i)\<lparr>ps_Status := st\<rparr>]) sp)"
  using wf_status_pod [OF assms, of "(pods_of sp ! i)\<lparr>ps_Status := st\<rparr>"] by simp

text \<open>The first half: the entry is marked and stored, and maintenance comes back to the same ordinal.\<close>

lemma run_maintain_vanished:
  assumes "cooperative cl Vs Vp Vc" "wf_sp sp" "i < length (pods_of sp)"
    "\<forall>k < i. entry_ok (Vp w) (Namespace (sp_Meta sp)) (pods_of sp ! k)"
    "Vp w (NN (Namespace (sp_Meta sp)) (PodName (pods_of sp ! i))) = None" "Vs w (sp_key sp) = Some cur" "2 \<le> fuel"
    "Finalizers (sp_Meta sp) \<noteq> []"
  obtains sp2 w2 where "run cl (StatefulPodCtrl_maintain env fuel sp) w = run cl (StatefulPodCtrl_expansion env fuel sp2 (int i)) w2"
    "Vs w2 = (Vs w)(sp_key sp \<mapsto> sp2)" "Vp w2 = Vp w" "Vc w2 = Vc w" "Spec sp2 = Spec sp" "sp_key sp2 = sp_key sp" "wf_sp sp2"
    "pods_of sp2 = (pods_of sp)[i := (pods_of sp ! i)\<lparr>ps_Status := ''Deleting''\<rparr>]" "pvcs_of sp2 = pvcs_of sp"
    "Finalizers (sp_Meta sp2) = Finalizers (sp_Meta sp)" "DeletionTimestamp (sp_Meta sp2) = DeletionTimestamp (sp_Meta cur)"
    "\<exists>x. run cl (StatefulPodService_Update fuel x) w = (Done (Inr sp2), w2)"
proof -
  note c = cooperativeD [OF assms(1)]
  let ?ns = "Namespace (sp_Meta sp)"
  obtain m where fuel: "fuel = Suc (Suc m)" using assms(7) by (metis Suc_le_D numeral_2_eq_2 Suc_le_mono)
  define sp1 where "sp1 = set_pods ((pods_of sp)[i := (pods_of sp ! i)\<lparr>ps_Status := ''Deleting''\<rparr>]) sp"
  have "find (\<lambda>j. \<not> entry_ok (Vp w) ?ns (pods_of sp ! j)) [0..<length (pods_of sp)] = Some i"
    unfolding find_upt_Some using assms(3-5) by (simp add: entry_ok_def)
  then have ok: "run cl (PodCtrl_PodIsOk sp) w = (Done (Some i, sp1), w)"
    using assms(5) by (simp add: run_PodIsOk [OF c(2)] corrected_def sp1_def)
  have k1: "sp_key sp1 = sp_key sp" "wf_sp sp1" "Spec sp1 = Spec sp" "pvcs_of sp1 = pvcs_of sp"
    using settled_upd [OF assms(2,3)] by (simp_all add: sp1_def)
  have stays: "\<not> let_go (sp_Meta cur) (sp_Meta sp1)" using assms(8) by (simp add: sp1_def)
  obtain sp2 w2 where u1: "run cl (StatefulPodService_Update fuel sp1) w = (Done (Inr sp2), w2)"
    "Vs w2 = (Vs w)(sp_key sp \<mapsto> sp2)" "Spec sp2 = Spec sp" "Status sp2 = Status sp1" "sp_key sp2 = sp_key sp"
    and f1: "Finalizers (sp_Meta sp2) = Finalizers (sp_Meta sp1)" "DeletionTimestamp (sp_Meta sp2) = DeletionTimestamp (sp_Meta cur)"
    using run_Update_two [OF c(1), of w sp1 cur m] assms(6) k1 stays unfolding fuel by metis
  have v2: "Vp w2 = Vp w" "Vc w2 = Vc w"
    using run_Update_frame [OF c(10) u1(1)] run_Update_frame [OF c(11) u1(1)] by simp_all
  have p2: "pods_of sp2 = (pods_of sp)[i := (pods_of sp ! i)\<lparr>ps_Status := ''Deleting''\<rparr>]" "pvcs_of sp2 = pvcs_of sp"
    using u1(4) k1(4) by (simp_all add: sp1_def)
  have before: "Vp w (NN ?ns (PodName (pods_of sp ! k))) \<noteq> None" if "k < i" for k
    using assms(4) that by (auto simp: entry_ok_def split: option.splits)
  have "find (\<lambda>j. ps_Status (pods_of sp2 ! j) = ''Deleting'' \<and> Vp w2 (NN (Namespace (sp_Meta sp2)) (PodName (pods_of sp2 ! j))) = None)
       [0..<length (pods_of sp2)] = Some i"
    unfolding find_upt_Some using assms(3,5) before u1(5) by (simp add: p2 v2)
  then have "run cl (PodCtrl_MaintainPod sp2) w2 = (Done (Some i), w2)" by (simp add: run_MaintainPod [OF c(2)])
  then have "run cl (StatefulPodCtrl_maintain env fuel sp) w = run cl (StatefulPodCtrl_expansion env fuel sp2 (int i)) w2"
    by (simp add: StatefulPodCtrl_maintain_def ok u1(1))
  moreover have "wf_sp sp2" using k1(2) u1(4) by simp
  moreover have "Finalizers (sp_Meta sp2) = Finalizers (sp_Meta sp)" using f1(1) by (simp add: sp1_def)
  ultimately show thesis using that u1(1,2,3,5) v2 p2 f1(2) by blast
qed

text \<open>The repair of an ordinal whose pod is gone: the pod is made again, the claim kept or made again.\<close>

definition repairable :: "StatefulPod \<Rightarrow> bool" where
  "repairable sp \<longleftrightarrow> PVNames (Spec sp) = [] \<and> (\<forall>t. PVCTemplate (Spec sp) = Some t \<longrightarrow> claim_volume (Spec sp) \<and> StorageClassName t \<noteq> None)"

lemma repairable_shape: "same_shape sp sp' \<Longrightarrow> repairable sp \<Longrightarrow> repairable sp'"
  by (simp add: repairable_def same_shape_def claim_volume_name)

abbreviation fresh_entry :: "StatefulPod \<Rightarrow> nat \<Rightarrow> PodStatus" where
  "fresh_entry sp n \<equiv> \<lparr>PodName = PodService_GetName sp (int n), ps_Status = ''Preparing'', ps_Index = Some (int32_of (int n)),
     NodeName = ''''\<rparr>"

lemma run_expansion_repair:
  assumes "cooperative cl Vs Vp Vc" "wf_sp sp" "i < length (pods_of sp)" "repairable sp"
    "run cl (StatefulPodCtrl_expansionSvc env sp (int i)) w = (Done True, w)"
    "Vp w (pod_key sp i) = None" "Vs w (sp_key sp) = Some cur" "2 \<le> fuel" "Finalizers (sp_Meta sp) \<noteq> []"
  obtains sp' pod w' where "run cl (StatefulPodCtrl_expansion env fuel sp (int i)) w = (Done (result0, None), w')"
    "Vs w' = (Vs w)(sp_key sp \<mapsto> sp')" "Vp w' = (Vp w)(pod_key sp i \<mapsto> pod)"
    "child sp (PodService_GetName sp (int i)) (int i) (pod_Meta pod)" "claim_kept sp i (Vc w) (Vc w')" "same_shape sp sp'"
    "pods_of sp' = (pods_of sp)[i := fresh_entry sp i]" "pvcs_of sp' = (pvcs_of sp)[i := kept_entry sp i (Vc w)]"
    "DeletionTimestamp (sp_Meta sp') = DeletionTimestamp (sp_Meta cur)"
proof -
  note c = cooperativeD [OF assms(1)]
  have vol: "claims_wanted sp \<Longrightarrow> claim_volume (Spec sp)" using assms(4) by (auto simp: repairable_def)
  obtain pod sp1 w1 where pod: "run cl (PodCtrl_ExpansionPod env sp (int i)) w = (Done (Inr (fresh_entry sp i), sp1), w1)"
    "Vp w1 = (Vp w)(pod_key sp i \<mapsto> pod)" "Status sp1 = Status sp" "same_shape sp sp1"
    "child sp (PodService_GetName sp (int i)) (int i) (pod_Meta pod)" "\<exists>p y. pod_srv cl (Create p) w = (y, w1)"
    by (rule run_ExpansionPod_new [OF c(2,3) assms(6) vol assms(2)])
  have v1: "Vs w1 = Vs w" "Vc w1 = Vc w" using pod(6) c(6,7) by blast+
  have pre1: "PVNames (Spec sp1) = []" "\<And>t. PVCTemplate (Spec sp1) = Some t \<Longrightarrow> claim_volume (Spec sp1) \<and> StorageClassName t \<noteq> None"
    "i < length (pvcs_of sp1)"
    using repairable_shape [OF pod(4) assms(4)] assms(3) wf_status_length [OF assms(2)] pod(3) by (simp_all add: repairable_def)
  have e1: "kept_entry sp1 i (Vc w) = kept_entry sp i (Vc w)" using pod(3) by (intro same_shape_claim(3) [OF pod(4)]) simp
  obtain sp2 w2 where raw: "run cl (StatefulPodCtrl_expansionPVC env sp1 (int i)) w1 = (Done (Inr (kept_entry sp1 i (Vc w1)), sp2), w2)"
    "Status sp2 = Status sp1" "same_shape sp1 sp2" "w2 = w1 \<or> (\<exists>p y. pvc_srv cl (Create p) w1 = (y, w2))"
    and kept: "claim_kept sp1 i (Vc w1) (Vc w2)"
    by (rule run_expansionPVC_repair [where env = env and w = w1, OF c(4,5) pre1])
  note pvc = raw [unfolded v1 e1] and kept = kept [unfolded v1]
  have v2: "Vs w2 = Vs w" "Vp w2 = Vp w1" using pvc(4) c(8,9) v1 by auto
  have shape: "same_shape sp sp2" by (rule same_shape_trans [OF pod(4) pvc(3)])
  have pre: "0 \<le> int i" "int i \<le> int (length (pods_of sp))" "Status sp2 = Status sp" "sp_key sp2 = sp_key sp" "Vs w2 (sp_key sp) = Some cur"
    using assms(3,7) pvc(2) pod(3) shape v2 by (simp_all add: same_shape_def)
  obtain sp' w' where fin: "run cl (StatefulPodCtrl_expansion env fuel sp (int i)) w = (Done (result0, None), w')"
    "Vs w' = (Vs w2)(sp_key sp := written (sp_Meta cur) sp')" "Vp w' = Vp w2" "Vc w' = Vc w2" and lists: "pods_of sp' = put (int i) (fresh_entry sp i) (pods_of sp)"
    "pvcs_of sp' = put (int i) (kept_entry sp i (Vc w)) (pvcs_of sp)" and st: "Spec sp' = Spec sp2" "sp_key sp' = sp_key sp"
    "Finalizers (sp_Meta sp') = Finalizers (sp_Meta sp2)" "DeletionTimestamp (sp_Meta sp') = DeletionTimestamp (sp_Meta cur)"
    using run_expansion_finish [OF assms(1,2) pre(1,2) assms(8,5) pod(1) pvc(1) pre(3-5)] by blast
  have same: "same_shape sp sp'"
    using shape st by (intro same_shape_trans [OF shape same_shape_stored]) (simp_all add: same_shape_def)
  then have "Vs w' = (Vs w)(sp_key sp \<mapsto> sp')" using fin(2) v2(1) assms(9) by (simp add: same_shape_def)
  moreover have "pods_of sp' = (pods_of sp)[i := fresh_entry sp i]" "pvcs_of sp' = (pvcs_of sp)[i := kept_entry sp i (Vc w)]"
    using lists assms(3) wf_status_length [OF assms(2)] by (simp_all add: put_def)
  moreover have "claim_kept sp i (Vc w) (Vc w2)" using kept unfolding same_shape_claim(2) [OF pod(4)] .
  ultimately show thesis using fin(1,3,4) same v2 pod(2,5) st(4) by (intro that [of w' sp' pod]) simp_all
qed

lemma run_repair:
  assumes "cooperative cl Vs Vp Vc" "wf_sp sp" "Size (Spec sp) = Some sz"
    "settled (int_of_int32 sz) (phases_of sp) = int_of_int32 sz"
    "IsZero (DeletionTimestamp (sp_Meta sp))" "GroupVersion_String \<in> set (Finalizers (sp_Meta sp))"
    "i < length (pods_of sp)" "\<forall>k < i. entry_ok (Vp w) (Namespace (sp_Meta sp)) (pods_of sp ! k)"
    "PodName (pods_of sp ! i) = PodService_GetName sp (int i)" "Vp w (pod_key sp i) = None" "repairable sp"
    "reads (svc_srv cl) Vv" "\<And>r w. Vv (snd (sp_srv cl r w)) = Vv w"
    "i = 0 \<Longrightarrow> ServiceTemplate (Spec sp) \<noteq> None \<Longrightarrow> Vv w (svc_key sp) \<noteq> None" "Vs w (sp_key sp) = Some cur" "2 \<le> fuel"
  obtains sp' pod w' where "run cl (StatefulPodCtrl_CoreCtrl env fuel sp) w = (Done (result0, None), w')"
    "Vs w' = (Vs w)(sp_key sp \<mapsto> sp')" "Vp w' = (Vp w)(pod_key sp i \<mapsto> pod)"
    "child sp (PodService_GetName sp (int i)) (int i) (pod_Meta pod)" "claim_kept sp i (Vc w) (Vc w')" "same_shape sp sp'"
    "pods_of sp' = (pods_of sp)[i := fresh_entry sp i]" "pvcs_of sp' = (pvcs_of sp)[i := kept_entry sp i (Vc w)]"
    "DeletionTimestamp (sp_Meta sp') = DeletionTimestamp (sp_Meta cur)"
proof -
  have gone: "Vp w (NN (Namespace (sp_Meta sp)) (PodName (pods_of sp ! i))) = None" unfolding assms(9) by (rule assms(10))
  obtain sp2 w2 where mt: "run cl (StatefulPodCtrl_maintain env fuel sp) w = run cl (StatefulPodCtrl_expansion env fuel sp2 (int i)) w2"
    and u1: "Vs w2 = (Vs w)(sp_key sp \<mapsto> sp2)" and v2: "Vp w2 = Vp w" "Vc w2 = Vc w"
    and k2: "Spec sp2 = Spec sp" "sp_key sp2 = sp_key sp" and wf2: "wf_sp sp2"
    and p2: "pods_of sp2 = (pods_of sp)[i := (pods_of sp ! i)\<lparr>ps_Status := ''Deleting''\<rparr>]" "pvcs_of sp2 = pvcs_of sp"
    and f2: "Finalizers (sp_Meta sp2) = Finalizers (sp_Meta sp)" "DeletionTimestamp (sp_Meta sp2) = DeletionTimestamp (sp_Meta cur)"
    and upd: "\<exists>x. run cl (StatefulPodService_Update fuel x) w = (Done (Inr sp2), w2)"
    by (rule run_maintain_vanished [OF assms(1,2,7,8) gone assms(15,16)]) (use assms(6) in auto)
  have shape: "same_shape sp sp2" by (rule same_shape_stored [OF k2 f2(1)])
  have nm: "PodService_GetName sp2 = PodService_GetName sp" "Namespace (sp_Meta sp2) = Namespace (sp_Meta sp)"
    using k2(2) by (auto simp: PodService_GetName_def fun_eq_iff)
  obtain x where "run cl (StatefulPodService_Update fuel x) w = (Done (Inr sp2), w2)" using upd by blast
  then have vv: "Vv w2 = Vv w" by (rule run_Update_frame [OF assms(13)])
  have "svc_key sp2 = svc_key sp" using k2(2) by (simp add: SetServiceName_def)
  then have svc: "run cl (StatefulPodCtrl_expansionSvc env sp2 (int i)) w2 = (Done True, w2)"
    using assms(14) k2(1) vv by (intro run_expansionSvc [OF assms(12)]) simp
  have pre: "i < length (pods_of sp2)" "Vp w2 (pod_key sp2 i) = None" "Vs w2 (sp_key sp2) = Some sp2"
    using assms(7,10) u1 k2(2) by (simp_all add: p2 nm v2)
  obtain sp' pod w' where e: "run cl (StatefulPodCtrl_expansion env fuel sp2 (int i)) w2 = (Done (result0, None), w')"
    "Vs w' = (Vs w2)(sp_key sp2 \<mapsto> sp')" "Vp w' = (Vp w2)(pod_key sp2 i \<mapsto> pod)"
    "child sp2 (PodService_GetName sp2 (int i)) (int i) (pod_Meta pod)" "claim_kept sp2 i (Vc w2) (Vc w')" "same_shape sp2 sp'"
    "pods_of sp' = (pods_of sp2)[i := fresh_entry sp2 i]" "pvcs_of sp' = (pvcs_of sp2)[i := kept_entry sp2 i (Vc w2)]"
    "DeletionTimestamp (sp_Meta sp') = DeletionTimestamp (sp_Meta sp2)"
    by (rule run_expansion_repair [OF assms(1) wf2 pre(1) repairable_shape [OF shape assms(11)] svc pre(2,3) assms(16)]) (use f2(1) assms(6) in auto)
  have "kept_entry sp2 i (Vc w2) = kept_entry sp i (Vc w)" using same_shape_claim(3) [OF shape] p2(2) v2(2) by simp
  moreover have "child sp (PodService_GetName sp (int i)) (int i) (pod_Meta pod)" using e(4) k2(2) by (simp add: child_def nm)
  moreover have "Vs w' = (Vs w)(sp_key sp \<mapsto> sp')" using e(2) u1 k2(2) by simp
  moreover have "claim_kept sp i (Vc w) (Vc w')" using e(5) unfolding same_shape_claim(2) [OF shape] v2 .
  ultimately show thesis
    using e(1,3,7-9) same_shape_trans [OF shape e(6)] v2 f2(2) p2
    by (intro that [of w' sp' pod]) (simp_all add: CoreCtrl_keep [OF assms(2-6)] mt nm)
qed

text \<open>A vanished pod is recreated in its place with its claim. When the first entry that disagrees is that of an
  ordinal whose pod is gone, and its claim is still there, one call of \<open>CoreCtrl\<close> creates a pod
  of the same name and stores the entry as preparing; the claim, its status entry and all other ordinals stay as they are.\<close>

theorem vanished_pod_recreated:
  assumes "cooperative cl Vs Vp Vc" "wf_sp sp" "Size (Spec sp) = Some sz"
    "settled (int_of_int32 sz) (phases_of sp) = int_of_int32 sz"
    "IsZero (DeletionTimestamp (sp_Meta sp))" "GroupVersion_String \<in> set (Finalizers (sp_Meta sp))"
    "i < length (pods_of sp)" "\<forall>k < i. entry_ok (Vp w) (Namespace (sp_Meta sp)) (pods_of sp ! k)"
    "PodName (pods_of sp ! i) = PodService_GetName sp (int i)"
    "Vp w (NN (Namespace (sp_Meta sp)) (PodService_GetName sp (int i))) = None"
    "repairable sp" "PVCTemplate (Spec sp) = Some t"
    "Vc w (NN (Namespace (sp_Meta sp)) (claim_name sp (int i))) = Some pvc"
    "reads (svc_srv cl) Vv" "\<And>r w. Vv (snd (sp_srv cl r w)) = Vv w"
    "i = 0 \<Longrightarrow> ServiceTemplate (Spec sp) \<noteq> None \<Longrightarrow> Vv w (svc_key sp) \<noteq> None" "Vs w (sp_key sp) = Some cur" "2 \<le> fuel"
  shows "\<exists>sp' pod w'. run cl (StatefulPodCtrl_CoreCtrl env fuel sp) w = (Done (result0, None), w') \<and>
    Vs w' = (Vs w)(sp_key sp \<mapsto> sp') \<and> Vc w' = Vc w \<and>
    Vp w' = (Vp w)(NN (Namespace (sp_Meta sp)) (PodService_GetName sp (int i)) \<mapsto> pod) \<and>
    pods_of sp' = (pods_of sp)[i := \<lparr>PodName = PodService_GetName sp (int i), ps_Status = ''Preparing'',
      ps_Index = Some (int32_of (int i)), NodeName = ''''\<rparr>] \<and>
    pvcs_of sp' = pvcs_of sp"
proof -
  have h: "has_claim sp i (Vc w)" using assms(12,13) by (simp add: has_claim_def)
  obtain sp' pod w' where r: "run cl (StatefulPodCtrl_CoreCtrl env fuel sp) w = (Done (result0, None), w')"
    "Vs w' = (Vs w)(sp_key sp \<mapsto> sp')" "Vp w' = (Vp w)(pod_key sp i \<mapsto> pod)" "claim_kept sp i (Vc w) (Vc w')"
    "pods_of sp' = (pods_of sp)[i := fresh_entry sp i]" "pvcs_of sp' = (pvcs_of sp)[i := kept_entry sp i (Vc w)]"
    by (rule run_repair [OF assms(1-11,14-18)])
  then show ?thesis using h by (auto simp: claim_kept_def kept_entry_def)
qed

theorem vanished_pod_recreated_witness:
  "\<exists>sp' pod w'. run mem_client (StatefulPodCtrl_CoreCtrl demo_env 2 steady_sp)
      (empty_world\<lparr>sps := (\<lambda>_. None)(NN ''ns'' ''db'' \<mapsto> steady_sp),
        claims := (\<lambda>_. Some (demo_pvc ''data-db-0'' ''0'' ''Bound''))\<rparr>) = (Done (result0, None), w') \<and>
    sps w' (NN ''ns'' ''db'') = Some sp' \<and> pvcs_of sp' = pvcs_of steady_sp \<and>
    pods w' (NN ''ns'' (PodService_GetName steady_sp 0)) = Some pod"
proof -
  define w0 where "w0 = empty_world\<lparr>sps := (\<lambda>_. None)(NN ''ns'' ''db'' \<mapsto> steady_sp),
        claims := (\<lambda>_. Some (demo_pvc ''data-db-0'' ''0'' ''Bound''))\<rparr>"
  have w0: "sps w0 (sp_key steady_sp) = Some steady_sp" "pods w0 nn = None" "claims w0 nn = Some (demo_pvc ''data-db-0'' ''0'' ''Bound'')" for nn
    unfolding steady_sp_simps(7) by (simp_all add: w0_def empty_world_def)
  have ns: "Namespace (sp_Meta steady_sp) = ''ns''" "Name (sp_Meta steady_sp) = ''db''" using steady_sp_simps(7) by simp_all
  have p0: "0 < length (pods_of steady_sp)" "PodName (pods_of steady_sp ! 0) = PodService_GetName steady_sp (int 0)"
    by (simp_all add: steady_sp_simps(6))
  have none: "\<forall>k < 0. entry_ok (pods w0) (Namespace (sp_Meta steady_sp)) (pods_of steady_sp ! k)" by simp
  have rep: "repairable steady_sp" by (simp add: repairable_def steady_sp_simps(8)) (simp add: steady_sp_def demo_defs Let_def)
  have vv: "svcs (snd (sp_srv mem_client r w)) = svcs w" for r w by (simp add: mem_client_def split: prod.split)
  have svc: "(0 :: nat) = 0 \<Longrightarrow> ServiceTemplate (Spec steady_sp) \<noteq> None \<Longrightarrow> svcs w0 (svc_key steady_sp) \<noteq> None"
    by (simp add: steady_sp_simps(10))
  have "\<exists>sp' pod w'. run mem_client (StatefulPodCtrl_CoreCtrl demo_env 2 steady_sp) w0 = (Done (result0, None), w') \<and>
      sps w' = (sps w0)(sp_key steady_sp \<mapsto> sp') \<and> pvcs_of sp' = pvcs_of steady_sp \<and>
      pods w' = (pods w0)(NN (Namespace (sp_Meta steady_sp)) (PodService_GetName steady_sp (int 0)) \<mapsto> pod)"
    using vanished_pod_recreated [OF mem_cooperative steady_sp_simps(1-5) p0(1) none p0(2) w0(2) rep steady_sp_simps(9) w0(3) mem_reads(4) vv svc w0(1) order_refl,
        of demo_env] by blast
  then obtain sp' pod w' where r: "run mem_client (StatefulPodCtrl_CoreCtrl demo_env 2 steady_sp) w0 = (Done (result0, None), w')"
      "sps w' = (sps w0)(sp_key steady_sp \<mapsto> sp')" "pvcs_of sp' = pvcs_of steady_sp"
      "pods w' = (pods w0)(NN (Namespace (sp_Meta steady_sp)) (PodService_GetName steady_sp (int 0)) \<mapsto> pod)" by blast
  then have "sps w' (NN ''ns'' ''db'') = Some sp'" "pods w' (NN ''ns'' (PodService_GetName steady_sp 0)) = Some pod"
    unfolding steady_sp_simps(7) ns by simp_all
  with r show ?thesis unfolding w0_def by blast
qed

end
