(* ===== verification/Monitoring.thy ===== *)
theory Monitoring
  imports Maintenance
begin

text \<open>
  The reaction to the events of pods and claims: nodes, lost pods, deletion, running, timeouts, and
  the way of an event from the queue to the status entry of its ordinal.
\<close>

section \<open>Nodes\<close>

lemma time_Sub_less:
  "- (2 ^ 63) < s \<Longrightarrow> s \<le> 2 ^ 63 - 1 \<Longrightarrow> time_Sub t u < s \<longleftrightarrow> t - u < s"
  unfolding time_Sub_def by linarith

lemma run_IsNodeReady:
  assumes "0 \<le> node_Timeout (cfg_Node (cfg env))" "node_Timeout (cfg_Node (cfg env)) < 2 ^ 33"
  shows "run cl (IsNodeReady env (NN '''' n)) w =
    (if n = '''' then (Done True, w)
     else case node_srv cl (Get (NN '''' n)) w of
       (Inl e, w') \<Rightarrow> (Done False, w')
     | (Inr node, w') \<Rightarrow>
         if node_Conditions node = [] then (Panicked IndexOutOfRange, w')
         else let c = last (node_Conditions node) in
           if nc_Status c = ''True'' then (Done True, w')
           else (case clock cl w' of (t, w'') \<Rightarrow>
             (Done (t - nc_LastTransitionTime c < 1000000000 * node_Timeout (cfg_Node (cfg env))), w'')))"
proof -
  let ?s = "seconds (node_Timeout (cfg_Node (cfg env)))"
  have s: "?s = 1000000000 * node_Timeout (cfg_Node (cfg env))" by (rule seconds_small [OF assms])
  have less: "time_Sub t u < ?s \<longleftrightarrow> t - u < 1000000000 * node_Timeout (cfg_Node (cfg env))" for t u
    unfolding s by (rule time_Sub_less) (use assms in simp_all)
  have le: "?s \<le> time_Sub t u \<longleftrightarrow> \<not> t - u < 1000000000 * node_Timeout (cfg_Node (cfg env))" for t u
    unfolding not_less [symmetric] less ..
  have idx: "go_index xs (int (length xs) - 1) = (if xs = [] then Panic IndexOutOfRange else Ret (last xs))" for xs :: "NodeCondition list"
    using last_conv_nth_int [of xs] by (cases xs) (auto simp: go_index_def)
  show ?thesis
    by (auto simp: IsNodeReady_def Let_def idx le split: prod.split sum.split)
qed

text \<open>C28: when a node counts as ready. A pod without a node is on a ready node; otherwise the node must be found, and its
  last condition must be true or have been otherwise for less than the configured time (for a timeout below
  \<open>2 ^ 33\<close> seconds nothing wraps). Any failure to read the node, not only NotFound, counts
  as not ready, and a node without conditions panics.\<close>

theorem node_ready:
  assumes "0 \<le> node_Timeout (cfg_Node (cfg env))" "node_Timeout (cfg_Node (cfg env)) < 2 ^ 33"
  shows "run cl (IsNodeReady env (NN '''' n)) w =
    (if n = '''' then (Done True, w)
     else case node_srv cl (Get (NN '''' n)) w of
       (Inl e, w') \<Rightarrow> (Done False, w')
     | (Inr node, w') \<Rightarrow>
         if node_Conditions node = [] then (Panicked IndexOutOfRange, w')
         else let c = last (node_Conditions node) in
           if nc_Status c = ''True'' then (Done True, w')
           else (case clock cl w' of (t, w'') \<Rightarrow>
             (Done (t - nc_LastTransitionTime c < 1000000000 * node_Timeout (cfg_Node (cfg env))), w'')))"
  using assms by (rule run_IsNodeReady)

theorem node_ready_witness:
  "run (mem_client\<lparr>node_srv := (\<lambda>r w. (Inl (ApiError ''timeout''), w))\<rparr>) (IsNodeReady demo_env (NN '''' ''n1'')) empty_world =
    (Done False, empty_world)"
  by (subst node_ready) (simp_all add: demo_env_def)

section \<open>A lost pod\<close>

text \<open>The status in which both entries of ordinal \<open>i\<close> are marked as deleting.\<close>

abbreviation both_deleting :: "StatefulPod \<Rightarrow> nat \<Rightarrow> StatefulPodStatus" where
  "both_deleting sp i \<equiv> (Status sp)\<lparr>PodStatusMes := (pods_of sp)[i := (pods_of sp ! i)\<lparr>ps_Status := ''Deleting''\<rparr>],
     PVCStatusMes := (pvcs_of sp)[i := (pvcs_of sp ! i)\<lparr>pvs_Status := ''Deleting''\<rparr>]\<rparr>"

lemma run_mark_deleting:
  assumes "i < length (pods_of sp)" "i < length (pvcs_of sp)"
  shows "run cl (mark_deleting sp (int i)) w = (Done (sp\<lparr>Status := both_deleting sp i\<rparr>), w)"
  using assms by (simp add: mark_deleting_def)

lemma MonitorPodStatus_lost:
  assumes "i < length (pods_of sp)" "IsZero (DeletionTimestamp (pod_Meta pod))"
    "run cl (IsNodeReady env (NN '''' (pod_NodeName (pod_Spec pod)))) w = (Done False, w1)"
  shows "run cl (PodCtrl_MonitorPodStatus env fuel sp pod (int i)) w = run cl (PodCtrl_nodeLost sp pod (int i)) w1"
  using assms by (simp add: PodCtrl_MonitorPodStatus_def)

text \<open>C27: a pod that is not yet being deleted and whose node is not ready is deleted with no grace period; if that succeeds, its
  claim, where the StatefulPod has claims and it is still there, is deleted as well, and both entries of the ordinal are
  marked as deleting, so that maintenance can make new ones; if a deletion is refused, the
  status stays as it is. A pod that is marked \<open>cockrochDB\<close> and not yet \<open>nodeUnhealthy\<close> is excepted. (A StatefulPod with a claim
  template has a claim volume first in its pod template; without one the call panics.)\<close>

theorem lost_pod_removed_with_claim:
  assumes "i < length (pods_of sp)" "wf_sp sp" "IsZero (DeletionTimestamp (pod_Meta pod))"
    "run cl (IsNodeReady env (NN '''' (pod_NodeName (pod_Spec pod)))) w = (Done False, w1)"
    "gomap_get (Annotations (pod_Meta pod)) ''cockrochDB'' = None \<or> gomap_get (Annotations (pod_Meta pod)) ''nodeUnhealthy'' \<noteq> None"
    "pod_srv cl (Delete pod mandatory_options) w1 = (r, w2)" "PVCTemplate (Spec sp) \<noteq> None \<Longrightarrow> claim_volume (Spec sp)"
    "reads (pvc_srv cl) Vc"
  shows "\<exists>b sp' w'. run cl (PodCtrl_MonitorPodStatus env fuel sp pod (int i)) w = (Done (b, sp'), w') \<and>
    (case r of
       Inl e \<Rightarrow> \<not> b \<and> w' = w2 \<and> sp' = sp
     | Inr p \<Rightarrow> (case claim_left sp (Vc w2) (int i) of
         None \<Rightarrow> b \<and> w' = w2 \<and> Status sp' = both_deleting sp i
       | Some pvc \<Rightarrow> (case pvc_srv cl (Delete pvc mandatory_options) w2 of
           (Inl e, w3) \<Rightarrow> \<not> b \<and> w' = w3 \<and> Status sp' = Status sp
         | (Inr q, w3) \<Rightarrow> b \<and> w' = w3 \<and> Status sp' = both_deleting sp i)))"
proof -
  have "PodService_webhook pod sp = Ret (None, pod)"
    using assms(5) by (auto simp: PodService_webhook_def)
  then have del: "run cl (PodService_DeleteMandatory pod sp) w1 = (Done (case r of Inl e \<Rightarrow> Some e | Inr p \<Rightarrow> None), w2)"
    using assms(6) by (cases r) (simp_all add: PodService_DeleteMandatory_def)
  show ?thesis
  proof (cases "PVCTemplate (Spec sp) = None")
    case True
    have len: "i < length (pvcs_of sp)" using assms(1) wf_status_length [OF assms(2)] by simp
    show ?thesis
      unfolding MonitorPodStatus_lost [OF assms(1,3,4)] using True
      by (cases r) (auto simp: PodCtrl_nodeLost_def del claim_left_def run_mark_deleting [OF assms(1) len])
  next
    case False
    then obtain tm where t: "PVCTemplate (Spec sp) = Some tm" by blast
    obtain sp1 where nm: "SetPVCName sp (int i) = Ret (claim_name sp (int i), sp1)" "sp_Meta sp1 = sp_Meta sp" "Status sp1 = Status sp"
      by (rule SetPVCName_claim_name [OF assms(7) [OF False], of "int i"])
    have len: "i < length (pods_of sp1)" "i < length (pvcs_of sp1)"
      using assms(1) wf_status_length [OF assms(2)] nm(3) by simp_all
    have cdel: "run cl (PVCService_DeleteMandatory pvc sp1) w2 = (case pvc_srv cl (Delete pvc mandatory_options) w2 of
        (Inl e, w3) \<Rightarrow> (Done (Some e), w3) | (Inr q, w3) \<Rightarrow> (Done None, w3))" for pvc
      by (auto simp: PVCService_DeleteMandatory_def mandatory_options_def split: prod.split sum.split)
    have left: "claim_left sp (Vc w2) (int i) = Vc w2 (NN (Namespace (sp_Meta sp)) (claim_name sp (int i)))"
      using t by (simp add: claim_left_def)
    show ?thesis
      unfolding MonitorPodStatus_lost [OF assms(1,3,4)] left
      using nm(2,3)
      by (cases r; cases "Vc w2 (NN (Namespace (sp_Meta sp)) (claim_name sp (int i)))")
        (auto simp: PodCtrl_nodeLost_def del t PVCService_GetName_def nm(1) pvc_reader.IsExists_reads [OF assms(8)]
          run_mark_deleting [OF len] cdel split: prod.split sum.split)
  qed
qed

text \<open>The concrete case: a node that cannot be read, and nothing else in the cluster.\<close>

definition node_client :: "world client" where
  "node_client = mem_client\<lparr>node_srv := (\<lambda>r w. (Inl (ApiError ''timeout''), w))\<rparr>"

definition lost_pod :: Pod where
  "lost_pod = (demo_pod ''db-0'' ''0'' ''Running'')\<lparr>pod_Spec := demo_template\<lparr>pod_NodeName := ''n1''\<rparr>\<rparr>"

theorem lost_pod_removed_with_claim_witness:
  "\<exists>sp' w'. run node_client (PodCtrl_MonitorPodStatus demo_env 1 steady_sp lost_pod 0)
      (empty_world\<lparr>pods := (\<lambda>_. Some lost_pod)\<rparr>) = (Done (True, sp'), w') \<and> Status sp' = both_deleting steady_sp 0"
proof -
  define w0 where "w0 = empty_world\<lparr>pods := (\<lambda>_. Some lost_pod)\<rparr>"
  have lost: "IsZero (DeletionTimestamp (pod_Meta lost_pod))" "gomap_get (Annotations (pod_Meta lost_pod)) ''cockrochDB'' = None"
    "pod_NodeName (pod_Spec lost_pod) = ''n1''"
    by (simp_all add: lost_pod_def demo_defs)
  have node: "run node_client (IsNodeReady demo_env (NN '''' (pod_NodeName (pod_Spec lost_pod)))) w0 = (Done False, w0)"
    by (simp add: IsNodeReady_def node_client_def lost(3))
  obtain p w2 where del: "pod_srv node_client (Delete lost_pod mandatory_options) w0 = (Inr p, w2)" "claims w2 = (\<lambda>_. None)"
    by (simp add: node_client_def w0_def mem_simps Let_def)
  have rd: "reads (pvc_srv node_client) claims" by (simp add: node_client_def)
  have "0 < length (pods_of steady_sp)" by (simp add: steady_sp_simps(6))
  from lost_pod_removed_with_claim [OF this steady_sp_simps(1) lost(1) node disjI1 [OF lost(2)] del(1) steady_sp_simps(8) rd, of 1]
  show ?thesis unfolding w0_def [symmetric] by (auto simp: del(2) claim_left_def split: if_splits)
qed

text \<open>
  The requests on one pod alone: to read it, and to store it with the annotation \<open>nodeUnhealthy\<close> added. Nothing is
  asked for any other object, and the answers are arbitrary.
\<close>

definition unhealthy :: "Pod \<Rightarrow> Pod" where
  "unhealthy pod = pod\<lparr>pod_Meta := (pod_Meta pod)\<lparr>Annotations :=
     map_option (AList.update ''nodeUnhealthy'' ''true'') (Annotations (pod_Meta pod))\<rparr>\<rparr>"

definition no_side :: "'o side" where
  "no_side = \<lparr>guar = (\<lambda>_. False), rely = (\<lambda>_ _. True)\<rparr>"

definition only_marks :: "Pod \<Rightarrow> contract" where
  "only_marks pod = \<lparr>c_sp = no_side,
     c_pod = \<lparr>guar = (\<lambda>r. case r of Get nn \<Rightarrow> nn = NN (Namespace (pod_Meta pod)) (Name (pod_Meta pod))
       | Update x \<Rightarrow> x = unhealthy pod | _ \<Rightarrow> False), rely = (\<lambda>_ _. True)\<rparr>,
     c_pvc = no_side, c_svc = no_side, c_pv = no_side, c_node = no_side\<rparr>"

lemma only_marks_pod [simp]:
  "guar (c_pod (only_marks pod)) r = (case r of Get nn \<Rightarrow> nn = NN (Namespace (pod_Meta pod)) (Name (pod_Meta pod))
     | Update x \<Rightarrow> x = unhealthy pod | _ \<Rightarrow> False)" "rely (c_pod (only_marks pod)) r x"
  by (simp_all add: only_marks_def)

text \<open>C29: the pods of the database \<open>cockrochDB\<close> are protected: when such a pod is not yet marked as unhealthy, then whatever the
  server answers, \<open>DeleteMandatory\<close> deletes nothing: its only requests are reads of this pod and an update of it that adds the
  annotation \<open>nodeUnhealthy\<close>, and it reports an error. The handling of the pod's lost node then makes no other request either,
  on any kind of object, and leaves the status alone.\<close>

theorem cockroach_pods_protected:
  assumes "gomap_get (Annotations (pod_Meta pod)) ''cockrochDB'' \<noteq> None"
    "gomap_get (Annotations (pod_Meta pod)) ''nodeUnhealthy'' = None"
  shows "meets (only_marks pod) (\<lambda>e. e \<noteq> None) (\<lambda>_. False) (PodService_DeleteMandatory pod sp) \<and>
    meets (only_marks pod) (\<lambda>(b, sp'). \<not> b \<and> sp' = sp) (\<lambda>_. False) (PodCtrl_nodeLost sp pod i)"
proof -
  have upd: "meets (only_marks pod) (\<lambda>_. True) (\<lambda>_. False) (PodService_Update (unhealthy pod))"
    by (auto simp: PodService_Update_def PodService_IsResourceVersionSame_def PodService_IsExists_def unhealthy_def split: sum.split)
  have hook: "meets (only_marks pod) (\<lambda>(e, p). e \<noteq> None) (\<lambda>_. False) (PodService_webhook pod sp)"
    using assms by (auto simp: PodService_webhook_def Let_def simp flip: unhealthy_def intro!: meets_mono [OF upd] split: sum.split)
  have del: "meets (only_marks pod) (\<lambda>e. e \<noteq> None) (\<lambda>_. False) (PodService_DeleteMandatory pod sp)"
    unfolding PodService_DeleteMandatory_def by (rule meets_bndI [OF hook]) auto
  moreover have "meets (only_marks pod) (\<lambda>(b, sp'). \<not> b \<and> sp' = sp) (\<lambda>_. False) (PodCtrl_nodeLost sp pod i)"
    unfolding PodCtrl_nodeLost_def by (rule meets_bndI [OF del]) auto
  ultimately show ?thesis ..
qed

theorem cockroach_pods_protected_witness:
  "meets (only_marks (lost_pod\<lparr>pod_Meta := demo_meta\<lparr>Annotations := Some [(''cockrochDB'', '''')]\<rparr>\<rparr>))
     (\<lambda>(b, sp'). \<not> b \<and> sp' = steady_sp) (\<lambda>_. False)
     (PodCtrl_nodeLost steady_sp (lost_pod\<lparr>pod_Meta := demo_meta\<lparr>Annotations := Some [(''cockrochDB'', '''')]\<rparr>\<rparr>) 0)"
  using cockroach_pods_protected [of "lost_pod\<lparr>pod_Meta := demo_meta\<lparr>Annotations := Some [(''cockrochDB'', '''')]\<rparr>\<rparr>" steady_sp 0] by simp

section \<open>A pod that terminates or runs\<close>

lemma run_Monitor_deleting:
  assumes "i < length (pods_of sp)" "\<not> IsZero (DeletionTimestamp (pod_Meta pod))"
  shows "run cl (PodCtrl_MonitorPodStatus env fuel sp pod (int i)) w =
    (if ps_Status (pods_of sp ! i) = ''Deleting'' \<or> ps_Status (pods_of sp ! i) = ''CreateTimeOut'' then (Done (False, sp), w)
     else (Done (True, set_pods ((pods_of sp)[i := (pods_of sp ! i)\<lparr>ps_Status := ''Deleting''\<rparr>]) sp), w))"
  using assms by (simp add: PodCtrl_MonitorPodStatus_def)

definition running_entry :: "Pod \<Rightarrow> PodStatus \<Rightarrow> PodStatus" where
  "running_entry pod p = p\<lparr>PodName := Name (pod_Meta pod), ps_Status := ''Running'', NodeName := pod_NodeName (pod_Spec pod)\<rparr>"

lemma run_Monitor_running:
  assumes "i < length (pods_of sp)" "IsZero (DeletionTimestamp (pod_Meta pod))" "PodCtrl_isPodRunning pod"
    "run cl (IsNodeReady env (NN '''' (pod_NodeName (pod_Spec pod)))) w = (Done True, w1)"
  shows "run cl (PodCtrl_MonitorPodStatus env fuel sp pod (int i)) w =
    (if ps_Status (pods_of sp ! i) = ''Running'' then (Done (False, sp), w1)
     else (Done (True, set_pods ((pods_of sp)[i := running_entry pod (pods_of sp ! i)]) sp), w1))"
  using assms by (simp add: PodCtrl_MonitorPodStatus_def running_entry_def)

text \<open>What the event of a terminating pod, or of a running one, is to leave in the status.\<close>

definition recorded_event :: "Pod \<Rightarrow> nat \<Rightarrow> StatefulPod \<Rightarrow> bool \<times> StatefulPod" where
  "recorded_event pod i sp = (let p = pods_of sp ! i in
     if \<not> IsZero (DeletionTimestamp (pod_Meta pod)) then
       if ps_Status p \<in> {''Deleting'', ''CreateTimeOut''} then (False, sp)
       else (True, set_pods ((pods_of sp)[i := p\<lparr>ps_Status := ''Deleting''\<rparr>]) sp)
     else if ps_Status p = ''Running'' then (False, sp)
     else (True, set_pods ((pods_of sp)[i := running_entry pod p]) sp))"

lemma recorded_event_again:
  "i < length (pods_of sp) \<Longrightarrow> recorded_event pod i (snd (recorded_event pod i sp)) = (False, snd (recorded_event pod i sp)) \<and>
     length (pods_of (snd (recorded_event pod i sp))) = length (pods_of sp)"
  by (auto simp: recorded_event_def Let_def running_entry_def)

lemma run_recorded_event:
  assumes "i < length (pods_of sp)"
    "\<not> IsZero (DeletionTimestamp (pod_Meta pod)) \<or> PodCtrl_isPodRunning pod \<and>
       (\<exists>w1. run cl (IsNodeReady env (NN '''' (pod_NodeName (pod_Spec pod)))) w = (Done True, w1))"
  shows "\<exists>w1. run cl (PodCtrl_MonitorPodStatus env fuel sp pod (int i)) w = (Done (recorded_event pod i sp), w1)"
proof (cases "IsZero (DeletionTimestamp (pod_Meta pod))")
  case False
  then show ?thesis using run_Monitor_deleting [OF assms(1) False, of cl env fuel w] by (auto simp: recorded_event_def)
next
  case True
  with assms(2) obtain w1 where "PodCtrl_isPodRunning pod"
    "run cl (IsNodeReady env (NN '''' (pod_NodeName (pod_Spec pod)))) w = (Done True, w1)" by auto
  with run_Monitor_running [OF assms(1) True this] True show ?thesis by (auto simp: recorded_event_def)
qed

text \<open>C30: the events of a terminating pod, and of a running and ready pod on a ready node, are recorded in the entry of
  the pod's ordinal, and once only. A terminating pod's entry becomes deleting, unless it is that already or the creation had timed
  out, in which case nothing changes and no update is asked for, so that the timeout is handled as such; a running pod's entry becomes running with
  the pod's name and node, unless it is running already. The first event that changes the entry asks for an
  update, and every repetition finds it recorded, changes nothing and asks for none.\<close>

theorem pod_events_recorded_once:
  assumes "i < length (pods_of sp)"
    "\<not> IsZero (DeletionTimestamp (pod_Meta pod)) \<or> PodCtrl_isPodRunning pod \<and>
       (\<forall>w. \<exists>w1. run cl (IsNodeReady env (NN '''' (pod_NodeName (pod_Spec pod)))) w = (Done True, w1))"
  shows "let p = pods_of sp ! i;
      r = (if \<not> IsZero (DeletionTimestamp (pod_Meta pod)) then
             if ps_Status p \<in> {''Deleting'', ''CreateTimeOut''} then (False, sp)
             else (True, set_pods ((pods_of sp)[i := p\<lparr>ps_Status := ''Deleting''\<rparr>]) sp)
           else if ps_Status p = ''Running'' then (False, sp)
           else (True, set_pods ((pods_of sp)[i := running_entry pod p]) sp))
    in (\<exists>w1. run cl (PodCtrl_MonitorPodStatus env fuel sp pod (int i)) w = (Done r, w1)) \<and>
       (\<forall>w2. \<exists>w3. run cl (PodCtrl_MonitorPodStatus env fuel (snd r) pod (int i)) w2 = (Done (False, snd r), w3))"
proof -
  have seen: "\<exists>w3. run cl (PodCtrl_MonitorPodStatus env fuel sp' pod (int i)) w2 = (Done (recorded_event pod i sp'), w3)"
    if "i < length (pods_of sp')" for sp' w2
    using assms(2) by (intro run_recorded_event [OF that]) blast
  have "(\<exists>w1. run cl (PodCtrl_MonitorPodStatus env fuel sp pod (int i)) w = (Done (recorded_event pod i sp), w1)) \<and>
    (\<forall>w2. \<exists>w3. run cl (PodCtrl_MonitorPodStatus env fuel (snd (recorded_event pod i sp)) pod (int i)) w2 =
       (Done (False, snd (recorded_event pod i sp)), w3))"
    using seen [OF assms(1)] seen [of "snd (recorded_event pod i sp)"] recorded_event_again [OF assms(1), of pod] assms(1) by simp
  then show ?thesis unfolding recorded_event_def Let_def .
qed

theorem pod_events_recorded_once_witness:
  "\<exists>w1. run mem_client (PodCtrl_MonitorPodStatus demo_env 1 (demo_sp 1 [(''Preparing'', '''')]) (demo_pod ''db-0'' ''0'' ''Running'') (int 0)) empty_world =
     (Done (True, set_pods [running_entry (demo_pod ''db-0'' ''0'' ''Running'') (pods_of (demo_sp 1 [(''Preparing'', '''')]) ! 0)]
       (demo_sp 1 [(''Preparing'', '''')])), w1)"
proof -
  let ?sp = "demo_sp 1 [(''Preparing'', '''')]"
  let ?pod = "demo_pod ''db-0'' ''0'' ''Running''"
  have node: "\<forall>w. \<exists>w1. run mem_client (IsNodeReady demo_env (NN '''' (pod_NodeName (pod_Spec ?pod)))) w = (Done True, w1)"
    by (simp add: IsNodeReady_def demo_defs)
  have pods: "pods_of ?sp = [pods_of ?sp ! 0]" "(ps_Status (pods_of ?sp ! 0) = ''Running'') = False" "length (pods_of ?sp) = 1"
    and run: "IsZero (DeletionTimestamp (pod_Meta ?pod))" "PodCtrl_isPodRunning ?pod"
    by (simp_all add: demo_defs PodCtrl_isPodRunning_def)
  have lt: "0 < length (pods_of ?sp)" using pods(3) by simp
  have one: "(pods_of ?sp)[0 := p] = [p]" for p by (subst pods(1)) simp
  have z: "(\<not> IsZero (DeletionTimestamp (pod_Meta ?pod))) = False" using run(1) by simp
  show ?thesis
    by (rule conjunct1 [OF pod_events_recorded_once [OF lt disjI2 [OF conjI [OF run(2) node]], of 1 empty_world,
      unfolded Let_def z pods(2) one if_False snd_conv]])
qed

section \<open>A creation that takes too long\<close>

text \<open>A deletion that is neither carried out nor for an object that is gone already.\<close>

fun refused :: "'o resp \<Rightarrow> bool" where
  "refused (Inl e) \<longleftrightarrow> e \<noteq> NotFound"
| "refused (Inr x) \<longleftrightarrow> False"

lemma run_Delete_refused:
  "run cl (PodService_Delete pod) w = (case pod_srv cl (Delete pod []) w of (r, w') \<Rightarrow>
     (Done (case r of Inl e \<Rightarrow> IgnoreNotFound e | Inr x \<Rightarrow> None), w'))"
  by (auto simp: run_PodService_Delete split: prod.split sum.split)

lemma run_timedOutStatus:
  assumes "i < length (pods_of sp)" "length (pvcs_of sp) = length (pods_of sp)"
  shows "run cl (PodCtrl_timedOutStatus sp (int i)) w = (Done (sp\<lparr>Status := (if Suc i = length (pods_of sp)
      then (Status sp)\<lparr>PodStatusMes := butlast (pods_of sp), PVCStatusMes := butlast (pvcs_of sp)\<rparr>
      else both_deleting sp i)\<rparr>), w)"
proof (cases "Suc i = length (pods_of sp)")
  case True
  then have "butlast (pods_of sp) = take i (pods_of sp)" "butlast (pvcs_of sp) = take i (pvcs_of sp)"
    using assms(2) by (simp_all add: butlast_conv_take flip: True)
  with True assms show ?thesis by (simp add: PodCtrl_timedOutStatus_def)
next
  case False
  with assms show ?thesis by (simp add: PodCtrl_timedOutStatus_def run_mark_deleting)
qed

lemma run_timedOutClaim:
  assumes "reads (pvc_srv cl) Vc" "PVCTemplate (Spec sp) \<noteq> None \<Longrightarrow> claim_volume (Spec sp)"
    "Namespace (pod_Meta pod) = Namespace (sp_Meta sp)"
    "\<And>pvc. claim_left sp (Vc w) (int i) = Some pvc \<Longrightarrow> \<not> refused (fst (pvc_srv cl (Delete pvc []) w))"
  shows "\<exists>sp'. Status sp' = Status sp \<and> run cl (PodCtrl_timedOutClaim (Suc fuel) sp pod (int i)) w =
    (Done sp', case claim_left sp (Vc w) (int i) of None \<Rightarrow> w | Some pvc \<Rightarrow> snd (pvc_srv cl (Delete pvc []) w))"
proof (cases "PVCTemplate (Spec sp) = None")
  case True
  then show ?thesis by (simp add: PodCtrl_timedOutClaim_def claim_left_def)
next
  case False
  then obtain tm where t: "PVCTemplate (Spec sp) = Some tm" by blast
  obtain sp1 where nm: "SetPVCName sp (int i) = Ret (claim_name sp (int i), sp1)" "Status sp1 = Status sp"
    by (rule SetPVCName_claim_name [OF assms(2) [OF False], of "int i"])
  have left: "claim_left sp (Vc w) (int i) = Vc w (NN (Namespace (sp_Meta sp)) (claim_name sp (int i)))"
    by (simp add: claim_left_def t)
  show ?thesis
  proof (cases "Vc w (NN (Namespace (sp_Meta sp)) (claim_name sp (int i)))")
    case None
    then show ?thesis unfolding left
      by (simp add: PodCtrl_timedOutClaim_def t PVCService_GetName_def nm assms(3) pvc_reader.IsExists_reads [OF assms(1)])
  next
    case (Some pvc)
    obtain r w' where d: "pvc_srv cl (Delete pvc []) w = (r, w')" by fastforce
    then have "\<not> refused r" using assms(4) [unfolded left, OF Some] by simp
    then have "run cl (PVCService_Delete pvc) w = (Done None, w')" by (cases r) (simp_all add: run_PVCService_Delete d)
    then show ?thesis unfolding left
      by (simp add: PodCtrl_timedOutClaim_def t PVCService_GetName_def nm assms(3) pvc_reader.IsExists_reads [OF assms(1)] Some d)
  qed
qed

text \<open>C31: the creation timeout. A pod in the namespace of its StatefulPod, on a ready node, not being deleted and not running, whose
  entry is not yet timed out, is left alone until it is older than the configured time (below \<open>2 ^ 33\<close> seconds), and then only its entry
  is marked, as timed out. At the next event of such a pod the pod is deleted (a refused deletion ends the handling, with no change), then its claim,
  where the StatefulPod has claims and it is still there (that deletion is asked for again until it is accepted; here it is accepted at
  once), and then the last ordinal is dropped from both status lists, while an ordinal in
  the middle keeps its entries, marked as deleting, for maintenance. (With a claim template, the pod template has a claim volume first.)\<close>

theorem creation_timeout:
  assumes "i < length (pods_of sp)" "wf_sp sp" "IsZero (DeletionTimestamp (pod_Meta pod))" "\<not> PodCtrl_isPodRunning pod"
    "run cl (IsNodeReady env (NN '''' (pod_NodeName (pod_Spec pod)))) w = (Done True, w1)"
    "0 \<le> pod_Timeout (cfg_Pod (cfg env))" "pod_Timeout (cfg_Pod (cfg env)) < 2 ^ 33"
    "clock cl w1 = (t, w2)" "pod_srv cl (Delete pod []) w1 = (r, w3)"
    "reads (pvc_srv cl) Vc" "PVCTemplate (Spec sp) \<noteq> None \<Longrightarrow> claim_volume (Spec sp)"
    "Namespace (pod_Meta pod) = Namespace (sp_Meta sp)"
    "\<And>pvc. claim_left sp (Vc w3) (int i) = Some pvc \<Longrightarrow> \<not> refused (fst (pvc_srv cl (Delete pvc []) w3))"
  shows "\<exists>b sp' w'. run cl (PodCtrl_MonitorPodStatus env (Suc fuel) sp pod (int i)) w = (Done (b, sp'), w') \<and>
    (if ps_Status (pods_of sp ! i) \<noteq> ''CreateTimeOut'' then
       w' = w2 \<and> (if t - CreationTimestamp (pod_Meta pod) < 1000000000 * pod_Timeout (cfg_Pod (cfg env)) then \<not> b \<and> sp' = sp
         else b \<and> sp' = set_pods ((pods_of sp)[i := (pods_of sp ! i)\<lparr>ps_Status := ''CreateTimeOut''\<rparr>]) sp)
     else if refused r then \<not> b \<and> sp' = sp \<and> w' = w3
     else b \<and> w' = (case claim_left sp (Vc w3) (int i) of None \<Rightarrow> w3 | Some pvc \<Rightarrow> snd (pvc_srv cl (Delete pvc []) w3)) \<and>
       Status sp' = (if Suc i = length (pods_of sp)
         then (Status sp)\<lparr>PodStatusMes := butlast (pods_of sp), PVCStatusMes := butlast (pvcs_of sp)\<rparr>
         else both_deleting sp i))"
proof -
  let ?s = "seconds (pod_Timeout (cfg_Pod (cfg env)))"
  have s: "?s = 1000000000 * pod_Timeout (cfg_Pod (cfg env))" by (rule seconds_small [OF assms(6,7)])
  have le: "?s \<le> time_Sub t u \<longleftrightarrow> \<not> t - u < 1000000000 * pod_Timeout (cfg_Pod (cfg env))" for u
    using time_Sub_less [of ?s t u] assms(6,7) unfolding s by auto
  have len: "length (pvcs_of sp) = length (pods_of sp)" using wf_status_length [OF assms(2)] by simp
  obtain sp1 where c: "Status sp1 = Status sp" "run cl (PodCtrl_timedOutClaim (Suc fuel) sp pod (int i)) w3 =
      (Done sp1, case claim_left sp (Vc w3) (int i) of None \<Rightarrow> w3 | Some pvc \<Rightarrow> snd (pvc_srv cl (Delete pvc []) w3))"
    using run_timedOutClaim [OF assms(10-13)] by blast
  have timed: "run cl (PodCtrl_MonitorPodStatus env (Suc fuel) sp pod (int i)) w =
      run cl (PodCtrl_timedOut (Suc fuel) sp pod (int i)) w1" if "ps_Status (pods_of sp ! i) = ''CreateTimeOut''"
    using that assms(1,3-5) by (simp add: PodCtrl_MonitorPodStatus_def)
  show ?thesis
  proof (cases "ps_Status (pods_of sp ! i) = ''CreateTimeOut''")
    case False
    then show ?thesis using assms(1,3-5,8) by (auto simp: PodCtrl_MonitorPodStatus_def le)
  next
    case True
    show ?thesis
    proof (cases "refused r")
      case refused: True
      then show ?thesis unfolding timed [OF True] using True
        by (cases r) (auto simp: PodCtrl_timedOut_def run_Delete_refused assms(9) IgnoreNotFound_def)
    next
      case False
      then have "run cl (PodService_Delete pod) w1 = (Done None, w3)" by (cases r) (simp_all add: run_Delete_refused assms(9))
      then show ?thesis unfolding timed [OF True] using True False c assms(1) len
        by (auto simp: PodCtrl_timedOut_def run_timedOutStatus)
    qed
  qed
qed

theorem creation_timeout_witness:
  "\<exists>sp' w'. run mem_client (PodCtrl_MonitorPodStatus demo_env 1 (demo_sp 2 [(''Running'', ''''), (''CreateTimeOut'', '''')])
       (demo_pod ''db-1'' ''1'' ''Pending'') (int 1)) (empty_world\<lparr>pods := (\<lambda>_. Some (demo_pod ''db-1'' ''1'' ''Pending''))\<rparr>) =
       (Done (True, sp'), w') \<and>
     Status sp' = (Status (demo_sp 2 [(''Running'', ''''), (''CreateTimeOut'', '''')]))\<lparr>
       PodStatusMes := butlast (pods_of (demo_sp 2 [(''Running'', ''''), (''CreateTimeOut'', '''')])),
       PVCStatusMes := butlast (pvcs_of (demo_sp 2 [(''Running'', ''''), (''CreateTimeOut'', '''')]))\<rparr>"
proof -
  define sp where "sp = demo_sp 2 [(''Running'', ''''), (''CreateTimeOut'', '''')]"
  define pod where "pod = demo_pod ''db-1'' ''1'' ''Pending''"
  define w0 where "w0 = empty_world\<lparr>pods := (\<lambda>_. Some pod)\<rparr>"
  have sp: "1 < length (pods_of sp)" "Suc 1 = length (pods_of sp)" "wf_sp sp" "PVCTemplate (Spec sp) = None"
    "ps_Status (pods_of sp ! 1) = ''CreateTimeOut''"
    by (simp_all add: sp_def) (simp_all add: demo_sp_def)
  have pod: "IsZero (DeletionTimestamp (pod_Meta pod))" "\<not> PodCtrl_isPodRunning pod" "pod_NodeName (pod_Spec pod) = ''''"
    by (simp_all add: pod_def demo_defs PodCtrl_isPodRunning_def)
  have node: "run mem_client (IsNodeReady demo_env (NN '''' (pod_NodeName (pod_Spec pod)))) w0 = (Done True, w0)"
    by (simp add: IsNodeReady_def pod(3))
  obtain w3 where del: "pod_srv mem_client (Delete pod []) w0 = (Inr pod, w3)" by (simp add: w0_def mem_simps Let_def)
  have clk: "clock mem_client w0 = (now w0, w0)" by (simp add: mem_client_def)
  have to: "0 \<le> pod_Timeout (cfg_Pod (cfg demo_env))" "pod_Timeout (cfg_Pod (cfg demo_env)) < 2 ^ 33" by (simp_all add: demo_env_def)
  have rd: "reads (pvc_srv mem_client) claims" by simp
  have ns: "Namespace (pod_Meta pod) = Namespace (sp_Meta sp)" by (simp add: pod_def sp_def demo_pod_def demo_sp_def)
  have "\<exists>b sp'. run mem_client (PodCtrl_MonitorPodStatus demo_env (Suc 0) sp pod (int 1)) w0 = (Done (b, sp'), w3) \<and> b \<and>
    Status sp' = (Status sp)\<lparr>PodStatusMes := butlast (pods_of sp), PVCStatusMes := butlast (pvcs_of sp)\<rparr>"
    using creation_timeout [OF sp(1,3) pod(1,2) node to clk del rd _ ns, of 0] sp(2,4,5) by (simp add: claim_left_def)
  then have "\<exists>sp' w'. run mem_client (PodCtrl_MonitorPodStatus demo_env (Suc 0) sp pod (int 1)) w0 = (Done (True, sp'), w') \<and>
    Status sp' = (Status sp)\<lparr>PodStatusMes := butlast (pods_of sp), PVCStatusMes := butlast (pvcs_of sp)\<rparr>"
    by (elim exE conjE, intro exI conjI) auto
  then show ?thesis unfolding w0_def sp_def pod_def by simp
qed

end
