(* ===== verification/Interleaving.thy ===== *)
theory Interleaving
  imports Reconciler
begin

text \<open>
  Several workers at once (\<open>MaxConcurrentReconciles\<close> is 3, and a StatefulPod, its pods and its
  claims have different queue keys): the state is the StatefulPods the API server stores, every
  version it has ever stored, and the rest of each worker's program. One step is one API call of one
  worker, or a user's write, or the start or end of a worker. A read answers with any version that ever existed (the
  client reads a cache that lags behind), also one that other workers wrote to, or an error; an update is accepted only if it carries the
  stored resource version, may fail for any other reason, and removes an object that is being deleted with its last finalizer. Pods, claims, services, volumes,
  nodes and the clock answer anything the contract allows, so whatever the rest of the cluster does is covered.
\<close>

section \<open>The step relation\<close>

record cluster =
  store :: "NamespacedName \<Rightarrow> StatefulPod option"
  versions :: "StatefulPod set"
  workers :: "answer prog list"

text \<open>
  What a read may hand out for a stored version \<open>v\<close>: the client's cache shares the claim
  entries, the claim template and the reserved volume names of the objects it hands out (the
  theory DeepCopy), so writes of other workers to these parts show through, but for the ordinals of the entries
  and the absence of parts; the phases they write are the program's own.
\<close>

definition cache_drift :: "StatefulPod \<Rightarrow> StatefulPod \<Rightarrow> bool" where
  "cache_drift v sp \<longleftrightarrow> sp_key sp = sp_key v \<and> pods_of sp = pods_of v \<and>
     map pvs_Index (pvcs_of sp) = map pvs_Index (pvcs_of v) \<and>
     pvs_Status ` set (pvcs_of sp) \<subseteq> pvs_Status ` set (pvcs_of v) \<union> claim_phases \<and>
     Size (Spec sp) = Size (Spec v) \<and> PodTemplate (Spec sp) = PodTemplate (Spec v) \<and>
     (case PVCTemplate (Spec v) of None \<Rightarrow> PVCTemplate (Spec sp) = None
      | Some t \<Rightarrow> \<exists>t'. PVCTemplate (Spec sp) = Some t' \<and> (StorageClassName t \<noteq> None \<longrightarrow> StorageClassName t' \<noteq> None))"

lemma cache_drift_refl [simp, intro]: "cache_drift sp sp"
  by (simp add: cache_drift_def split: option.split)

lemma cache_drift_good:
  assumes "good s v" "cache_drift v sp"
  shows "good s sp"
proof -
  have idx: "map pvs_Index (pvcs_of sp) = map pvs_Index (pvcs_of v)" using assms(2) by (simp add: cache_drift_def)
  then have len: "length (pvcs_of sp) = length (pvcs_of v)" by (rule map_eq_imp_length_eq)
  have "pvs_Index (pvcs_of sp ! i) = pvs_Index (pvcs_of v ! i)" if "i < length (pvcs_of v)" for i
    using arg_cong [OF idx, of "\<lambda>xs. xs ! i"] that len by simp
  then have "wf_sp sp" using assms len by (auto simp: good_def wf_status_def cache_drift_def)
  moreover have "pvs_Status ` set (pvcs_of sp) \<subseteq> claim_phases"
    using assms by (auto simp: good_def typed_def cache_drift_def)
  then have "typed sp" using assms by (auto simp: good_def typed_def cache_drift_def)
  moreover have "spec_ok (Spec sp)" if "spec_ok (Spec v)"
    using that assms(2) by (auto simp: spec_ok_def cache_drift_def claim_volume_def split: option.splits)
  ultimately show ?thesis using assms(1) by (simp add: good_def)
qed

definition store_sp :: "StatefulPod \<Rightarrow> cluster \<Rightarrow> cluster" where
  "store_sp sp c = c\<lparr>store := (store c)(sp_key sp \<mapsto> sp), versions := insert sp (versions c)\<rparr>"

text \<open>The API server's side of a call on a StatefulPod.\<close>

inductive serve :: "cluster \<Rightarrow> StatefulPod req \<Rightarrow> StatefulPod resp \<Rightarrow> cluster \<Rightarrow> bool" where
  fails: "serve c r (Inl e) c"
| gets: "v \<in> versions c \<Longrightarrow> cache_drift v sp \<Longrightarrow> sp_key sp = nn \<Longrightarrow> serve c (Get nn) (Inr sp) c"
| updates: "store c (sp_key sp) = Some cur \<Longrightarrow> ResourceVersion (sp_Meta cur) = ResourceVersion (sp_Meta sp) \<Longrightarrow>
    sp_key sp' = sp_key sp \<Longrightarrow> Spec sp' = Spec sp \<Longrightarrow> Status sp' = Status sp \<Longrightarrow>
    serve c (Update sp) (Inr sp') (store_sp sp' c)"
| frees: "store c (sp_key sp) = Some cur \<Longrightarrow> ResourceVersion (sp_Meta cur) = ResourceVersion (sp_Meta sp) \<Longrightarrow>
    let_go (sp_Meta cur) (sp_Meta sp) \<Longrightarrow> Spec sp' = Spec sp \<Longrightarrow> Status sp' = Status sp \<Longrightarrow>
    serve c (Update sp) (Inr sp') (c\<lparr>store := (store c)(sp_key sp := None)\<rparr>)"
| creates: "store c (sp_key sp) = None \<Longrightarrow> sp_key sp' = sp_key sp \<Longrightarrow> Spec sp' = Spec sp \<Longrightarrow>
    Status sp' = Status sp \<Longrightarrow> serve c (Create sp) (Inr sp') (store_sp sp' c)"
| deletes: "serve c (Delete sp opts) (Inr sp) (c\<lparr>store := (store c)(sp_key sp := None)\<rparr>)"

inductive_cases serve_Get: "serve c (Get nn) x c'"
inductive_cases serve_Create: "serve c (Create sp) x c'"
inductive_cases serve_Update: "serve c (Update sp) x c'"
inductive_cases serve_Delete: "serve c (Delete sp opts) x c'"

text \<open>
  One call of one worker. The first argument says whether the answers keep the strong contract.
\<close>

inductive call :: "bool \<Rightarrow> cluster \<Rightarrow> answer prog \<Rightarrow> answer prog \<Rightarrow> cluster \<Rightarrow> bool" for s where
  call_sp: "serve c r x c' \<Longrightarrow> call s c (CallSP r k) (k x) c'"
| call_pod: "rely (c_pod (status_contract s)) r x \<Longrightarrow> call s c (CallPod r k) (k x) c"
| call_pvc: "rely (c_pvc (status_contract s)) r x \<Longrightarrow> call s c (CallPVC r k) (k x) c"
| call_svc: "rely (c_svc (status_contract s)) r x \<Longrightarrow> call s c (CallSvc r k) (k x) c"
| call_pv: "rely (c_pv (status_contract s)) r x \<Longrightarrow> call s c (CallPV r k) (k x) c"
| call_node: "rely (c_node (status_contract s)) r x \<Longrightarrow> call s c (CallNode r k) (k x) c"
| call_now: "call s c (Now k) (k t) c"

text \<open>
  A step of the cluster. A user creates a StatefulPod with an empty status, changes the spec and the
  metadata of a stored one, or removes it.
\<close>

inductive step :: "Env \<Rightarrow> bool \<Rightarrow> cluster \<Rightarrow> cluster \<Rightarrow> bool" for env s where
  worker: "workers c = us @ m # vs \<Longrightarrow> call s c m m' c' \<Longrightarrow> step env s c (c'\<lparr>workers := us @ m' # vs\<rparr>)"
| start: "step env s c (c\<lparr>workers := Reconcile env fuel req # workers c\<rparr>)"
| finish: "workers c = us @ Ret a # vs \<Longrightarrow> step env s c (c\<lparr>workers := us @ vs\<rparr>)"
| user_create: "store c (sp_key sp) = None \<Longrightarrow> pods_of sp = [] \<Longrightarrow> pvcs_of sp = [] \<Longrightarrow>
    (s \<Longrightarrow> spec_ok (Spec sp)) \<Longrightarrow> step env s c (store_sp sp c)"
| user_update: "store c (sp_key sp) = Some cur \<Longrightarrow> Status sp = Status cur \<Longrightarrow>
    (s \<Longrightarrow> spec_ok (Spec sp)) \<Longrightarrow> step env s c (store_sp sp c)"
| user_delete: "step env s c (c\<lparr>store := (store c)(nn := None)\<rparr>)"

definition start_cluster :: cluster where
  "start_cluster = \<lparr>store = (\<lambda>_. None), versions = {}, workers = []\<rparr>"

definition reachable :: "Env \<Rightarrow> bool \<Rightarrow> cluster \<Rightarrow> bool" where
  "reachable env s c \<longleftrightarrow> (step env s)\<^sup>*\<^sup>* start_cluster c"

lemma reachable_start [simp, intro]: "reachable env s start_cluster"
  by (simp add: reachable_def)

lemma reachable_step: "reachable env s c \<Longrightarrow> step env s c c' \<Longrightarrow> reachable env s c'"
  unfolding reachable_def by (rule rtranclp.rtrancl_into_rtrancl)

lemma reachable_induct [consumes 1, case_names start step]:
  assumes "reachable env s c" "P start_cluster"
    "\<And>c c'. reachable env s c \<Longrightarrow> P c \<Longrightarrow> step env s c c' \<Longrightarrow> P c'"
  shows "P c"
  using assms(1) unfolding reachable_def
proof (induction rule: rtranclp_induct)
  case (step c c')
  then show ?case using assms(3) unfolding reachable_def by blast
qed (rule assms(2))

section \<open>The invariant\<close>

definition cluster_inv :: "bool \<Rightarrow> cluster \<Rightarrow> bool" where
  "cluster_inv s c \<longleftrightarrow> (\<forall>nn sp. store c nn = Some sp \<longrightarrow> sp \<in> versions c \<and> sp_key sp = nn) \<and>
     (\<forall>sp \<in> versions c. good s sp) \<and> (\<forall>m \<in> set (workers c). keeps s (\<lambda>_. True) m)"

lemma cluster_inv_workers [simp]:
  "cluster_inv s (c\<lparr>workers := ws\<rparr>) \<longleftrightarrow> (\<forall>nn sp. store c nn = Some sp \<longrightarrow> sp \<in> versions c \<and> sp_key sp = nn) \<and>
     (\<forall>sp \<in> versions c. good s sp) \<and> (\<forall>m \<in> set ws. keeps s (\<lambda>_. True) m)"
  by (simp add: cluster_inv_def)

lemma cluster_inv_store: "cluster_inv s c \<Longrightarrow> good s sp \<Longrightarrow> cluster_inv s (store_sp sp c)"
  by (auto simp: cluster_inv_def store_sp_def split: if_splits)

lemma cluster_inv_remove: "cluster_inv s c \<Longrightarrow> cluster_inv s (c\<lparr>store := (store c)(nn := None)\<rparr>)"
  by (auto simp: cluster_inv_def split: if_splits)

lemma workers_store_sp [simp]: "workers (store_sp sp c) = workers c"
  by (simp add: store_sp_def)

text \<open>The server keeps its side of the contract, given the invariant and a request within it.\<close>

lemma serve_inv:
  assumes "serve c r x c'" "cluster_inv s c" "guar (sp_side s) r"
  shows "cluster_inv s c' \<and> rely (sp_side s) r x \<and> workers c' = workers c"
  using assms
proof cases
  case (updates sp cur sp')
  have "good s sp" using assms(3) updates by simp
  then have "good s sp'" using updates by (auto intro: good_copy)
  then show ?thesis using updates cluster_inv_store [OF assms(2)] by simp
next
  case (creates sp sp')
  have "good s sp" using assms(3) creates by simp
  then have "good s sp'" using creates by (auto intro: good_copy)
  then show ?thesis using creates cluster_inv_store [OF assms(2)] by (simp add: sp_side_def)
next
  case frees
  then show ?thesis using assms(2) cluster_inv_remove by simp
next
  case gets
  then show ?thesis using assms(2) cache_drift_good by (auto simp: cluster_inv_def)
next
  case deletes
  then show ?thesis using assms(2) cluster_inv_remove by (simp add: sp_side_def)
next
  case fails
  then show ?thesis using assms(2) by (simp add: sp_side_def)
qed

lemma call_inv:
  assumes "call s c m m' c'" "cluster_inv s c" "keeps s (\<lambda>_. True) m"
  shows "cluster_inv s c' \<and> keeps s (\<lambda>_. True) m' \<and> workers c' = workers c"
  using assms
proof cases
  case (call_sp r x k)
  then have "guar (sp_side s) r" using assms(3) by simp
  with call_sp(3) assms(2) have "cluster_inv s c' \<and> rely (sp_side s) r x \<and> workers c' = workers c"
    by (rule serve_inv)
  with call_sp assms(3) show ?thesis by simp
qed (use assms in auto)

lemma step_inv: "step env s c c' \<Longrightarrow> cluster_inv s c \<Longrightarrow> cluster_inv s c'"
proof (induction rule: step.induct)
  case (worker c us m vs m' c')
  then have "keeps s (\<lambda>_. True) m" by (simp add: cluster_inv_def)
  with worker have "cluster_inv s c' \<and> keeps s (\<lambda>_. True) m' \<and> workers c' = workers c"
    using call_inv by blast
  with worker show ?case by (simp add: cluster_inv_def)
next
  case (start c fuel req)
  then show ?case using keeps_Reconcile by (simp add: cluster_inv_def)
next
  case (finish c us a vs)
  then show ?case by (simp add: cluster_inv_def)
next
  case (user_create c sp)
  then have "good s sp" by (simp add: good_def wf_status_def typed_def)
  with user_create show ?case by (simp add: cluster_inv_store)
next
  case (user_update c sp cur)
  then have "good s cur" by (auto simp: cluster_inv_def)
  with user_update have "good s sp" by (simp add: good_def typed_def)
  with user_update show ?case by (simp add: cluster_inv_store)
qed (rule cluster_inv_remove)

lemma reachable_inv: "reachable env s c \<Longrightarrow> cluster_inv s c"
  by (induction rule: reachable_induct) (simp add: cluster_inv_def start_cluster_def, rule step_inv)

end
