(* ===== verification/EventFlow.thy ===== *)
theory EventFlow
  imports Monitoring Interleaving
begin

text \<open>
  From an event to the status of the StatefulPod: what \<open>Reconcile\<close> takes a request for, how the
  events of an ordinal's pod and claim settle it, and which of the program's own writes come back as
  events.
\<close>

section \<open>Dispatch\<close>

lemma run_getType:
  assumes "reads (sp_srv cl) Vs" "reads (pod_srv cl) Vp" "reads (pvc_srv cl) Vc"
  shows "run cl (getType req) w = (Done (case Vs w req of Some sp \<Rightarrow> StatefulPodObj sp
    | None \<Rightarrow> (case Vp w req of Some pod \<Rightarrow> PodObj pod
      | None \<Rightarrow> (case Vc w req of Some pvc \<Rightarrow> PVCObj pvc | None \<Rightarrow> UNKNOWN))), w)"
  by (simp add: getType_def reads_Get [OF assms(1)] reads_Get [OF assms(2)] reads_Get [OF assms(3)] split: option.split)

lemma run_Reconcile:
  assumes "reads (sp_srv cl) Vs" "reads (pod_srv cl) Vp" "reads (pvc_srv cl) Vc"
  shows "run cl (Reconcile env fuel req) w = (case Vs w req of
      Some sp \<Rightarrow> run cl (StatefulPodCtrl_CoreCtrl env fuel sp) w
    | None \<Rightarrow> (case Vp w req of
        Some pod \<Rightarrow> run cl (StatefulPodCtrl_MonitorPodStatus env fuel pod) w
      | None \<Rightarrow> (case Vc w req of
          Some pvc \<Rightarrow> run cl (StatefulPodCtrl_MonitorPVCStatus env fuel pvc) w
        | None \<Rightarrow> (Done (result0, None), w))))"
  by (simp add: Reconcile_def run_getType [OF assms] split: option.split)

text \<open>A request names an object without its kind, and a claim is looked for last. So the events of a claim are lost
  on a pod that has the claim's name: the claim of ordinal \<open>i\<close> of a StatefulPod \<open>x\<close> has the same name as the pod of
  ordinal \<open>i\<close> of any StatefulPod named after the claim, a dash and \<open>x\<close>, and while that pod exists \<open>Reconcile\<close>
  handles the claim's request as the pod's.\<close>

theorem claim_event_shadowed:
  assumes "reads (sp_srv cl) Vs" "reads (pod_srv cl) Vp" "reads (pvc_srv cl) Vc" "claim_volume (Spec x)"
    "ev_Object e = EvPVC pvc" "Name (pvc_Meta pvc) = claim_name x i" "gomap_get (Annotations (pvc_Meta pvc)) GroupVersion_String \<noteq> None"
    "ev_Meta e \<noteq> None" "Vs w (NN (Namespace (pvc_Meta pvc)) (claim_name x i)) = None"
    "Vp w (NN (Namespace (pvc_Meta pvc)) (claim_name x i)) = Some pod"
  shows "\<exists>req y. StatefulPodEvent_Create e = [req] \<and> PodService_GetName y i = claim_name x i \<and>
    run cl (Reconcile env fuel req) w = run cl (StatefulPodCtrl_MonitorPodStatus env fuel pod) w"
proof -
  obtain v vs src where v: "Volumes (PodTemplate (Spec x)) = v # vs" "PersistentVolumeClaim v = Some src"
    using assms(4) by (auto simp: claim_volume_def split: list.splits)
  define y where "y = x\<lparr>sp_Meta := (sp_Meta x)\<lparr>Name :=
    (if ClaimName src = '''' then ''data'' else ClaimName src) @ ''-'' @ Name (sp_Meta x)\<rparr>\<rparr>"
  have "PodService_GetName y i = claim_name x i" by (simp add: PodService_GetName_def claim_name_def y_def v)
  moreover have "StatefulPodEvent_Create e = [NN (Namespace (pvc_Meta pvc)) (claim_name x i)]"
    using assms(5-8) by (simp add: StatefulPodEvent_Create_def enqueue_owned_def)
  moreover have "run cl (Reconcile env fuel (NN (Namespace (pvc_Meta pvc)) (claim_name x i))) w =
      run cl (StatefulPodCtrl_MonitorPodStatus env fuel pod) w"
    by (simp add: run_Reconcile [OF assms(1-3)] assms(9,10))
  ultimately show ?thesis by blast
qed

theorem claim_event_shadowed_witness:
  "\<exists>req. StatefulPodEvent_Create \<lparr>ev_Meta = Some demo_meta, ev_Object = EvPVC (demo_pvc ''data-db-0'' ''0'' ''Bound'')\<rparr> = [req] \<and>
    run mem_client (Reconcile demo_env 2 req) (empty_world\<lparr>pods := (\<lambda>_. Some lost_pod)\<rparr>) =
    run mem_client (StatefulPodCtrl_MonitorPodStatus demo_env 2 lost_pod) (empty_world\<lparr>pods := (\<lambda>_. Some lost_pod)\<rparr>)"
proof -
  define e where "e = \<lparr>ev_Meta = Some demo_meta, ev_Object = EvPVC (demo_pvc ''data-db-0'' ''0'' ''Bound'')\<rparr>"
  define w0 where "w0 = empty_world\<lparr>pods := (\<lambda>_. Some lost_pod)\<rparr>"
  have "Itoa 0 = ''0''" by code_simp
  then have c: "Name (pvc_Meta (demo_pvc ''data-db-0'' ''0'' ''Bound'')) = claim_name steady_sp 0"
    by (simp add: claim_name_def steady_sp_def demo_defs Let_def)
  have e: "ev_Object e = EvPVC (demo_pvc ''data-db-0'' ''0'' ''Bound'')" "ev_Meta e \<noteq> None"
    "gomap_get (Annotations (pvc_Meta (demo_pvc ''data-db-0'' ''0'' ''Bound''))) GroupVersion_String \<noteq> None"
    by (simp_all add: e_def demo_pvc_def)
  have w0: "sps w0 nn = None" "pods w0 nn = Some lost_pod" for nn by (simp_all add: w0_def empty_world_def)
  from claim_event_shadowed [OF mem_reads(1,2,3) steady_sp_simps(8) e(1) c e(3,2) w0(1,2), of demo_env 2]
  show ?thesis unfolding e_def w0_def by blast
qed

section \<open>How an ordinal gets settled\<close>

lemma settled_last:
  assumes "wf_sp sp" "Suc i = length (pods_of sp)" "ps_Status (pods_of sp ! i) = ''Running''" "pvs_Status (pvcs_of sp ! i) \<noteq> ''Pending''"
  shows "settled target (phases_of sp) = int (Suc i)"
  by (rule settled_full [OF assms(1,2)]) (simp_all add: assms(3,4))

lemma settled_pod_entry:
  assumes "wf_sp sp" "i < length (pods_of sp)" "ps_Index p = ps_Index (pods_of sp ! i)" "Status sp' = Status (set_pods ((pods_of sp)[i := p]) sp)"
  shows "wf_sp sp'"
  using wf_status_pod [OF assms(1-3)] assms(4) by simp

text \<open>The event of a running pod, with everything it leaves as it was.\<close>

lemma run_running_event:
  assumes "cooperative cl Vs Vp Vc" "Vs w req = None" "Vp w req = Some pod"
    "Vs w (NN (Namespace (pod_Meta pod)) (gomap_val (Annotations (pod_Meta pod)) ''parentName'')) = Some sp"
    "sp_key sp = NN (Namespace (pod_Meta pod)) (gomap_val (Annotations (pod_Meta pod)) ''parentName'')"
    "pod_index pod = int i" "i < length (pods_of sp)"
    "IsZero (DeletionTimestamp (pod_Meta pod))" "PodCtrl_isPodRunning pod"
    "run cl (IsNodeReady env (NN '''' (pod_NodeName (pod_Spec pod)))) w = (Done True, w)"
    "ps_Status (pods_of sp ! i) \<noteq> ''Running''" "2 \<le> fuel"
  obtains sp' w' where "run cl (Reconcile env fuel req) w = (Done (result0, None), w')" "Vs w' = (Vs w)(sp_key sp \<mapsto> sp')"
    "Vp w' = Vp w" "Status sp' = Status (set_pods ((pods_of sp)[i := running_entry pod (pods_of sp ! i)]) sp)"
    "Spec sp' = Spec sp" "sp_key sp' = sp_key sp" "Vc w' = Vc w" "Finalizers (sp_Meta sp') = Finalizers (sp_Meta sp)"
    "DeletionTimestamp (sp_Meta sp') = DeletionTimestamp (sp_Meta sp)"
proof -
  note c = cooperativeD [OF assms(1)]
  define sp1 where "sp1 = set_pods ((pods_of sp)[i := running_entry pod (pods_of sp ! i)]) sp"
  obtain m where "fuel = Suc (Suc m)" using assms(12) by (metis Suc_le_D numeral_2_eq_2 Suc_le_mono)
  moreover have k: "sp_key sp1 = sp_key sp" by (simp add: sp1_def)
  moreover have "\<not> let_go (sp_Meta sp) (sp_Meta sp1)" by (simp add: sp1_def)
  moreover have "Vs w (sp_key sp) = Some sp" using assms(4,5) by simp
  ultimately obtain sp' w' where upd: "run cl (StatefulPodService_Update fuel sp1) w = (Done (Inr sp'), w')"
    "Vs w' = (Vs w)(sp_key sp \<mapsto> sp')" "Status sp' = Status sp1" "Spec sp' = Spec sp1" "sp_key sp' = sp_key sp1"
    "Finalizers (sp_Meta sp') = Finalizers (sp_Meta sp1)" "DeletionTimestamp (sp_Meta sp') = DeletionTimestamp (sp_Meta sp)"
    using run_Update_two [OF c(1), of w sp1 sp m] by metis
  have mon: "run cl (PodCtrl_MonitorPodStatus env fuel sp pod (int i)) w = (Done (True, sp1), w)"
    using run_Monitor_running [OF assms(7-10)] assms(11) by (simp add: sp1_def)
  have "run cl (Reconcile env fuel req) w = (Done (result0, None), w')"
    using assms(2,3,4,6) upd(1)
    by (simp add: run_Reconcile [OF optimistic_reads [OF c(1)] c(2,4)] StatefulPodCtrl_MonitorPodStatus_def
        sp_reader.IsExists_reads [OF optimistic_reads [OF c(1)]] mon pod_index_def)
  moreover have "Vp w' = Vp w" "Vc w' = Vc w"
    using run_Update_frame [OF c(10) upd(1)] run_Update_frame [OF c(11) upd(1)] by simp_all
  ultimately show thesis using upd k by (intro that [of w' sp']) (simp_all add: sp1_def)
qed

text \<open>The same event once it is recorded.\<close>

lemma run_running_again:
  assumes "cooperative cl Vs Vp Vc" "Vs w req = None" "Vp w req = Some pod"
    "Vs w (NN (Namespace (pod_Meta pod)) (gomap_val (Annotations (pod_Meta pod)) ''parentName'')) = Some sp"
    "pod_index pod = int i" "i < length (pods_of sp)"
    "IsZero (DeletionTimestamp (pod_Meta pod))" "PodCtrl_isPodRunning pod"
    "run cl (IsNodeReady env (NN '''' (pod_NodeName (pod_Spec pod)))) w = (Done True, w)"
    "ps_Status (pods_of sp ! i) = ''Running''"
  shows "run cl (Reconcile env fuel req) w = (Done (result0, None), w)"
proof -
  note c = cooperativeD [OF assms(1)]
  have "run cl (PodCtrl_MonitorPodStatus env fuel sp pod (int i)) w = (Done (False, sp), w)"
    using run_Monitor_running [OF assms(6-9)] assms(10) by simp
  then show ?thesis
    using assms(2-5)
    by (simp add: run_Reconcile [OF optimistic_reads [OF c(1)] c(2,4)] StatefulPodCtrl_MonitorPodStatus_def
        sp_reader.IsExists_reads [OF optimistic_reads [OF c(1)]] pod_index_def)
qed

text \<open>The event of a running pod settles its ordinal. When \<open>Reconcile\<close> is asked for a pod that runs on a ready node, its
  annotations lead to the StatefulPod, the entry of its ordinal is stored as running with the pod's name and
  node, and nothing else of the status changes. If it was the last ordinal and its claim is not pending, all its ordinals are
  then settled, so that the next one may be created.\<close>

theorem running_pod_settles_ordinal:
  assumes "cooperative cl Vs Vp Vc" "Vs w req = None" "Vp w req = Some pod"
    "Vs w (NN (Namespace (pod_Meta pod)) (gomap_val (Annotations (pod_Meta pod)) ''parentName'')) = Some sp"
    "sp_key sp = NN (Namespace (pod_Meta pod)) (gomap_val (Annotations (pod_Meta pod)) ''parentName'')"
    "pod_index pod = int i" "i < length (pods_of sp)" "wf_sp sp"
    "IsZero (DeletionTimestamp (pod_Meta pod))" "PodCtrl_isPodRunning pod"
    "run cl (IsNodeReady env (NN '''' (pod_NodeName (pod_Spec pod)))) w = (Done True, w)"
    "ps_Status (pods_of sp ! i) \<noteq> ''Running''" "2 \<le> fuel"
  shows "\<exists>sp' w'. run cl (Reconcile env fuel req) w = (Done (result0, None), w') \<and> Vs w' = (Vs w)(sp_key sp \<mapsto> sp') \<and>
    pods_of sp' = (pods_of sp)[i := running_entry pod (pods_of sp ! i)] \<and> pvcs_of sp' = pvcs_of sp \<and>
    (Suc i = length (pods_of sp) \<and> pvs_Status (pvcs_of sp ! i) \<noteq> ''Pending'' \<longrightarrow>
       (\<forall>target. settled target (phases_of sp') = int (length (pods_of sp'))))"
proof -
  obtain sp' w' where run: "run cl (Reconcile env fuel req) w = (Done (result0, None), w')" "Vs w' = (Vs w)(sp_key sp \<mapsto> sp')"
    and st: "Status sp' = Status (set_pods ((pods_of sp)[i := running_entry pod (pods_of sp ! i)]) sp)"
    by (rule run_running_event [OF assms(1-7,9-13)])
  have wf': "wf_sp sp'"
    by (rule settled_pod_entry [OF assms(8,7), of "running_entry pod (pods_of sp ! i)"]) (simp_all add: running_entry_def st)
  have "settled target (phases_of sp') = int (length (pods_of sp'))"
    if "Suc i = length (pods_of sp)" "pvs_Status (pvcs_of sp ! i) \<noteq> ''Pending''" for target
    using settled_last [OF wf', of i target] that by (simp add: st running_entry_def)
  with run show ?thesis by (intro exI [of _ sp'] exI [of _ w']) (simp add: st)
qed

theorem running_pod_settles_ordinal_witness:
  "\<exists>sp' w'. run mem_client (Reconcile demo_env 2 (NN ''ns'' ''db-0''))
      (empty_world\<lparr>sps := (\<lambda>_. None)(NN ''ns'' ''db'' \<mapsto> demo_sp 2 [(''Preparing'', '''')]),
        pods := (\<lambda>_. None)(NN ''ns'' ''db-0'' \<mapsto> demo_pod ''db-0'' ''0'' ''Running'')\<rparr>) = (Done (result0, None), w') \<and>
    sps w' (NN ''ns'' ''db'') = Some sp' \<and> settled 2 (phases_of sp') = int (length (pods_of sp'))"
proof -
  define sp where "sp = demo_sp 2 [(''Preparing'', '''')]"
  define pod where "pod = demo_pod ''db-0'' ''0'' ''Running''"
  define w0 where "w0 = empty_world\<lparr>sps := (\<lambda>_. None)(NN ''ns'' ''db'' \<mapsto> sp), pods := (\<lambda>_. None)(NN ''ns'' ''db-0'' \<mapsto> pod)\<rparr>"
  have "Itoa 0 = ''0''" by code_simp
  then have "StringToInt ''0'' = 0" using StringToInt_Itoa [of 0] by simp
  then have pod: "Namespace (pod_Meta pod) = ''ns''" "gomap_val (Annotations (pod_Meta pod)) ''parentName'' = ''db''"
    "pod_index pod = int 0" "IsZero (DeletionTimestamp (pod_Meta pod))" "PodCtrl_isPodRunning pod" "pod_NodeName (pod_Spec pod) = ''''"
    by (simp_all add: pod_def demo_defs gomap_val_def pod_index_def PodCtrl_isPodRunning_def)
  have sp: "sp_key sp = NN ''ns'' ''db''" "wf_sp sp" "length (pods_of sp) = 1" "ps_Status (pods_of sp ! 0) = ''Preparing''"
    "pvs_Status (pvcs_of sp ! 0) = ''''"
    by (simp_all add: sp_def) (simp_all add: demo_defs)
  have w0: "sps w0 (NN ''ns'' ''db-0'') = None" "pods w0 (NN ''ns'' ''db-0'') = Some pod" "sps w0 (NN ''ns'' ''db'') = Some sp"
    by (simp_all add: w0_def)
  have node: "run mem_client (IsNodeReady demo_env (NN '''' (pod_NodeName (pod_Spec pod)))) w0 = (Done True, w0)"
    by (simp add: IsNodeReady_def pod(6))
  have prem: "sps w0 (NN (Namespace (pod_Meta pod)) (gomap_val (Annotations (pod_Meta pod)) ''parentName'')) = Some sp"
    "sp_key sp = NN (Namespace (pod_Meta pod)) (gomap_val (Annotations (pod_Meta pod)) ''parentName'')"
    "0 < length (pods_of sp)" "ps_Status (pods_of sp ! 0) \<noteq> ''Running''"
    unfolding pod(1,2) sp(1) sp(3,4) using w0(3) by simp_all
  from running_pod_settles_ordinal [OF mem_cooperative w0(1,2) prem(1,2) pod(3) prem(3) sp(2) pod(4,5) node prem(4) order_refl]
  obtain sp' w' where q: "run mem_client (Reconcile demo_env 2 (NN ''ns'' ''db-0'')) w0 = (Done (result0, None), w')"
    "sps w' = (sps w0)(sp_key sp \<mapsto> sp')"
    "Suc 0 = length (pods_of sp) \<and> pvs_Status (pvcs_of sp ! 0) \<noteq> ''Pending'' \<longrightarrow>
       (\<forall>target. settled target (phases_of sp') = int (length (pods_of sp')))"
    by blast
  have "Suc 0 = length (pods_of sp) \<and> pvs_Status (pvcs_of sp ! 0) \<noteq> ''Pending''" unfolding sp(3,5) by simp
  with q have r: "run mem_client (Reconcile demo_env 2 (NN ''ns'' ''db-0'')) w0 = (Done (result0, None), w')"
    "sps w' = (sps w0)(sp_key sp \<mapsto> sp')" "settled 2 (phases_of sp') = int (length (pods_of sp'))" by blast+
  then have "sps w' (NN ''ns'' ''db'') = Some sp'" unfolding sp(1) by simp
  with r(1,3) show ?thesis unfolding w0_def sp_def pod_def by blast
qed

text \<open>The event of a bound claim in the same way.\<close>

definition bound_entry :: "Env \<Rightarrow> PVC \<Rightarrow> PVCStatus \<Rightarrow> PVCStatus" where
  "bound_entry env pvc v = v\<lparr>pvs_Status := ''Bound'',
     Capacity := Quantity_String env (case map_of (Requests (pvc_Spec pvc)) ''storage'' of None \<Rightarrow> 0 | Some q \<Rightarrow> q),
     PVName := VolumeName (pvc_Spec pvc)\<rparr>"

lemma run_bound_event:
  assumes "cooperative cl Vs Vp Vc" "Vs w req = None" "Vp w req = None" "Vc w req = Some pvc"
    "Vs w (NN (Namespace (pvc_Meta pvc)) (gomap_val (Annotations (pvc_Meta pvc)) ''parentName'')) = Some sp"
    "sp_key sp = NN (Namespace (pvc_Meta pvc)) (gomap_val (Annotations (pvc_Meta pvc)) ''parentName'')"
    "pvc_index pvc = int i" "i < length (pvcs_of sp)"
    "IsZero (DeletionTimestamp (pvc_Meta pvc))" "pvc_Phase pvc = ''Bound''" "pvs_Status (pvcs_of sp ! i) \<noteq> ''Bound''" "2 \<le> fuel"
  obtains sp' w' where "run cl (Reconcile env fuel req) w = (Done (result0, None), w')" "Vs w' = (Vs w)(sp_key sp \<mapsto> sp')"
    "Vp w' = Vp w" "Vc w' = Vc w" "Status sp' = Status (set_pvcs ((pvcs_of sp)[i := bound_entry env pvc (pvcs_of sp ! i)]) sp)"
    "Spec sp' = Spec sp" "sp_key sp' = sp_key sp" "Finalizers (sp_Meta sp') = Finalizers (sp_Meta sp)"
    "DeletionTimestamp (sp_Meta sp') = DeletionTimestamp (sp_Meta sp)"
proof -
  note c = cooperativeD [OF assms(1)]
  define sp1 where "sp1 = set_pvcs ((pvcs_of sp)[i := bound_entry env pvc (pvcs_of sp ! i)]) sp"
  obtain m where "fuel = Suc (Suc m)" using assms(12) by (metis Suc_le_D numeral_2_eq_2 Suc_le_mono)
  moreover have k: "sp_key sp1 = sp_key sp" by (simp add: sp1_def)
  moreover have "\<not> let_go (sp_Meta sp) (sp_Meta sp1)" by (simp add: sp1_def)
  moreover have "Vs w (sp_key sp) = Some sp" using assms(5,6) by simp
  ultimately obtain sp' w' where upd: "run cl (StatefulPodService_Update fuel sp1) w = (Done (Inr sp'), w')"
    "Vs w' = (Vs w)(sp_key sp \<mapsto> sp')" "Status sp' = Status sp1" "Spec sp' = Spec sp1" "sp_key sp' = sp_key sp1"
    "Finalizers (sp_Meta sp') = Finalizers (sp_Meta sp1)" "DeletionTimestamp (sp_Meta sp') = DeletionTimestamp (sp_Meta sp)"
    using run_Update_two [OF c(1), of w sp1 sp m] by metis
  have mon: "run cl (PVCCtrl_MonitorPVCStatus env sp pvc (int i)) w = (Done (True, sp1), w)"
    using assms(8-11) by (simp add: PVCCtrl_MonitorPVCStatus_def Let_def sp1_def bound_entry_def)
  have "run cl (Reconcile env fuel req) w = (Done (result0, None), w')"
    using assms(2-5,7) upd(1)
    by (simp add: run_Reconcile [OF optimistic_reads [OF c(1)] c(2,4)] StatefulPodCtrl_MonitorPVCStatus_def
        sp_reader.IsExists_reads [OF optimistic_reads [OF c(1)]] mon pvc_index_def)
  moreover have "Vp w' = Vp w" "Vc w' = Vc w"
    using run_Update_frame [OF c(10) upd(1)] run_Update_frame [OF c(11) upd(1)] by simp_all
  ultimately show thesis using upd k by (intro that [of w' sp']) (simp_all add: sp1_def)
qed

lemma run_bound_again:
  assumes "cooperative cl Vs Vp Vc" "Vs w req = None" "Vp w req = None" "Vc w req = Some pvc"
    "Vs w (NN (Namespace (pvc_Meta pvc)) (gomap_val (Annotations (pvc_Meta pvc)) ''parentName'')) = Some sp"
    "pvc_index pvc = int i" "i < length (pvcs_of sp)"
    "IsZero (DeletionTimestamp (pvc_Meta pvc))" "pvc_Phase pvc = ''Bound''" "pvs_Status (pvcs_of sp ! i) = ''Bound''"
  shows "run cl (Reconcile env fuel req) w = (Done (result0, None), w)"
proof -
  note c = cooperativeD [OF assms(1)]
  show ?thesis
    using assms(2-10)
    by (simp add: run_Reconcile [OF optimistic_reads [OF c(1)] c(2,4)] sp_reader.IsExists_reads [OF optimistic_reads [OF c(1)]]
        StatefulPodCtrl_MonitorPVCStatus_def PVCCtrl_MonitorPVCStatus_def pvc_index_def)
qed

text \<open>The event of a bound claim is recorded in the entry of its ordinal, with the capacity that was asked for and the
  name of the volume; no other entry changes. A repetition of the event writes nothing.\<close>

theorem bound_claim_recorded:
  assumes "cooperative cl Vs Vp Vc" "Vs w req = None" "Vp w req = None" "Vc w req = Some pvc"
    "Vs w (NN (Namespace (pvc_Meta pvc)) (gomap_val (Annotations (pvc_Meta pvc)) ''parentName'')) = Some sp"
    "sp_key sp = NN (Namespace (pvc_Meta pvc)) (gomap_val (Annotations (pvc_Meta pvc)) ''parentName'')"
    "pvc_index pvc = int i" "i < length (pvcs_of sp)"
    "IsZero (DeletionTimestamp (pvc_Meta pvc))" "pvc_Phase pvc = ''Bound''" "2 \<le> fuel"
  shows "if pvs_Status (pvcs_of sp ! i) = ''Bound'' then run cl (Reconcile env fuel req) w = (Done (result0, None), w)
    else \<exists>sp' w'. run cl (Reconcile env fuel req) w = (Done (result0, None), w') \<and> Vs w' = (Vs w)(sp_key sp \<mapsto> sp') \<and>
      pods_of sp' = pods_of sp \<and>
      pvcs_of sp' = (pvcs_of sp)[i := (pvcs_of sp ! i)\<lparr>pvs_Status := ''Bound'',
        Capacity := Quantity_String env (case map_of (Requests (pvc_Spec pvc)) ''storage'' of None \<Rightarrow> 0 | Some q \<Rightarrow> q),
        PVName := VolumeName (pvc_Spec pvc)\<rparr>]"
proof -
  show ?thesis
  proof (cases "pvs_Status (pvcs_of sp ! i) = ''Bound''")
    case True
    then show ?thesis using run_bound_again [where Vs = Vs and Vp = Vp and Vc = Vc and w = w and sp = sp and pvc = pvc, OF assms(1-5,7-10) True] by simp
  next
    case False
    obtain sp' w' where e: "run cl (Reconcile env fuel req) w = (Done (result0, None), w')" "Vs w' = (Vs w)(sp_key sp \<mapsto> sp')"
      "Status sp' = Status (set_pvcs ((pvcs_of sp)[i := bound_entry env pvc (pvcs_of sp ! i)]) sp)"
      using run_bound_event [where Vs = Vs and Vp = Vp and Vc = Vc and w = w and sp = sp and pvc = pvc and env = env, OF assms(1-10) False assms(11)] by blast
    then have "pods_of sp' = pods_of sp" "pvcs_of sp' = (pvcs_of sp)[i := bound_entry env pvc (pvcs_of sp ! i)]" by simp_all
    with e(1,2) False show ?thesis unfolding bound_entry_def by auto
  qed
qed

theorem bound_claim_recorded_witness:
  "\<exists>sp' w'. run mem_client (Reconcile demo_env 2 (NN ''ns'' ''data-db-0''))
      (empty_world\<lparr>sps := (\<lambda>_. None)(NN ''ns'' ''db'' \<mapsto> demo_sp_claims 2 [(''Preparing'', ''Pending'')]),
        claims := (\<lambda>_. None)(NN ''ns'' ''data-db-0'' \<mapsto> demo_pvc ''data-db-0'' ''0'' ''Bound'')\<rparr>) = (Done (result0, None), w') \<and>
    sps w' (NN ''ns'' ''db'') = Some sp' \<and> pvs_Status (pvcs_of sp' ! 0) = ''Bound''"
proof -
  define sp where "sp = demo_sp_claims 2 [(''Preparing'', ''Pending'')]"
  define pvc where "pvc = demo_pvc ''data-db-0'' ''0'' ''Bound''"
  define w0 where "w0 = empty_world\<lparr>sps := (\<lambda>_. None)(NN ''ns'' ''db'' \<mapsto> sp), claims := (\<lambda>_. None)(NN ''ns'' ''data-db-0'' \<mapsto> pvc)\<rparr>"
  have "Itoa 0 = ''0''" by code_simp
  then have "StringToInt ''0'' = 0" using StringToInt_Itoa [of 0] by simp
  then have pvc: "Namespace (pvc_Meta pvc) = ''ns''" "gomap_val (Annotations (pvc_Meta pvc)) ''parentName'' = ''db''"
    "pvc_index pvc = int 0" "IsZero (DeletionTimestamp (pvc_Meta pvc))" "pvc_Phase pvc = ''Bound''"
    by (simp_all add: pvc_def demo_defs gomap_val_def pvc_index_def)
  have sp: "sp_key sp = NN ''ns'' ''db''" "length (pvcs_of sp) = 1" "pvs_Status (pvcs_of sp ! 0) = ''Pending''"
    by (simp_all add: sp_def) (simp_all add: demo_defs Let_def)
  have w0: "sps w0 (NN ''ns'' ''data-db-0'') = None" "pods w0 (NN ''ns'' ''data-db-0'') = None"
    "claims w0 (NN ''ns'' ''data-db-0'') = Some pvc" "sps w0 (NN ''ns'' ''db'') = Some sp"
    by (simp_all add: w0_def empty_world_def)
  have prem: "sps w0 (NN (Namespace (pvc_Meta pvc)) (gomap_val (Annotations (pvc_Meta pvc)) ''parentName'')) = Some sp"
    "sp_key sp = NN (Namespace (pvc_Meta pvc)) (gomap_val (Annotations (pvc_Meta pvc)) ''parentName'')"
    "0 < length (pvcs_of sp)"
    unfolding pvc(1,2) sp(1) sp(2) using w0(4) by simp_all
  have ne: "pvs_Status (pvcs_of sp ! 0) \<noteq> ''Bound''" unfolding sp(3) by simp
  from iffD1 [OF if_not_P [OF ne] bound_claim_recorded [where Vs = sps and Vp = pods and Vc = claims and w = w0
      and pvc = pvc and sp = sp, OF mem_cooperative w0(1-3) prem(1,2) pvc(3) prem(3) pvc(4,5) order_refl, of demo_env]]
  obtain sp' w' where q: "run mem_client (Reconcile demo_env 2 (NN ''ns'' ''data-db-0'')) w0 = (Done (result0, None), w')"
    "sps w' = (sps w0)(sp_key sp \<mapsto> sp')"
    "pvcs_of sp' = (pvcs_of sp)[0 := (pvcs_of sp ! 0)\<lparr>pvs_Status := ''Bound'',
        Capacity := Quantity_String demo_env (case map_of (Requests (pvc_Spec pvc)) ''storage'' of None \<Rightarrow> 0 | Some q \<Rightarrow> q),
        PVName := VolumeName (pvc_Spec pvc)\<rparr>]"
    by (elim exE conjE) (rule that)
  have "pvs_Status (pvcs_of sp' ! 0) = ''Bound''" using prem(3) unfolding q(3) by simp
  note r = q(1,2) this
  then have "sps w' (NN ''ns'' ''db'') = Some sp'" unfolding sp(1) by simp
  with r(1,3) show ?thesis unfolding w0_def sp_def pvc_def by blast
qed

section \<open>The program's own writes\<close>

abbreviation sp_update :: "StatefulPod \<Rightarrow> StatefulPod \<Rightarrow> watched" where
  "sp_update old new \<equiv> OnUpdate \<lparr>ev_MetaNew = Some (sp_Meta new), ev_ObjectOld = EvStatefulPod old, ev_ObjectNew = EvStatefulPod new\<rparr>"

lemma watch_update:
  "SetupWithManager_watch enq (sp_update old new) = Ret (if PodTemplate (Spec old) = PodTemplate (Spec new) \<and>
     Finalizers (sp_Meta old) = Finalizers (sp_Meta new) \<and> pvcs_of old = pvcs_of new then enq (sp_update old new) else [])"
  by (simp add: watch_defs StatefulPodPredicate_Update_def)

lemma watch_dropped:
  "Finalizers (sp_Meta old) \<noteq> Finalizers (sp_Meta new) \<or> pvcs_of old \<noteq> pvcs_of new \<Longrightarrow>
   SetupWithManager_watch enq (sp_update old new) = Ret []"
  unfolding watch_update by auto

lemma watch_passed:
  "Spec new = Spec old \<Longrightarrow> Finalizers (sp_Meta new) = Finalizers (sp_Meta old) \<Longrightarrow> pvcs_of new = pvcs_of old \<Longrightarrow>
   SetupWithManager_watch enq (sp_update old new) = Ret (enq (sp_update old new))"
  unfolding watch_update by simp

lemma watch_growth:
  assumes "cooperative cl Vs Vp Vc" "Vs w (sp_key sp) = Some sp" "wf_sp sp" "2 \<le> fuel" "Size (Spec sp) = Some sz"
    "settled (int_of_int32 sz) (phases_of sp) = int (length (pods_of sp))" "int (length (pods_of sp)) < int_of_int32 sz"
    "run cl (StatefulPodCtrl_expansionSvc env sp (int (length (pods_of sp)))) w = (Done True, w)" "PVNames (Spec sp) = []"
    "\<And>t. PVCTemplate (Spec sp) = Some t \<Longrightarrow> claim_volume (Spec sp) \<and> StorageClassName t \<noteq> None \<and>
       Vc w (claim_key sp (length (pods_of sp))) = None"
    "Vp w (pod_key sp (length (pods_of sp))) = None"
  shows "\<exists>sp' w'. run cl (StatefulPodCtrl_CoreCtrl env fuel sp) w = (Done (result0, None), w') \<and> Vs w' = (Vs w)(sp_key sp \<mapsto> sp') \<and>
    length (pods_of sp') = Suc (length (pods_of sp)) \<and> SetupWithManager_watch enq (sp_update sp sp') = Ret []"
proof -
  obtain sp' w' where g: "run cl (StatefulPodCtrl_CoreCtrl env fuel sp) w = (Done (result0, None), w')" "Vs w' = (Vs w)(sp_key sp \<mapsto> sp')"
    "pods_of sp' = put (int (length (pods_of sp))) \<lparr>PodName = PodService_GetName sp (int (length (pods_of sp))), ps_Status = ''Preparing'',
       ps_Index = Some (int32_of (int (length (pods_of sp)))), NodeName = ''''\<rparr> (pods_of sp)"
    "pvcs_of sp' = put (int (length (pods_of sp))) (claim_entry sp (int (length (pods_of sp)))) (pvcs_of sp)"
    using run_growth [OF assms(1,3,5) assms(6) [symmetric] assms(7-11) assms(2,4)] by blast
  have "length (pvcs_of sp) = length (pods_of sp)" by (rule wf_status_length [OF assms(3)])
  with g(3,4) have "length (pods_of sp') = Suc (length (pods_of sp))" "pvcs_of sp \<noteq> pvcs_of sp'" by (simp_all add: put_def)
  with g(1,2) watch_dropped [of sp sp' enq] show ?thesis by blast
qed

lemma watch_setFinalizer:
  assumes "cooperative cl Vs Vp Vc" "Vs w (sp_key sp) = Some sp" "2 \<le> fuel" "IsZero (DeletionTimestamp (sp_Meta sp))"
    "GroupVersion_String \<notin> set (Finalizers (sp_Meta sp))"
  shows "\<exists>sp' w'. run cl (StatefulPodCtrl_setFinalizer fuel sp) w = (Done ((result0, None), sp'), w') \<and> Vs w' = (Vs w)(sp_key sp \<mapsto> sp') \<and>
    Finalizers (sp_Meta sp') = Finalizers (sp_Meta sp) @ [GroupVersion_String] \<and> SetupWithManager_watch enq (sp_update sp sp') = Ret []"
proof -
  define sp1 where "sp1 = sp\<lparr>sp_Meta := (sp_Meta sp)\<lparr>Finalizers := Finalizers (sp_Meta sp) @ [GroupVersion_String]\<rparr>\<rparr>"
  have k: "sp_key sp1 = sp_key sp" "\<not> let_go (sp_Meta sp) (sp_Meta sp1)" by (simp_all add: sp1_def let_go_def)
  obtain m where "fuel = Suc (Suc m)" using assms(3) by (metis Suc_le_D numeral_2_eq_2 Suc_le_mono)
  with k obtain sp' w' where u: "run cl (StatefulPodService_Update fuel sp1) w = (Done (Inr sp'), w')" "Vs w' = (Vs w)(sp_key sp \<mapsto> sp')"
    "Finalizers (sp_Meta sp') = Finalizers (sp_Meta sp1)"
    using run_Update_two [OF cooperativeD(1) [OF assms(1)], of w sp1 sp m] assms(2) by metis
  have "run cl (StatefulPodCtrl_setFinalizer fuel sp) w = (Done ((result0, None), sp'), w')"
    using assms(4,5) u(1) by (simp add: StatefulPodCtrl_setFinalizer_def Let_def sp1_def del: GroupVersion_String_simp)
  moreover have f: "Finalizers (sp_Meta sp') = Finalizers (sp_Meta sp) @ [GroupVersion_String]" using u(3) by (simp add: sp1_def)
  moreover have "SetupWithManager_watch enq (sp_update sp sp') = Ret []" by (rule watch_dropped) (simp add: f)
  ultimately show ?thesis using u(2) by blast
qed

lemma watch_removeFinalizer:
  assumes "cooperative cl Vs Vp Vc" "Vs w (sp_key sp) = Some sp" "wf_sp sp" "2 \<le> fuel" "GroupVersion_String \<in> set (Finalizers (sp_Meta sp))"
    "remove1 GroupVersion_String (Finalizers (sp_Meta sp)) \<noteq> []" "PVRecyclePolicy (Spec sp) \<noteq> ''Retain''"
    "\<forall>s \<in> set (pods_of sp). Vp w (NN (Namespace (sp_Meta sp)) (PodName s)) = None"
    "\<forall>s \<in> set (pvcs_of sp). Vc w (NN (Namespace (sp_Meta sp)) (PVCName s)) = None"
  shows "\<exists>sp' w'. run cl (StatefulPodCtrl_deleteStatefulPod fuel sp) w = (Done (result0, None), w') \<and> Vs w' = (Vs w)(sp_key sp \<mapsto> sp') \<and>
    Finalizers (sp_Meta sp') = remove1 GroupVersion_String (Finalizers (sp_Meta sp)) \<and> SetupWithManager_watch enq (sp_update sp sp') = Ret []"
proof -
  obtain sp' w' where d: "run cl (StatefulPodCtrl_deleteStatefulPod fuel sp) w = (Done (result0, None), w')" "Vs w' = (Vs w)(sp_key sp \<mapsto> sp')"
    "Finalizers (sp_Meta sp') = remove1 GroupVersion_String (Finalizers (sp_Meta sp))"
    using run_deleteStatefulPod [OF assms(1,3,5,7,2,4)] assms(6,8,9) by (auto simp del: GroupVersion_String_simp)
  have "length (remove1 GroupVersion_String (Finalizers (sp_Meta sp))) < length (Finalizers (sp_Meta sp))"
    using assms(5) length_pos_if_in_set [OF assms(5)] by (simp add: length_remove1 del: GroupVersion_String_simp)
  then have "Finalizers (sp_Meta sp) \<noteq> Finalizers (sp_Meta sp')" unfolding d(3) by (metis less_irrefl)
  with d watch_dropped [of sp sp' enq] show ?thesis by blast
qed

lemma watch_pod_event:
  assumes "cooperative cl Vs Vp Vc" "Vs w (sp_key sp) = Some sp" "2 \<le> fuel" "Vs w req = None" "Vp w req = Some pod"
    "sp_key sp = NN (Namespace (pod_Meta pod)) (gomap_val (Annotations (pod_Meta pod)) ''parentName'')"
    "pod_index pod = int i" "i < length (pods_of sp)" "IsZero (DeletionTimestamp (pod_Meta pod))" "PodCtrl_isPodRunning pod"
    "run cl (IsNodeReady env (NN '''' (pod_NodeName (pod_Spec pod)))) w = (Done True, w)" "ps_Status (pods_of sp ! i) \<noteq> ''Running''"
  shows "\<exists>sp' w'. run cl (Reconcile env fuel req) w = (Done (result0, None), w') \<and> Vs w' = (Vs w)(sp_key sp \<mapsto> sp') \<and>
    pods_of sp' = (pods_of sp)[i := running_entry pod (pods_of sp ! i)] \<and>
    SetupWithManager_watch enq (sp_update sp sp') = Ret (enq (sp_update sp sp'))"
proof -
  have p: "Vs w (NN (Namespace (pod_Meta pod)) (gomap_val (Annotations (pod_Meta pod)) ''parentName'')) = Some sp"
    using assms(2,6) by simp
  obtain sp' w' where e: "run cl (Reconcile env fuel req) w = (Done (result0, None), w')" "Vs w' = (Vs w)(sp_key sp \<mapsto> sp')"
    "Status sp' = Status (set_pods ((pods_of sp)[i := running_entry pod (pods_of sp ! i)]) sp)" "Spec sp' = Spec sp"
    "Finalizers (sp_Meta sp') = Finalizers (sp_Meta sp)"
    using run_running_event [where Vs = Vs and Vp = Vp and Vc = Vc and w = w and sp = sp and pod = pod, OF assms(1,4,5) p assms(6-12,3)] by metis
  have st: "pods_of sp' = (pods_of sp)[i := running_entry pod (pods_of sp ! i)]" "pvcs_of sp' = pvcs_of sp" by (simp_all add: e(3))
  with e(1,2) watch_passed [OF e(4,5) st(2), of enq] show ?thesis by blast
qed

lemma watch_claim_event:
  assumes "cooperative cl Vs Vp Vc" "Vs w (sp_key sp) = Some sp" "2 \<le> fuel" "Vs w req = None" "Vp w req = None" "Vc w req = Some pvc"
    "sp_key sp = NN (Namespace (pvc_Meta pvc)) (gomap_val (Annotations (pvc_Meta pvc)) ''parentName'')"
    "pvc_index pvc = int i" "i < length (pvcs_of sp)" "IsZero (DeletionTimestamp (pvc_Meta pvc))" "pvc_Phase pvc = ''Bound''"
    "pvs_Status (pvcs_of sp ! i) \<noteq> ''Bound''"
  shows "\<exists>sp' w'. run cl (Reconcile env fuel req) w = (Done (result0, None), w') \<and> Vs w' = (Vs w)(sp_key sp \<mapsto> sp') \<and>
    pvs_Status (pvcs_of sp' ! i) = ''Bound'' \<and> SetupWithManager_watch enq (sp_update sp sp') = Ret []"
proof -
  have p: "Vs w (NN (Namespace (pvc_Meta pvc)) (gomap_val (Annotations (pvc_Meta pvc)) ''parentName'')) = Some sp"
    using assms(2,7) by simp
  obtain sp' w' where e: "run cl (Reconcile env fuel req) w = (Done (result0, None), w')" "Vs w' = (Vs w)(sp_key sp \<mapsto> sp')"
    "Status sp' = Status (set_pvcs ((pvcs_of sp)[i := bound_entry env pvc (pvcs_of sp ! i)]) sp)"
    using run_bound_event [where Vs = Vs and Vp = Vp and Vc = Vc and w = w and sp = sp and pvc = pvc and env = env, OF assms(1,4-6) p assms(7-12,3)] by metis
  then have b: "pvs_Status (pvcs_of sp' ! i) = ''Bound''" using assms(9) by (simp add: bound_entry_def)
  then have "pvcs_of sp \<noteq> pvcs_of sp'" using assms(12) by metis
  with e(1,2) b watch_dropped [of sp sp' enq] show ?thesis by blast
qed

text \<open>C34: which updates of a StatefulPod come back as events. Take a server that accepts updates, and the version it stores before and after a
  write. The filter drops the write by which growth (under the conditions of \<open>growth\_step\<close>) appends an ordinal, because the claim lists differ, also
  without claims; so growth goes on only through the events of the new pod and claim. It drops the write that records a bound claim, the one by
  which \<open>setFinalizer\<close> adds the finalizer, and the one by which \<open>deleteStatefulPod\<close> (without retained volumes, when all pods and claims are gone)
  removes it while others remain. The write that records a pod running on a ready node passes. A user's change of
  the size passes too, but every update that also changes the finalizers is dropped, and with it a change of the size.\<close>

theorem own_updates_filtered:
  assumes "cooperative cl Vs Vp Vc" "Vs w (sp_key sp) = Some sp" "wf_sp sp" "2 \<le> fuel"
  shows
   "(Size (Spec sp) = Some sz \<and> settled (int_of_int32 sz) (phases_of sp) = int (length (pods_of sp)) \<and>
       int (length (pods_of sp)) < int_of_int32 sz \<and> PVNames (Spec sp) = [] \<and>
       run cl (StatefulPodCtrl_expansionSvc env sp (int (length (pods_of sp)))) w = (Done True, w) \<and>
       (\<forall>t. PVCTemplate (Spec sp) = Some t \<longrightarrow> claim_volume (Spec sp) \<and> StorageClassName t \<noteq> None \<and>
          Vc w (claim_key sp (length (pods_of sp))) = None) \<and> Vp w (pod_key sp (length (pods_of sp))) = None \<longrightarrow>
     (\<exists>sp' w'. run cl (StatefulPodCtrl_CoreCtrl env fuel sp) w = (Done (result0, None), w') \<and> Vs w' = (Vs w)(sp_key sp \<mapsto> sp') \<and>
        length (pods_of sp') = Suc (length (pods_of sp)) \<and> SetupWithManager_watch enq (sp_update sp sp') = Ret [])) \<and>
    (IsZero (DeletionTimestamp (sp_Meta sp)) \<and> GroupVersion_String \<notin> set (Finalizers (sp_Meta sp)) \<longrightarrow>
     (\<exists>sp' w'. run cl (StatefulPodCtrl_setFinalizer fuel sp) w = (Done ((result0, None), sp'), w') \<and> Vs w' = (Vs w)(sp_key sp \<mapsto> sp') \<and>
        Finalizers (sp_Meta sp') = Finalizers (sp_Meta sp) @ [GroupVersion_String] \<and> SetupWithManager_watch enq (sp_update sp sp') = Ret [])) \<and>
    (GroupVersion_String \<in> set (Finalizers (sp_Meta sp)) \<and> remove1 GroupVersion_String (Finalizers (sp_Meta sp)) \<noteq> [] \<and>
       PVRecyclePolicy (Spec sp) \<noteq> ''Retain'' \<and> (\<forall>s \<in> set (pods_of sp). Vp w (NN (Namespace (sp_Meta sp)) (PodName s)) = None) \<and>
       (\<forall>s \<in> set (pvcs_of sp). Vc w (NN (Namespace (sp_Meta sp)) (PVCName s)) = None) \<longrightarrow>
     (\<exists>sp' w'. run cl (StatefulPodCtrl_deleteStatefulPod fuel sp) w = (Done (result0, None), w') \<and> Vs w' = (Vs w)(sp_key sp \<mapsto> sp') \<and>
        Finalizers (sp_Meta sp') = remove1 GroupVersion_String (Finalizers (sp_Meta sp)) \<and>
        SetupWithManager_watch enq (sp_update sp sp') = Ret [])) \<and>
    (Vs w req = None \<and> Vp w req = Some pod \<and>
       sp_key sp = NN (Namespace (pod_Meta pod)) (gomap_val (Annotations (pod_Meta pod)) ''parentName'') \<and> pod_index pod = int i \<and>
       i < length (pods_of sp) \<and> IsZero (DeletionTimestamp (pod_Meta pod)) \<and> PodCtrl_isPodRunning pod \<and>
       run cl (IsNodeReady env (NN '''' (pod_NodeName (pod_Spec pod)))) w = (Done True, w) \<and> ps_Status (pods_of sp ! i) \<noteq> ''Running'' \<longrightarrow>
     (\<exists>sp' w'. run cl (Reconcile env fuel req) w = (Done (result0, None), w') \<and> Vs w' = (Vs w)(sp_key sp \<mapsto> sp') \<and>
        pods_of sp' = (pods_of sp)[i := running_entry pod (pods_of sp ! i)] \<and>
        SetupWithManager_watch enq (sp_update sp sp') = Ret (enq (sp_update sp sp')))) \<and>
    (Vs w req = None \<and> Vp w req = None \<and> Vc w req = Some pvc \<and>
       sp_key sp = NN (Namespace (pvc_Meta pvc)) (gomap_val (Annotations (pvc_Meta pvc)) ''parentName'') \<and> pvc_index pvc = int i \<and>
       i < length (pvcs_of sp) \<and> IsZero (DeletionTimestamp (pvc_Meta pvc)) \<and> pvc_Phase pvc = ''Bound'' \<and> pvs_Status (pvcs_of sp ! i) \<noteq> ''Bound'' \<longrightarrow>
     (\<exists>sp' w'. run cl (Reconcile env fuel req) w = (Done (result0, None), w') \<and> Vs w' = (Vs w)(sp_key sp \<mapsto> sp') \<and>
        pvs_Status (pvcs_of sp' ! i) = ''Bound'' \<and> SetupWithManager_watch enq (sp_update sp sp') = Ret [])) \<and>
    (let sp' = sp\<lparr>Spec := (Spec sp)\<lparr>Size := n\<rparr>\<rparr> in SetupWithManager_watch enq (sp_update sp sp') = Ret (enq (sp_update sp sp'))) \<and>
    (fs \<noteq> Finalizers (sp_Meta sp) \<longrightarrow>
       SetupWithManager_watch enq (sp_update sp (sp\<lparr>sp_Meta := (sp_Meta sp)\<lparr>Finalizers := fs\<rparr>, Spec := (Spec sp)\<lparr>Size := n\<rparr>\<rparr>)) = Ret [])"
  apply (intro conjI)
  subgoal using watch_growth [OF assms, of sz env enq] by blast
  subgoal using watch_setFinalizer [OF assms(1,2,4), of enq] by blast
  subgoal using watch_removeFinalizer [OF assms, of enq] by blast
  subgoal using watch_pod_event [OF assms(1,2,4), of req pod i env enq] by blast
  subgoal using watch_claim_event [OF assms(1,2,4), of req pvc i env enq] by blast
  subgoal by (simp add: watch_update Let_def)
  subgoal by (intro impI watch_dropped) auto
  done

theorem own_updates_filtered_witness:
  "(\<exists>sp' w'. run mem_client (StatefulPodCtrl_CoreCtrl demo_env 2 growing_sp)
        (empty_world\<lparr>sps := (\<lambda>_. None)(NN ''ns'' ''db'' \<mapsto> growing_sp)\<rparr>) = (Done (result0, None), w') \<and>
      sps w' (NN ''ns'' ''db'') = Some sp' \<and> length (pods_of sp') = 2 \<and>
      SetupWithManager_watch (\<lambda>_. [NN ''ns'' ''db'']) (sp_update growing_sp sp') = Ret []) \<and>
   (\<exists>sp' w'. run mem_client (StatefulPodCtrl_setFinalizer 2 growing_sp)
        (empty_world\<lparr>sps := (\<lambda>_. None)(NN ''ns'' ''db'' \<mapsto> growing_sp)\<rparr>) = (Done ((result0, None), sp'), w') \<and>
      sps w' (NN ''ns'' ''db'') = Some sp' \<and> SetupWithManager_watch (\<lambda>_. [NN ''ns'' ''db'']) (sp_update growing_sp sp') = Ret [])"
proof -
  define w0 where "w0 = empty_world\<lparr>sps := (\<lambda>_. None)(NN ''ns'' ''db'' \<mapsto> growing_sp)\<rparr>"
  have w0: "sps w0 (sp_key growing_sp) = Some growing_sp" "pods w0 nn = None" "claims w0 nn = None" for nn
    unfolding growing_sp_simps(7) by (simp_all add: w0_def empty_world_def)
  have sp: "IsZero (DeletionTimestamp (sp_Meta growing_sp))" "GroupVersion_String \<notin> set (Finalizers (sp_Meta growing_sp))"
    "\<forall>t. PVCTemplate (Spec growing_sp) = Some t \<longrightarrow> claim_volume (Spec growing_sp) \<and> StorageClassName t \<noteq> None"
    using growing_sp_simps(5,6) by (simp_all add: growing_sp_def demo_sp_claims_def demo_sp_def demo_meta_def Let_def demo_claim_def ObjectMeta_zero_def)
  have svc: "run mem_client (StatefulPodCtrl_expansionSvc demo_env growing_sp (int 1)) w0 = (Done True, w0)"
    by (rule run_expansionSvc [OF mem_reads(4)]) simp
  note f = own_updates_filtered [OF mem_cooperative w0(1) growing_sp_simps(1) order_refl, where env = demo_env and sz = "int32_of 2" and enq = "\<lambda>_. [NN ''ns'' ''db'']"]
  have "\<exists>sp' w'. run mem_client (StatefulPodCtrl_CoreCtrl demo_env 2 growing_sp) w0 = (Done (result0, None), w') \<and>
      sps w' = (sps w0)(sp_key growing_sp \<mapsto> sp') \<and> length (pods_of sp') = Suc (length (pods_of growing_sp)) \<and>
      SetupWithManager_watch (\<lambda>_. [NN ''ns'' ''db'']) (sp_update growing_sp sp') = Ret []"
    by (rule mp [OF conjunct1 [OF f]])
      (use growing_sp_simps(2,4,8) growing_sp_settled(1,2) svc sp(3) w0(2,3) in simp)
  moreover have "\<exists>sp' w'. run mem_client (StatefulPodCtrl_setFinalizer 2 growing_sp) w0 = (Done ((result0, None), sp'), w') \<and>
      sps w' = (sps w0)(sp_key growing_sp \<mapsto> sp') \<and> Finalizers (sp_Meta sp') = Finalizers (sp_Meta growing_sp) @ [GroupVersion_String] \<and>
      SetupWithManager_watch (\<lambda>_. [NN ''ns'' ''db'']) (sp_update growing_sp sp') = Ret []"
    by (rule mp [OF conjunct1 [OF conjunct2 [OF f]]]) (use sp(1,2) in blast)
  ultimately show ?thesis unfolding w0_def [symmetric] growing_sp_simps(7,8)
    by (elim exE conjE, intro conjI) (fastforce simp del: map_upd_eqD1)+
qed

end
