(* ===== verification/Isolation.thy ===== *)
theory Isolation
  imports Cluster
begin

text \<open>
  Which requests the program makes at all, whatever is answered: the kinds of request per kind of object, what the
  objects it creates carry, and that everything but nodes and volumes is of one namespace. The contract \<open>footprint\<close>
  says this of one program; the lemmas \<open>scoped\_\<close> prove it operation by operation.
\<close>

section \<open>The contract\<close>

text \<open>\<open>None\<close> stands for every namespace: then nothing is relied on.\<close>

definition within :: "string option \<Rightarrow> string \<Rightarrow> bool" where
  "within ns n \<longleftrightarrow> (case ns of None \<Rightarrow> True | Some m \<Rightarrow> n = m)"

text \<open>What marks an object as one of the program's: the marker, a parent's name out of \<open>S\<close> and an owner.\<close>

definition owned :: "string set \<Rightarrow> ObjectMeta \<Rightarrow> bool" where
  "owned S m \<longleftrightarrow> gomap_get (Annotations m) ''iapetos.foundary-cloud.io/v1'' = Some ''true'' \<and>
     (case gomap_get (Annotations m) ''parentName'' of None \<Rightarrow> False | Some p \<Rightarrow> p \<in> S) \<and> OwnerReferences m \<noteq> []"

text \<open>The kinds of request that may be made of an object with a namespace.\<close>

record 'o permit =
  may_create :: "'o \<Rightarrow> bool"
  may_update :: bool
  may_delete :: bool

fun permitted :: "string option \<Rightarrow> ('o \<Rightarrow> ObjectMeta) \<Rightarrow> 'o permit \<Rightarrow> 'o req \<Rightarrow> bool" where
  "permitted ns meta P (Get nn) = within ns (nn_Namespace nn)"
| "permitted ns meta P (Create x) = (may_create P x \<and> within ns (Namespace (meta x)))"
| "permitted ns meta P (Update x) = (may_update P \<and> within ns (Namespace (meta x)))"
| "permitted ns meta P (Delete x opts) = (may_delete P \<and> within ns (Namespace (meta x)))"

definition scope :: "string option \<Rightarrow> ('o \<Rightarrow> ObjectMeta) \<Rightarrow> 'o permit \<Rightarrow> 'o side" where
  "scope ns meta P = \<lparr>guar = permitted ns meta P,
     rely = (\<lambda>r x. case x of Inl e \<Rightarrow> True | Inr y \<Rightarrow> within ns (Namespace (meta y)))\<rparr>"

text \<open>A StatefulPod that is asked for by a name of \<open>S\<close> has one.\<close>

fun asked :: "('o \<Rightarrow> ObjectMeta) \<Rightarrow> 'o req \<Rightarrow> string" where
  "asked meta (Get nn) = nn_Name nn"
| "asked meta (Create x) = Name (meta x)"
| "asked meta (Update x) = Name (meta x)"
| "asked meta (Delete x opts) = Name (meta x)"

definition sp_permit :: "StatefulPod permit" where
  "sp_permit = \<lparr>may_create = (\<lambda>_. False), may_update = True, may_delete = False\<rparr>"

definition sp_scope :: "string option \<Rightarrow> string set \<Rightarrow> StatefulPod side" where
  "sp_scope ns S = \<lparr>guar = permitted ns sp_Meta sp_permit,
     rely = (\<lambda>r x. case x of Inl e \<Rightarrow> True | Inr y \<Rightarrow> within ns (Namespace (sp_Meta y)) \<and>
       (asked sp_Meta r \<in> S \<longrightarrow> Name (sp_Meta y) \<in> S))\<rparr>"

definition footprint :: "string option \<Rightarrow> string set \<Rightarrow> contract" where
  "footprint ns S = \<lparr>
     c_sp = sp_scope ns S,
     c_pod = scope ns pod_Meta \<lparr>may_create = (\<lambda>p. owned S (pod_Meta p)), may_update = True, may_delete = True\<rparr>,
     c_pvc = scope ns pvc_Meta \<lparr>may_create = (\<lambda>c. owned S (pvc_Meta c)), may_update = False, may_delete = True\<rparr>,
     c_svc = scope ns svc_Meta \<lparr>may_create = (\<lambda>v. owned S (svc_Meta v)), may_update = False, may_delete = False\<rparr>,
     c_pv = scope None pv_Meta \<lparr>may_create = (\<lambda>_. False), may_update = True, may_delete = False\<rparr>,
     c_node = scope None node_Meta \<lparr>may_create = (\<lambda>_. False), may_update = False, may_delete = False\<rparr>\<rparr>"

abbreviation scoped :: "string option \<Rightarrow> string set \<Rightarrow> ('a \<Rightarrow> bool) \<Rightarrow> 'a prog \<Rightarrow> bool" where
  "scoped ns S Q m \<equiv> meets (footprint ns S) Q (\<lambda>_. True) m"

text \<open>A StatefulPod of the namespace, and one that may have children.\<close>

abbreviation near :: "string option \<Rightarrow> StatefulPod \<Rightarrow> bool" where
  "near ns sp \<equiv> within ns (Namespace (sp_Meta sp))"

abbreviation here :: "string option \<Rightarrow> string set \<Rightarrow> StatefulPod \<Rightarrow> bool" where
  "here ns S sp \<equiv> near ns sp \<and> Name (sp_Meta sp) \<in> S"

lemma within_None [simp]: "within None n"
  by (simp add: within_def)

lemma within_Some [simp]: "within (Some m) n \<longleftrightarrow> n = m"
  by (simp add: within_def)

lemma scope_simps [simp]:
  "guar (scope ns meta P) r = permitted ns meta P r"
  "rely (scope ns meta P) r (Inl e)" "rely (scope ns meta P) r (Inr y) = within ns (Namespace (meta y))"
  by (simp_all add: scope_def)

lemma scope_None [simp]: "rely (scope None meta P) r x"
  by (cases x) simp_all

lemma sp_scope_simps [simp]:
  "guar (sp_scope ns S) r = permitted ns sp_Meta sp_permit r" "rely (sp_scope ns S) r (Inl e)"
  "rely (sp_scope ns S) r (Inr y) \<longleftrightarrow> within ns (Namespace (sp_Meta y)) \<and> (asked sp_Meta r \<in> S \<longrightarrow> Name (sp_Meta y) \<in> S)"
  "\<not> may_create sp_permit sp" "may_update sp_permit" "\<not> may_delete sp_permit"
  by (simp_all add: sp_scope_def sp_permit_def)

lemma sp_scope_UNIV [simp]: "sp_scope ns UNIV = scope ns sp_Meta sp_permit"
  by (simp add: sp_scope_def scope_def fun_eq_iff split: sum.split)

lemma footprint_sides [simp]:
  "c_sp (footprint ns S) = sp_scope ns S"
  "c_pod (footprint ns S) = scope ns pod_Meta \<lparr>may_create = (\<lambda>p. owned S (pod_Meta p)), may_update = True, may_delete = True\<rparr>"
  "c_pvc (footprint ns S) = scope ns pvc_Meta \<lparr>may_create = (\<lambda>c. owned S (pvc_Meta c)), may_update = False, may_delete = True\<rparr>"
  "c_svc (footprint ns S) = scope ns svc_Meta \<lparr>may_create = (\<lambda>v. owned S (svc_Meta v)), may_update = False, may_delete = False\<rparr>"
  "c_pv (footprint ns S) = scope None pv_Meta \<lparr>may_create = (\<lambda>_. False), may_update = True, may_delete = False\<rparr>"
  "c_node (footprint ns S) = scope None node_Meta \<lparr>may_create = (\<lambda>_. False), may_update = False, may_delete = False\<rparr>"
  by (simp_all add: footprint_def)

text \<open>A call whose answer is used only by its kind, or with the object in it.\<close>

named_theorems scoped_rules \<open>what a part of a program may request\<close>

lemma scoped_index [scoped_rules]: "(\<And>i. Q (xs ! i)) \<Longrightarrow> scoped ns S Q (go_index xs i)"
  by (simp add: go_index_def)

lemma scoped_assign [scoped_rules]: "(\<And>ys. Q ys) \<Longrightarrow> scoped ns S Q (go_assign xs i f)"
  by (simp add: go_assign_def)

lemma scoped_slice [scoped_rules]: "(\<And>ys. Q ys) \<Longrightarrow> scoped ns S Q (go_slice_to xs i)"
  by (simp add: go_slice_to_def)

lemma scoped_deref [scoped_rules]: "(\<And>x. p = Some x \<Longrightarrow> Q x) \<Longrightarrow> scoped ns S Q (go_deref p)"
  by (simp add: go_deref_def split: option.split)

section \<open>Services\<close>

lemma scoped_SetPVCName: "scoped ns S (\<lambda>(nm, sp'). sp_Meta sp' = sp_Meta sp) (SetPVCName sp i)"
  by (auto simp: SetPVCName_def Let_def intro!: scoped_rules)

lemma scoped_IsNodeReady: "scoped ns S (\<lambda>_. True) (IsNodeReady env nn)"
  by (auto simp: IsNodeReady_def Let_def intro!: scoped_rules split: sum.split)

lemma scoped_IsPvCanUse: "scoped ns S (\<lambda>_. True) (IsPvCanUse env nn)"
  by (auto simp: IsPvCanUse_def split: sum.split option.split intro!: meets_mono [OF scoped_IsNodeReady])

lemma scoped_pods:
  "within ns (nn_Namespace nn) \<Longrightarrow> scoped ns S (\<lambda>r. \<forall>p. r = Some p \<longrightarrow> within ns (Namespace (pod_Meta p))) (PodService_IsExists nn)"
  "within ns (Namespace (pod_Meta p)) \<Longrightarrow> owned S (pod_Meta p) \<Longrightarrow> scoped ns S (\<lambda>_. True) (PodService_Create p)"
  "within ns (Namespace (pod_Meta p)) \<Longrightarrow> scoped ns S (\<lambda>_. True) (PodService_Delete p)"
  by (auto simp: PodService_IsExists_def PodService_Create_def PodService_Delete_def split: sum.split)

lemma scoped_PodService_Update:
  "within ns (Namespace (pod_Meta p)) \<Longrightarrow> scoped ns S (\<lambda>r. \<forall>q. r = Inr q \<longrightarrow> within ns (Namespace (pod_Meta q))) (PodService_Update p)"
  by (auto simp: PodService_Update_def PodService_IsResourceVersionSame_def intro!: meets_mono [OF scoped_pods(1)]
      split: sum.split option.split)

lemma scoped_PodService_DeleteMandatory:
  "within ns (Namespace (pod_Meta p)) \<Longrightarrow> scoped ns S (\<lambda>_. True) (PodService_DeleteMandatory p sp)"
  by (auto simp: PodService_DeleteMandatory_def PodService_webhook_def Let_def intro!: meets_mono [OF scoped_PodService_Update]
      split: sum.split)

lemma scoped_claims:
  "within ns (nn_Namespace nn) \<Longrightarrow> scoped ns S (\<lambda>r. \<forall>p. r = Some p \<longrightarrow> within ns (Namespace (pvc_Meta p))) (PVCService_IsExists nn)"
  "within ns (Namespace (pvc_Meta p)) \<Longrightarrow> owned S (pvc_Meta p) \<Longrightarrow> scoped ns S (\<lambda>_. True) (PVCService_Create p)"
  "within ns (Namespace (pvc_Meta p)) \<Longrightarrow> scoped ns S (\<lambda>_. True) (PVCService_Delete p)"
  "within ns (Namespace (pvc_Meta p)) \<Longrightarrow> scoped ns S (\<lambda>_. True) (PVCService_DeleteMandatory p sp)"
  by (auto simp: PVCService_IsExists_def PVCService_Create_def PVCService_Delete_def PVCService_DeleteMandatory_def split: sum.split)

lemma scoped_volumes: "scoped ns S (\<lambda>_. True) (PVService_Get nn)" "scoped ns S (\<lambda>_. True) (PVService_Update pv)"
  by (auto simp: PVService_Get_def PVService_Update_def PVService_IsResourceVersionSame_def PVService_IsExists_def
      split: sum.split)

lemma scoped_StatefulPodService_IsExists:
  "within ns (nn_Namespace nn) \<Longrightarrow> scoped ns S (\<lambda>r. \<forall>sp. r = Some sp \<longrightarrow> near ns sp) (StatefulPodService_IsExists nn)"
  by (auto simp: StatefulPodService_IsExists_def split: sum.split)

lemma scoped_StatefulPodService_Update:
  "near ns sp \<Longrightarrow> scoped ns S (\<lambda>r. \<exists>sp'. r = Inr sp' \<and> near ns sp' \<and> (Name (sp_Meta sp) \<in> S \<longrightarrow> Name (sp_Meta sp') \<in> S))
     (StatefulPodService_Update n sp)"
proof (induction n arbitrary: sp)
  case (Suc n)
  then show ?case by (auto simp: getNewResourceVersion_def intro!: meets_mono [OF Suc.IH] split: sum.split)
qed simp

section \<open>Templates\<close>

text \<open>What a template leaves: the StatefulPod in its namespace, and an object that is owned and in the same namespace.\<close>

abbreviation made :: "string option \<Rightarrow> string set \<Rightarrow> ('o \<Rightarrow> ObjectMeta) \<Rightarrow> 'o \<times> StatefulPod \<Rightarrow> bool" where
  "made ns S meta \<equiv> \<lambda>(x, sp). here ns S sp \<and> within ns (Namespace (meta x)) \<and> owned S (meta x)"

lemma addAnnotations_owned:
  assumes "PodService_addAnnotations sp pod i = (pod', sp')"
  shows "Namespace (pod_Meta pod') = Namespace (pod_Meta pod)" "Namespace (sp_Meta sp') = Namespace (sp_Meta sp)"
    "Name (sp_Meta sp') = Name (sp_Meta sp)"
    "owned S (pod_Meta pod') \<longleftrightarrow> Name (sp_Meta sp) \<in> S \<and> OwnerReferences (pod_Meta pod) \<noteq> []"
  using assms by (auto simp: PodService_addAnnotations_def Let_def update_conv owned_def split: if_splits)

lemma scoped_setPvc:
  assumes "here ns S sp"
  shows "scoped ns S (\<lambda>(pod', sp'). here ns S sp' \<and> pod_Meta pod' = pod_Meta pod) (PodService_setPvc sp pod i)"
  using assms by (auto simp: PodService_setPvc_def intro!: meets_mono [OF scoped_SetPVCName] scoped_rules)

lemma setLabels_meta:
  "Namespace (pod_Meta (PodService_setLabels sp pod)) = Namespace (pod_Meta pod)"
  "owned S (pod_Meta (PodService_setLabels sp pod)) = owned S (pod_Meta pod)"
  by (auto simp: PodService_setLabels_def Let_def owned_def split: option.split prod.split)

lemma scoped_PodService_CreateTemplate:
  assumes "here ns S sp"
  shows "scoped ns S (made ns S pod_Meta) (PodService_CreateTemplate env sp nm i)"
  using assms
  by (auto simp: PodService_CreateTemplate_def Let_def setLabels_meta addAnnotations_owned
      intro!: meets_mono [OF scoped_setPvc] split: prod.split)

lemma scoped_PVCService_CreateTemplate:
  assumes "here ns S sp"
  shows "scoped ns S (made ns S pvc_Meta) (PVCService_CreateTemplate env sp nm i)"
proof -
  have "scoped ns S (here ns S) (PVCService_reserve env sp i)"
    using assms by (auto simp: PVCService_reserve_def intro!: scoped_rules meets_mono [OF scoped_IsPvCanUse] split: option.split)
  then show ?thesis
    by (auto simp: PVCService_CreateTemplate_def owned_def elim!: meets_mono intro!: scoped_rules)
qed

lemma scoped_CreateService: "here ns S sp \<Longrightarrow> scoped ns S (\<lambda>_. True) (ServiceController_CreateService env sp)"
  by (auto simp: ServiceController_CreateService_def Service_IsExists_def Service_CreateTemplate_def Service_Create_def Let_def
      owned_def intro!: scoped_rules split: sum.split)



section \<open>Controllers of pods, claims and volumes\<close>

abbreviation leaves :: "string option \<Rightarrow> string set \<Rightarrow> 'a \<times> StatefulPod \<Rightarrow> bool" where
  "leaves ns S \<equiv> \<lambda>(x, sp). here ns S sp"

abbreviation rests :: "string option \<Rightarrow> 'a \<times> StatefulPod \<Rightarrow> bool" where
  "rests ns \<equiv> \<lambda>(x, sp). near ns sp"

lemma scoped_ExpansionPod: "here ns S sp \<Longrightarrow> scoped ns S (leaves ns S) (PodCtrl_ExpansionPod env sp i)"
  by (auto simp: PodCtrl_ExpansionPod_def Let_def intro!: meets_mono [OF scoped_pods(1)] scoped_rules
      meets_mono [OF scoped_PodService_CreateTemplate] meets_mono [OF scoped_pods(2)] split: option.split sum.split)

lemma scoped_ShrinkPod: "here ns S sp \<Longrightarrow> scoped ns S (\<lambda>_. True) (PodCtrl_ShrinkPod sp i)"
  by (auto simp: PodCtrl_ShrinkPod_def Let_def intro!: meets_mono [OF scoped_pods(1)] meets_mono [OF scoped_pods(3)]
      split: option.split)

lemma scoped_DeletePodAll: "here ns S sp \<Longrightarrow> scoped ns S (\<lambda>_. True) (PodCtrl_DeletePodAll sp)"
proof -
  have "scoped ns S (\<lambda>_. True) (PodCtrl_DeletePodAll_loop n vs cnt)" if "within ns n" for n vs cnt
  proof (induction vs arbitrary: cnt)
    case (Cons v vs)
    then show ?case
      using that by (auto intro!: meets_mono [OF scoped_pods(1)] meets_mono [OF scoped_pods(3)] split: option.split)
  qed simp
  then show "here ns S sp \<Longrightarrow> ?thesis" by (auto simp: PodCtrl_DeletePodAll_def elim!: meets_mono split: option.split)
qed

lemma scoped_MaintainPod: "here ns S sp \<Longrightarrow> scoped ns S (\<lambda>_. True) (PodCtrl_MaintainPod sp)"
proof -
  have "scoped ns S (\<lambda>_. True) (PodCtrl_MaintainPod_loop n ps i)" if "within ns n" for n ps i
  proof (induction ps arbitrary: i)
    case (Cons p ps)
    then show ?case using that by (auto intro!: meets_mono [OF scoped_pods(1)] split: option.split)
  qed simp
  then show "here ns S sp \<Longrightarrow> ?thesis" by (simp add: PodCtrl_MaintainPod_def)
qed

lemma scoped_PodIsOk: "here ns S sp \<Longrightarrow> scoped ns S (leaves ns S) (PodCtrl_PodIsOk sp)"
proof -
  have "scoped ns S (leaves ns S) (PodCtrl_PodIsOk_loop sp ps i)" if "here ns S sp" for ps i
  proof (induction ps arbitrary: i)
    case (Cons p ps)
    then show ?case using that by (auto intro!: meets_mono [OF scoped_pods(1)] scoped_rules split: option.split)
  qed (simp add: that)
  then show "here ns S sp \<Longrightarrow> ?thesis" by (simp add: PodCtrl_PodIsOk_def)
qed

lemma scoped_mark_deleting: "near ns sp \<Longrightarrow> scoped ns S (near ns) (mark_deleting sp i)"
  by (simp add: mark_deleting_def go_assign_def)

lemma scoped_claim_name: "scoped ns S (\<lambda>(nm, sp'). sp_Meta sp' = sp_Meta sp) (PVCService_GetName sp i)"
  unfolding PVCService_GetName_def by (rule scoped_SetPVCName)

lemma scoped_nodeLost:
  assumes "near ns sp" "within ns (Namespace (pod_Meta pod))"
  shows "scoped ns S (rests ns) (PodCtrl_nodeLost sp pod i)"
  using assms
  by (auto simp: PodCtrl_nodeLost_def intro!: meets_mono [OF scoped_PodService_DeleteMandatory] meets_mono [OF scoped_claim_name]
      meets_mono [OF scoped_claims(1)] meets_mono [OF scoped_claims(4)] meets_mono [OF scoped_mark_deleting] split: option.split)

lemma scoped_deletePVC_loop:
  "within ns (Namespace (pvc_Meta pvc)) \<Longrightarrow> scoped ns S (\<lambda>_. True) (PodCtrl_deletePVC_loop n pvc)"
  by (induction n) (auto intro!: meets_mono [OF scoped_claims(3)] split: option.split)

lemma scoped_timedOut:
  assumes "near ns sp" "within ns (Namespace (pod_Meta pod))"
  shows "scoped ns S (rests ns) (PodCtrl_timedOut fuel sp pod i)"
proof -
  have "scoped ns S (near ns) (PodCtrl_timedOutClaim fuel sp pod i)"
    using assms by (auto simp: PodCtrl_timedOutClaim_def intro!: meets_mono [OF scoped_claim_name] meets_mono [OF scoped_claims(1)]
        meets_mono [OF scoped_deletePVC_loop] split: option.split)
  moreover have "scoped ns S (near ns) (PodCtrl_timedOutStatus sp1 i)" if "near ns sp1" for sp1
    using that by (auto simp: PodCtrl_timedOutStatus_def intro!: scoped_rules scoped_mark_deleting)
  ultimately show ?thesis
    using assms by (auto simp: PodCtrl_timedOut_def intro!: meets_mono [OF scoped_pods(3)] elim!: meets_mono split: option.split)
qed

lemma scoped_PodCtrl_MonitorPodStatus:
  assumes "near ns sp" "within ns (Namespace (pod_Meta pod))"
  shows "scoped ns S (rests ns) (PodCtrl_MonitorPodStatus env fuel sp pod i)"
  using assms scoped_nodeLost [OF assms] scoped_timedOut [OF assms]
  by (auto simp: PodCtrl_MonitorPodStatus_def intro!: meets_mono [OF scoped_IsNodeReady] scoped_rules)

lemma scoped_DeletePvcAll: "here ns S sp \<Longrightarrow> scoped ns S (\<lambda>_. True) (PVCCtrl_DeletePvcAll sp)"
proof -
  have "scoped ns S (\<lambda>_. True) (PVCCtrl_DeletePvcAll_loop n vs cnt)" if "within ns n" for n vs cnt
  proof (induction vs arbitrary: cnt)
    case (Cons v vs)
    then show ?case
      using that by (auto intro!: meets_mono [OF scoped_claims(1)] meets_mono [OF scoped_claims(3)] split: option.split)
  qed simp
  then show "here ns S sp \<Longrightarrow> ?thesis" by (auto simp: PVCCtrl_DeletePvcAll_def elim!: meets_mono split: option.split)
qed

lemma scoped_ExpansionPVC: "here ns S sp \<Longrightarrow> scoped ns S (leaves ns S) (PVCCtrl_ExpansionPVC env sp i)"
  by (auto simp: PVCCtrl_ExpansionPVC_def PVCCtrl_createClaim_def intro!: meets_mono [OF scoped_claim_name]
      meets_mono [OF scoped_claims(1)] meets_mono [OF scoped_PVCService_CreateTemplate] meets_mono [OF scoped_claims(2)] scoped_rules
      split: option.split sum.split)

lemma scoped_ShrinkPVC: "here ns S sp \<Longrightarrow> scoped ns S (leaves ns S) (PVCCtrl_ShrinkPVC sp i)"
  by (auto simp: PVCCtrl_ShrinkPVC_def PVCCtrl_remove_def intro!: meets_mono [OF scoped_claim_name]
      meets_mono [OF scoped_claims(1)] meets_mono [OF scoped_claims(3)] split: option.split)

lemma scoped_PVCCtrl_MonitorPVCStatus: "near ns sp \<Longrightarrow> scoped ns S (rests ns) (PVCCtrl_MonitorPVCStatus env sp pvc i)"
  by (auto simp: PVCCtrl_MonitorPVCStatus_def Let_def intro!: scoped_rules)

lemma scoped_SetPVRetain: "scoped ns S (\<lambda>_. True) (PVCtrl_SetPVRetain sp)"
proof -
  have "scoped ns S (\<lambda>_. True) (PVCtrl_SetPVRetain_loop vs cnt)" for vs cnt
  proof (induction vs arbitrary: cnt)
    case (Cons v vs)
    then show ?case
      by (auto intro!: meets_mono [OF scoped_volumes(1)] meets_mono [OF scoped_volumes(2)] split: sum.split)
  qed simp
  then show ?thesis by (auto simp: PVCtrl_SetPVRetain_def elim!: meets_mono split: option.split)
qed

lemma scoped_SetPVAvailable: "scoped ns S (\<lambda>_. True) (PVCtrl_SetPVAvailable sp)"
proof -
  have "scoped ns S (\<lambda>_. True) (PVCtrl_SetPVAvailable_loop vs cnt)" for vs cnt
  proof (induction vs arbitrary: cnt)
    case (Cons v vs)
    then show ?case
      by (auto intro!: meets_mono [OF scoped_volumes(1)] meets_mono [OF scoped_volumes(2)] split: sum.split)
  qed simp
  then show ?thesis by (auto simp: PVCtrl_SetPVAvailable_def elim!: meets_mono split: option.split)
qed


section \<open>The StatefulPod controller and the reconciler\<close>

lemma scoped_Update_end:
  "near ns sp \<Longrightarrow> scoped ns S (\<lambda>_. True)
     (bnd (StatefulPodService_Update fuel sp) (\<lambda>r. case r of Inl err \<Rightarrow> Ret (f err) | Inr x \<Rightarrow> Ret (g x)))"
  by (rule meets_bndI [OF scoped_StatefulPodService_Update]) auto

lemma scoped_getIndex: "scoped ns S (\<lambda>_. True) (getIndex sp)"
  by (auto simp: getIndex_def Let_def intro!: scoped_rules)

lemma scoped_deleteStatefulPod: "here ns S sp \<Longrightarrow> scoped ns S (\<lambda>_. True) (StatefulPodCtrl_deleteStatefulPod fuel sp)"
  by (auto simp: StatefulPodCtrl_deleteStatefulPod_def Let_def simp del: meets_bnd
      intro!: meets_bndI [OF scoped_SetPVRetain] meets_bndI [OF scoped_DeletePodAll] meets_bndI [OF scoped_DeletePvcAll]
        meets_bndI [OF scoped_SetPVAvailable] scoped_Update_end)

lemma scoped_expansion:
  assumes "here ns S sp"
  shows "scoped ns S (\<lambda>_. True) (StatefulPodCtrl_expansion env fuel sp i)"
proof -
  have rec: "scoped ns S (here ns S) (StatefulPodCtrl_record sp2 i p v)" if "here ns S sp2" for sp2 p v
    using that by (auto simp: StatefulPodCtrl_record_def intro!: scoped_rules)
  have fin: "scoped ns S (\<lambda>_. True) (bnd (StatefulPodCtrl_record sp2 i p v) (\<lambda>sp3. bnd (StatefulPodService_Update fuel sp3) (\<lambda>r. case r of
      Inl err \<Rightarrow> Ret (requeue_wait, None) | Inr s \<Rightarrow> Ret (result0, None))))" if "here ns S sp2" for sp2 p v
    by (rule meets_bndI [OF rec [OF that]]) (rule scoped_Update_end, simp)
  have svc: "scoped ns S (\<lambda>_. True) (StatefulPodCtrl_expansionSvc env sp i)"
    using assms by (auto simp: StatefulPodCtrl_expansionSvc_def intro!: scoped_CreateService)
  have pvc: "scoped ns S (leaves ns S) (StatefulPodCtrl_expansionPVC env sp1 i)" if "here ns S sp1" for sp1
    using that by (auto simp: StatefulPodCtrl_expansionPVC_def intro!: scoped_ExpansionPVC)
  show ?thesis
    unfolding StatefulPodCtrl_expansion_def
    by (auto simp del: meets_bnd split: sum.split intro!: meets_bndI [OF svc] meets_bndI [OF scoped_ExpansionPod [OF assms]]
        meets_bndI [OF pvc] fin)
qed

lemma scoped_shrink: "here ns S sp \<Longrightarrow> scoped ns S (\<lambda>_. True) (StatefulPodCtrl_shrink fuel sp i)"
proof -
  assume sp: "here ns S sp"
  have slice: "scoped ns S (\<lambda>_. True) (go_slice_to xs j)" for xs :: "'b list" and j by (simp add: scoped_rules)
  show ?thesis
    unfolding StatefulPodCtrl_shrink_def
    by (auto simp del: meets_bnd intro!: meets_bndI [OF scoped_ShrinkPod [OF sp]] meets_bndI [OF scoped_ShrinkPVC [OF sp]]
        meets_bndI [OF slice] scoped_Update_end simp: sp)
qed

lemma scoped_maintain: "here ns S sp \<Longrightarrow> scoped ns S (\<lambda>_. True) (StatefulPodCtrl_maintain env fuel sp)"
  by (auto simp: StatefulPodCtrl_maintain_def simp del: meets_bnd split: option.split intro!: meets_bndI [OF scoped_PodIsOk]
      meets_bndI [OF scoped_StatefulPodService_Update] meets_bndI [OF scoped_MaintainPod] scoped_expansion)

lemma scoped_CoreCtrl:
  assumes "here ns S sp"
  shows "scoped ns S (\<lambda>_. True) (StatefulPodCtrl_CoreCtrl env fuel sp)"
proof -
  have fin: "scoped ns S (leaves ns S) (StatefulPodCtrl_setFinalizer fuel sp)"
    using assms by (auto simp: StatefulPodCtrl_setFinalizer_def Let_def simp del: meets_bnd
        intro!: meets_bndI [OF scoped_StatefulPodService_Update])
  have size: "scoped ns S (\<lambda>_. True) (go_deref (Size (Spec sp)))" by (simp add: scoped_rules)
  show ?thesis
    unfolding StatefulPodCtrl_CoreCtrl_def
    by (auto simp: Let_def simp del: meets_bnd intro!: meets_bndI [OF scoped_getIndex] meets_bndI [OF size] meets_bndI [OF fin]
        scoped_deleteStatefulPod [OF assms] scoped_expansion [OF assms] scoped_shrink [OF assms] scoped_maintain)
qed

lemma scoped_MonitorPodStatus:
  assumes "within ns (Namespace (pod_Meta pod))"
  shows "scoped ns S (\<lambda>_. True) (StatefulPodCtrl_MonitorPodStatus env fuel pod)"
  unfolding StatefulPodCtrl_MonitorPodStatus_def
  by (rule meets_bndI [OF scoped_StatefulPodService_IsExists])
    (use assms in \<open>auto simp: Let_def simp del: meets_bnd split: option.split
      intro!: meets_bndI [OF scoped_PodCtrl_MonitorPodStatus] scoped_Update_end\<close>)

lemma scoped_MonitorPVCStatus:
  assumes "within ns (Namespace (pvc_Meta pvc))"
  shows "scoped ns S (\<lambda>_. True) (StatefulPodCtrl_MonitorPVCStatus env fuel pvc)"
  unfolding StatefulPodCtrl_MonitorPVCStatus_def
  by (rule meets_bndI [OF scoped_StatefulPodService_IsExists])
    (use assms in \<open>auto simp: Let_def simp del: meets_bnd split: option.split
      intro!: meets_bndI [OF scoped_PVCCtrl_MonitorPVCStatus] scoped_Update_end\<close>)

lemma scoped_Reconcile: "within ns (nn_Namespace req) \<Longrightarrow> nn_Name req \<in> S \<Longrightarrow> scoped ns S (\<lambda>_. True) (Reconcile env fuel req)"
  by (auto simp: Reconcile_def getType_def split: sum.split
      intro!: scoped_CoreCtrl scoped_MonitorPodStatus scoped_MonitorPVCStatus)


text \<open>C15: what the program may ask for at all. Whatever is answered, a call of \<open>Reconcile\<close> for a name of the namespace \<open>ns\<close>
  never creates or deletes a StatefulPod, never changes or deletes a service, never changes a claim, never creates or deletes a
  volume and never writes to a node; every pod, claim and service it creates carries the program's marker, an owner and, as its parent,
  the name of its StatefulPod, which is the one the request names; and all pods, claims, services and
  StatefulPods it reads or writes lie in \<open>ns\<close>, provided that what the server answers to a request in a namespace lies
  there and that a StatefulPod asked for by the request's name has that name.\<close>

theorem requests_permitted:
  "meets (footprint (Some (nn_Namespace req)) {nn_Name req}) (\<lambda>_. True) (\<lambda>_. True) (Reconcile env fuel req)"
  by (rule scoped_Reconcile) simp_all

section \<open>What a run leaves alone\<close>

text \<open>
  A server whose objects lie in the namespace of their key: a request changes at most the object it names, a creation no object
  that exists, an update none that does not.
\<close>

abbreviation key_of :: "ObjectMeta \<Rightarrow> NamespacedName" where
  "key_of m \<equiv> NN (Namespace m) (Name m)"

definition alters :: "('o \<Rightarrow> ObjectMeta) \<Rightarrow> 'o \<Rightarrow> 'o resp \<Rightarrow> (NamespacedName \<Rightarrow> 'o option) \<Rightarrow> (NamespacedName \<Rightarrow> 'o option) \<Rightarrow> bool" where
  "alters meta x y V V' \<longleftrightarrow> (\<forall>k. k \<noteq> key_of (meta x) \<longrightarrow> V' k = V k) \<and>
     (\<forall>z. V' (key_of (meta x)) = Some z \<longrightarrow> V (key_of (meta x)) = Some z \<or> Namespace (meta z) = Namespace (meta x)) \<and>
     (\<forall>z. y = Inr z \<longrightarrow> Namespace (meta z) = Namespace (meta x))"

definition namespaced :: "('o \<Rightarrow> ObjectMeta) \<Rightarrow> ('o req \<Rightarrow> 'w \<Rightarrow> 'o resp \<times> 'w) \<Rightarrow> ('w \<Rightarrow> NamespacedName \<Rightarrow> 'o option) \<Rightarrow> bool" where
  "namespaced meta f V \<longleftrightarrow> reads f V \<and> (\<forall>x w.
     alters meta x (fst (f (Create x) w)) (V w) (V (snd (f (Create x) w))) \<and>
     alters meta x (fst (f (Update x) w)) (V w) (V (snd (f (Update x) w))) \<and>
     (\<forall>opts. alters meta x (fst (f (Delete x opts) w)) (V w) (V (snd (f (Delete x opts) w)))) \<and>
     (V w (key_of (meta x)) \<noteq> None \<longrightarrow> V (snd (f (Create x) w)) = V w) \<and>
     (V w (key_of (meta x)) = None \<longrightarrow> V (snd (f (Update x) w)) = V w \<and> (\<forall>opts. V (snd (f (Delete x opts) w)) = V w)))"

definition placed :: "('o \<Rightarrow> ObjectMeta) \<Rightarrow> (NamespacedName \<Rightarrow> 'o option) \<Rightarrow> bool" where
  "placed meta V \<longleftrightarrow> (\<forall>k x. V k = Some x \<longrightarrow> Namespace (meta x) = nn_Namespace k)"

text \<open>Each kind of object has a server of its own, and none of them moves the views of the others.\<close>

definition separate :: "'w client \<Rightarrow> ('w \<Rightarrow> NamespacedName \<Rightarrow> StatefulPod option) \<Rightarrow> ('w \<Rightarrow> NamespacedName \<Rightarrow> Pod option) \<Rightarrow>
    ('w \<Rightarrow> NamespacedName \<Rightarrow> PVC option) \<Rightarrow> ('w \<Rightarrow> NamespacedName \<Rightarrow> Service option) \<Rightarrow> bool" where
  "separate cl Vs Vp Vc Vv \<longleftrightarrow>
     (\<forall>r w. let w' = snd (sp_srv cl r w) in Vp w' = Vp w \<and> Vc w' = Vc w \<and> Vv w' = Vv w) \<and>
     (\<forall>r w. let w' = snd (pod_srv cl r w) in Vs w' = Vs w \<and> Vc w' = Vc w \<and> Vv w' = Vv w) \<and>
     (\<forall>r w. let w' = snd (pvc_srv cl r w) in Vs w' = Vs w \<and> Vp w' = Vp w \<and> Vv w' = Vv w) \<and>
     (\<forall>r w. let w' = snd (svc_srv cl r w) in Vs w' = Vs w \<and> Vp w' = Vp w \<and> Vc w' = Vc w) \<and>
     (\<forall>r w. let w' = snd (pv_srv cl r w) in Vs w' = Vs w \<and> Vp w' = Vp w \<and> Vc w' = Vc w \<and> Vv w' = Vv w) \<and>
     (\<forall>r w. let w' = snd (node_srv cl r w) in Vs w' = Vs w \<and> Vp w' = Vp w \<and> Vc w' = Vc w \<and> Vv w' = Vv w) \<and>
     (\<forall>w. let w' = snd (clock cl w) in Vs w' = Vs w \<and> Vp w' = Vp w \<and> Vc w' = Vc w \<and> Vv w' = Vv w)"

lemma separateD:
  assumes "separate cl Vs Vp Vc Vv"
  shows "Vp (snd (sp_srv cl a w)) = Vp w" "Vc (snd (sp_srv cl a w)) = Vc w" "Vv (snd (sp_srv cl a w)) = Vv w"
    "Vs (snd (pod_srv cl b w)) = Vs w" "Vc (snd (pod_srv cl b w)) = Vc w" "Vv (snd (pod_srv cl b w)) = Vv w"
    "Vs (snd (pvc_srv cl c w)) = Vs w" "Vp (snd (pvc_srv cl c w)) = Vp w" "Vv (snd (pvc_srv cl c w)) = Vv w"
    "Vs (snd (svc_srv cl d w)) = Vs w" "Vp (snd (svc_srv cl d w)) = Vp w" "Vc (snd (svc_srv cl d w)) = Vc w"
    "Vs (snd (pv_srv cl e w)) = Vs w" "Vp (snd (pv_srv cl e w)) = Vp w" "Vc (snd (pv_srv cl e w)) = Vc w" "Vv (snd (pv_srv cl e w)) = Vv w"
    "Vs (snd (node_srv cl f w)) = Vs w" "Vp (snd (node_srv cl f w)) = Vp w" "Vc (snd (node_srv cl f w)) = Vc w"
    "Vv (snd (node_srv cl f w)) = Vv w"
    "Vs (snd (clock cl w)) = Vs w" "Vp (snd (clock cl w)) = Vp w" "Vc (snd (clock cl w)) = Vc w" "Vv (snd (clock cl w)) = Vv w"
  using assms unfolding separate_def Let_def by simp_all

text \<open>How a view may differ from an earlier one: not outside the namespace; \<open>P\<close> says which kinds of change there are inside.\<close>

definition evolved :: "string \<Rightarrow> ('o \<Rightarrow> ObjectMeta) \<Rightarrow> 'o permit \<Rightarrow> (NamespacedName \<Rightarrow> 'o option) \<Rightarrow> (NamespacedName \<Rightarrow> 'o option) \<Rightarrow> bool" where
  "evolved ns meta P V V' \<longleftrightarrow> placed meta V' \<and> (\<forall>k. nn_Namespace k \<noteq> ns \<longrightarrow> V' k = V k) \<and>
     (may_create P = (\<lambda>_. False) \<longrightarrow> (\<forall>k. V k = None \<longrightarrow> V' k = None)) \<and>
     (\<not> may_update P \<and> \<not> may_delete P \<longrightarrow> V \<subseteq>\<^sub>m V')"

lemma evolved_refl: "placed meta V \<Longrightarrow> evolved ns meta P V V"
  by (simp add: evolved_def)

lemma alters_placed:
  assumes "alters meta x y V V'" "placed meta V"
  shows "placed meta V'"
  unfolding placed_def
proof (intro allI impI)
  fix k z assume z: "V' k = Some z"
  show "Namespace (meta z) = nn_Namespace k"
    using assms z by (cases "k = key_of (meta x)") (auto simp: alters_def placed_def)
qed

lemma alters_other: "alters meta x y V V' \<Longrightarrow> k \<noteq> key_of (meta x) \<Longrightarrow> V' k = V k"
  by (simp add: alters_def)

lemma alters_absent: "alters meta x y V V' \<Longrightarrow> (V (key_of (meta x)) = None \<Longrightarrow> V' = V) \<Longrightarrow> V k = None \<Longrightarrow> V' k = None"
  by (cases "k = key_of (meta x)") (auto simp: alters_def)

lemma alters_present:
  assumes "alters meta x y V V'" "V (key_of (meta x)) \<noteq> None \<Longrightarrow> V' = V"
  shows "V \<subseteq>\<^sub>m V'"
proof (cases "V (key_of (meta x))")
  case None
  then have "V' k = V k" if "V k \<noteq> None" for k using alters_other [OF assms(1), of k] that by metis
  then show ?thesis by (simp add: map_le_def domIff)
next
  case (Some z)
  then have "V' = V" by (intro assms(2)) simp
  then show ?thesis by simp
qed

lemma evolved_alters:
  assumes "evolved ns meta P V0 V" "alters meta x y V V'" "Namespace (meta x) = ns"
    "may_create P = (\<lambda>_. False) \<Longrightarrow> V (key_of (meta x)) = None \<Longrightarrow> V' = V"
    "\<not> may_update P \<Longrightarrow> \<not> may_delete P \<Longrightarrow> V (key_of (meta x)) \<noteq> None \<Longrightarrow> V' = V"
  shows "evolved ns meta P V0 V'"
proof -
  have "V' k = V k" if "nn_Namespace k \<noteq> ns" for k using alters_other [OF assms(2), of k] assms(3) that by force
  moreover have "V' k = None" if "may_create P = (\<lambda>_. False)" "V k = None" for k
    using alters_absent [OF assms(2) assms(4)] that by blast
  moreover have "V \<subseteq>\<^sub>m V'" if "\<not> may_update P \<and> \<not> may_delete P"
    using alters_present [OF assms(2) assms(5)] that by blast
  ultimately show ?thesis
    using assms(1) alters_placed [OF assms(2)] unfolding evolved_def by (auto intro: map_le_trans)
qed

lemma namespaced_evolved:
  assumes "namespaced meta f V" "permitted (Some ns) meta P r" "evolved ns meta P V0 (V w)"
  shows "evolved ns meta P V0 (V (snd (f r w)))"
proof (cases r)
  case (Get nn)
  have "reads f V" using assms(1) by (simp add: namespaced_def)
  then show ?thesis using assms(3) by (simp add: Get reads_Get)
next
  case (Create x)
  have "alters meta x (fst (f r w)) (V w) (V (snd (f r w)))" "V w (key_of (meta x)) \<noteq> None \<Longrightarrow> V (snd (f r w)) = V w"
    using assms(1) unfolding namespaced_def Create by blast+
  note a = this
  show ?thesis
    by (rule evolved_alters [OF assms(3) a(1)]) (use assms(2) a(2) in \<open>simp_all add: Create\<close>)
next
  case (Update x)
  have "alters meta x (fst (f r w)) (V w) (V (snd (f r w)))" "V w (key_of (meta x)) = None \<Longrightarrow> V (snd (f r w)) = V w"
    using assms(1) unfolding namespaced_def Update by blast+
  note a = this
  show ?thesis
    by (rule evolved_alters [OF assms(3) a(1)]) (use assms(2) a(2) in \<open>simp_all add: Update\<close>)
next
  case (Delete x opts)
  have "alters meta x (fst (f r w)) (V w) (V (snd (f r w)))" "V w (key_of (meta x)) = None \<Longrightarrow> V (snd (f r w)) = V w"
    using assms(1) unfolding namespaced_def Delete by blast+
  note a = this
  show ?thesis
    by (rule evolved_alters [OF assms(3) a(1)]) (use assms(2) a(2) in \<open>simp_all add: Delete\<close>)
qed

lemma namespaced_answer:
  assumes "namespaced meta f V" "permitted (Some ns) meta P r" "placed meta (V w)"
  shows "rely (scope (Some ns) meta P) r (fst (f r w))"
proof (cases r)
  case (Get nn)
  have "reads f V" using assms(1) by (simp add: namespaced_def)
  then show ?thesis using assms(2,3) by (auto simp: Get reads_Get placed_def split: option.split)
next
  case (Create x)
  have "alters meta x (fst (f r w)) (V w) (V (snd (f r w)))" using assms(1) unfolding namespaced_def Create by blast
  then show ?thesis using assms(2) by (cases "fst (f r w)") (simp_all add: Create alters_def)
next
  case (Update x)
  have "alters meta x (fst (f r w)) (V w) (V (snd (f r w)))" using assms(1) unfolding namespaced_def Update by blast
  then show ?thesis using assms(2) by (cases "fst (f r w)") (simp_all add: Update alters_def)
next
  case (Delete x opts)
  have "alters meta x (fst (f r w)) (V w) (V (snd (f r w)))" using assms(1) unfolding namespaced_def Delete by blast
  then show ?thesis using assms(2) by (cases "fst (f r w)") (simp_all add: Delete alters_def)
qed

text \<open>The four views together, as the property states them and as the rule for runs needs them.\<close>

definition isolated :: "('w \<Rightarrow> NamespacedName \<Rightarrow> StatefulPod option) \<Rightarrow> ('w \<Rightarrow> NamespacedName \<Rightarrow> Pod option) \<Rightarrow>
    ('w \<Rightarrow> NamespacedName \<Rightarrow> PVC option) \<Rightarrow> ('w \<Rightarrow> NamespacedName \<Rightarrow> Service option) \<Rightarrow> string \<Rightarrow> 'w \<Rightarrow> 'w \<Rightarrow> bool" where
  "isolated Vs Vp Vc Vv ns w0 w \<longleftrightarrow>
     evolved ns sp_Meta sp_permit (Vs w0) (Vs w) \<and>
     evolved ns pod_Meta \<lparr>may_create = (\<lambda>p. owned UNIV (pod_Meta p)), may_update = True, may_delete = True\<rparr> (Vp w0) (Vp w) \<and>
     evolved ns pvc_Meta \<lparr>may_create = (\<lambda>c. owned UNIV (pvc_Meta c)), may_update = False, may_delete = True\<rparr> (Vc w0) (Vc w) \<and>
     evolved ns svc_Meta \<lparr>may_create = (\<lambda>v. owned UNIV (svc_Meta v)), may_update = False, may_delete = False\<rparr> (Vv w0) (Vv w)"

definition namespaces :: "'w client \<Rightarrow> ('w \<Rightarrow> NamespacedName \<Rightarrow> StatefulPod option) \<Rightarrow> ('w \<Rightarrow> NamespacedName \<Rightarrow> Pod option) \<Rightarrow>
    ('w \<Rightarrow> NamespacedName \<Rightarrow> PVC option) \<Rightarrow> ('w \<Rightarrow> NamespacedName \<Rightarrow> Service option) \<Rightarrow> bool" where
  "namespaces cl Vs Vp Vc Vv \<longleftrightarrow> namespaced sp_Meta (sp_srv cl) Vs \<and> namespaced pod_Meta (pod_srv cl) Vp \<and>
     namespaced pvc_Meta (pvc_srv cl) Vc \<and> namespaced svc_Meta (svc_srv cl) Vv \<and> separate cl Vs Vp Vc Vv"

lemma footprint_upheld:
  assumes "namespaces cl Vs Vp Vc Vv"
  shows "upheld cl (footprint (Some ns) UNIV) (isolated Vs Vp Vc Vv ns w0)"
proof -
  have n: "namespaced sp_Meta (sp_srv cl) Vs" "namespaced pod_Meta (pod_srv cl) Vp" "namespaced pvc_Meta (pvc_srv cl) Vc"
    "namespaced svc_Meta (svc_srv cl) Vv" and "separate cl Vs Vp Vc Vv" using assms by (simp_all add: namespaces_def)
  note sep = separateD [OF this(5)]
  have pl: "placed sp_Meta (Vs w)" "placed pod_Meta (Vp w)" "placed pvc_Meta (Vc w)" "placed svc_Meta (Vv w)"
    if "isolated Vs Vp Vc Vv ns w0 w" for w using that by (simp_all add: isolated_def evolved_def)
  show ?thesis
    unfolding upheld_def upholds_def footprint_sides
    by (intro conjI allI impI)
      (simp_all add: isolated_def sep namespaced_evolved [OF n(1)] namespaced_evolved [OF n(2)] namespaced_evolved [OF n(3)]
        namespaced_evolved [OF n(4)] namespaced_answer [OF n(1) _ pl(1)] namespaced_answer [OF n(2) _ pl(2)]
        namespaced_answer [OF n(3) _ pl(3)] namespaced_answer [OF n(4) _ pl(4)])
qed


text \<open>C14: a call leaves the rest of the cluster alone. Take a server whose objects lie in the namespace of their key, on which a
  request changes at most the object it names. After a call of \<open>Reconcile\<close> for a name of the namespace \<open>ns\<close>, whatever state the
  cluster is in and however the call ends, every pod, claim, service and StatefulPod of another namespace is as it was; no
  StatefulPod has appeared anywhere, and every service there was is still there, unchanged.\<close>

theorem namespace_isolation:
  assumes "namespaces cl Vs Vp Vc Vv" "placed sp_Meta (Vs w)" "placed pod_Meta (Vp w)" "placed pvc_Meta (Vc w)" "placed svc_Meta (Vv w)"
    "w' = snd (run cl (Reconcile env fuel req) w)"
  shows "(\<forall>k. nn_Namespace k \<noteq> nn_Namespace req \<longrightarrow> Vs w' k = Vs w k \<and> Vp w' k = Vp w k \<and> Vc w' k = Vc w k \<and> Vv w' k = Vv w k) \<and>
    dom (Vs w') \<subseteq> dom (Vs w) \<and> Vv w \<subseteq>\<^sub>m Vv w'"
proof -
  have "isolated Vs Vp Vc Vv (nn_Namespace req) w w" using assms(2-5) by (simp add: isolated_def evolved_refl)
  then have "isolated Vs Vp Vc Vv (nn_Namespace req) w w'"
    using run_upheld [OF footprint_upheld [OF assms(1)] scoped_Reconcile [of "Some (nn_Namespace req)" req UNIV env fuel]] assms(6) by simp
  then show ?thesis by (auto simp: isolated_def evolved_def)
qed

lemma mem_separate: "separate mem_client sps pods claims svcs"
  unfolding separate_def by (auto simp: mem_client_def split: prod.split)

lemma mem_namespaces: "namespaces mem_client sps pods claims svcs"
proof -
  have "namespaced sp_Meta (sp_srv mem_client) sps" "namespaced pod_Meta (pod_srv mem_client) pods"
    "namespaced pvc_Meta (pvc_srv mem_client) claims" "namespaced svc_Meta (svc_srv mem_client) svcs"
    unfolding namespaced_def by (auto simp: alters_def mem_client_def serve_obj_def Let_def reads_def split: option.splits)
  then show ?thesis by (simp add: namespaces_def mem_separate)
qed

theorem namespace_isolation_witness:
  "pods (snd (run mem_client (Reconcile demo_env 2 (NN ''ns'' ''db'')) (empty_world\<lparr>sps := (\<lambda>_. None)(NN ''ns'' ''db'' \<mapsto> demo_sp 1 [])\<rparr>)))
     (NN ''other'' ''db-0'') = None"
proof -
  define w where "w = empty_world\<lparr>sps := (\<lambda>_. None)(NN ''ns'' ''db'' \<mapsto> demo_sp 1 [])\<rparr>"
  have "placed sp_Meta (sps w)" "placed pod_Meta (pods w)" "placed pvc_Meta (claims w)" "placed svc_Meta (svcs w)"
    by (simp_all add: placed_def w_def empty_world_def demo_sp_def demo_meta_def ObjectMeta_zero_def)
  from namespace_isolation [OF mem_namespaces this refl, of "NN ''ns'' ''db''" demo_env 2]
  have "pods (snd (run mem_client (Reconcile demo_env 2 (NN ''ns'' ''db'')) w)) (NN ''other'' ''db-0'') = pods w (NN ''other'' ''db-0'')"
    by simp
  then show ?thesis unfolding w_def by (simp add: empty_world_def)
qed


end
