(* ===== verification/Rounds.thy ===== *)
theory Rounds
  imports EventFlow Isolation
begin

text \<open>
  One round of the program together with the rest of the cluster: the StatefulPod is reconciled, the kubelet starts the pod that
  was created and the volume controller binds the claim, and their events are reconciled. A round settles one ordinal, be it new
  (the theory Convergence) or lost (the theory SelfHealing): both begin with a step of \<open>CoreCtrl\<close> that makes the pod
  of an ordinal and leaves its entry unsettled, and end the same way.
\<close>

section \<open>The rest of the cluster\<close>

text \<open>
  \<open>K nn\<close> is what the scheduler and the kubelet do for the pod \<open>nn\<close>: if it is there, it gets to run on a ready node with
  its metadata unchanged; other pods, the claims and the StatefulPods stay as they are.
\<close>

definition kubelet :: "'w client \<Rightarrow> Env \<Rightarrow> ('w \<Rightarrow> NamespacedName \<Rightarrow> StatefulPod option) \<Rightarrow> ('w \<Rightarrow> NamespacedName \<Rightarrow> Pod option) \<Rightarrow>
    ('w \<Rightarrow> NamespacedName \<Rightarrow> PVC option) \<Rightarrow> (NamespacedName \<Rightarrow> 'w \<Rightarrow> 'w) \<Rightarrow> bool" where
  "kubelet cl env Vs Vp Vc K \<longleftrightarrow> (\<forall>nn w. Vs (K nn w) = Vs w \<and> Vc (K nn w) = Vc w \<and> (\<forall>m. m \<noteq> nn \<longrightarrow> Vp (K nn w) m = Vp w m) \<and>
     (\<forall>pod. Vp w nn = Some pod \<longrightarrow> (\<exists>pod'. Vp (K nn w) nn = Some pod' \<and> pod_Meta pod' = pod_Meta pod \<and>
        PodCtrl_isPodRunning pod' \<and>
        run cl (IsNodeReady env (NN '''' (pod_NodeName (pod_Spec pod')))) (K nn w) = (Done True, K nn w))))"

lemma kubeletD:
  assumes "kubelet cl env Vs Vp Vc K"
  shows "Vs (K nn w) = Vs w" "Vc (K nn w) = Vc w" "m \<noteq> nn \<Longrightarrow> Vp (K nn w) m = Vp w m"
  using assms by (simp_all add: kubelet_def)

lemma kubelet_starts:
  assumes "kubelet cl env Vs Vp Vc K" "Vp w nn = Some pod"
  obtains pod' where "Vp (K nn w) nn = Some pod'" "pod_Meta pod' = pod_Meta pod" "PodCtrl_isPodRunning pod'"
    "run cl (IsNodeReady env (NN '''' (pod_NodeName (pod_Spec pod')))) (K nn w) = (Done True, K nn w)"
  using assms unfolding kubelet_def by blast

text \<open>\<open>B nn\<close> is what the volume controller does for the claim \<open>nn\<close>: if it is there, it gets bound.\<close>

definition provisioner :: "('w \<Rightarrow> NamespacedName \<Rightarrow> StatefulPod option) \<Rightarrow> ('w \<Rightarrow> NamespacedName \<Rightarrow> Pod option) \<Rightarrow>
    ('w \<Rightarrow> NamespacedName \<Rightarrow> PVC option) \<Rightarrow> (NamespacedName \<Rightarrow> 'w \<Rightarrow> 'w) \<Rightarrow> bool" where
  "provisioner Vs Vp Vc B \<longleftrightarrow> (\<forall>nn w. Vs (B nn w) = Vs w \<and> Vp (B nn w) = Vp w \<and> (\<forall>m. m \<noteq> nn \<longrightarrow> Vc (B nn w) m = Vc w m) \<and>
     (\<forall>pvc. Vc w nn = Some pvc \<longrightarrow> (\<exists>pvc'. Vc (B nn w) nn = Some pvc' \<and> pvc_Meta pvc' = pvc_Meta pvc \<and> pvc_Phase pvc' = ''Bound'')))"

lemma provisionerD:
  assumes "provisioner Vs Vp Vc B"
  shows "Vs (B nn w) = Vs w" "Vp (B nn w) = Vp w" "m \<noteq> nn \<Longrightarrow> Vc (B nn w) m = Vc w m"
  using assms by (simp_all add: provisioner_def)

lemma provisioner_binds:
  assumes "provisioner Vs Vp Vc B" "Vc w nn = Some pvc"
  obtains pvc' where "Vc (B nn w) nn = Some pvc'" "pvc_Meta pvc' = pvc_Meta pvc" "pvc_Phase pvc' = ''Bound''"
  using assms unfolding provisioner_def by blast

section \<open>Names\<close>

lemma same_shape_names:
  assumes "same_shape sp0 sp"
  shows "sp_key sp = sp_key sp0" "pod_key sp i = pod_key sp0 i" "claim_key sp i = claim_key sp0 i" "claim_left sp = claim_left sp0"
    "Size (Spec sp) = Size (Spec sp0)" "PVCTemplate (Spec sp) = PVCTemplate (Spec sp0)" "claim_volume (Spec sp) = claim_volume (Spec sp0)"
  using assms by (auto simp: same_shape_def claim_left_def PodService_GetName_def fun_eq_iff claim_volume_name)

lemma GetName_ordinal: "PodService_GetName sp (int i) = PodService_GetName sp (int j) \<longleftrightarrow> i = j"
  using Itoa_inj [of "int i" "int j"] by (auto simp: PodService_GetName_def)

lemma GetName_not_key: "NN (Namespace (sp_Meta sp)) (PodService_GetName sp i) \<noteq> sp_key sp"
  by (simp add: PodService_GetName_def)

lemma claim_name_shape:
  assumes "claim_volume (Spec sp)"
  obtains v where "v \<noteq> ''''" "claim_name sp = (\<lambda>i. v @ ''-'' @ Name (sp_Meta sp) @ ''-'' @ Itoa i)"
proof -
  obtain u us src where v: "Volumes (PodTemplate (Spec sp)) = u # us" "PersistentVolumeClaim u = Some src"
    using assms by (auto simp: claim_volume_def split: list.splits)
  show thesis by (rule that [of "if ClaimName src = '''' then ''data'' else ClaimName src"]) (auto simp: claim_name_def v fun_eq_iff)
qed

lemma claim_name_ordinal: "claim_volume (Spec sp) \<Longrightarrow> claim_name sp (int i) = claim_name sp (int j) \<longleftrightarrow> i = j"
  using Itoa_inj [of "int i" "int j"] by (auto elim!: claim_name_shape)

lemma claim_name_not_key:
  assumes "claim_volume (Spec sp)"
  shows "claim_name sp i \<noteq> Name (sp_Meta sp)"
proof (rule claim_name_shape [OF assms])
  fix v assume v: "v \<noteq> ''''" "claim_name sp = (\<lambda>i. v @ ''-'' @ Name (sp_Meta sp) @ ''-'' @ Itoa i)"
  show ?thesis
  proof
    assume "claim_name sp i = Name (sp_Meta sp)"
    then have "length (claim_name sp i) = length (Name (sp_Meta sp))" by simp
    then show False by (simp add: v(2))
  qed
qed

text \<open>No pod of a StatefulPod has the name of one of its claims.\<close>

lemma pod_not_claim:
  assumes "claim_volume (Spec sp)"
  shows "PodService_GetName sp (int i) \<noteq> claim_name sp (int j)"
proof (rule claim_name_shape [OF assms])
  fix v assume v: "v \<noteq> ''''" "claim_name sp = (\<lambda>i. v @ ''-'' @ Name (sp_Meta sp) @ ''-'' @ Itoa i)"
  show ?thesis
  proof
    assume "PodService_GetName sp (int i) = claim_name sp (int j)"
    then have "Name (sp_Meta sp) @ ''-'' @ Itoa (int i) = (v @ ''-'' @ Name (sp_Meta sp)) @ ''-'' @ Itoa (int j)"
      by (simp add: PodService_GetName_def v(2))
    from append_dash_digits [OF this] have "Name (sp_Meta sp) = v @ ''-'' @ Name (sp_Meta sp)" by (simp add: Itoa_no_dash)
    then have "length (Name (sp_Meta sp)) = length (v @ ''-'' @ Name (sp_Meta sp))" by simp
    then show False by simp
  qed
qed

section \<open>Services and the whole host\<close>

definition services :: "'w client \<Rightarrow> ('w \<Rightarrow> NamespacedName \<Rightarrow> StatefulPod option) \<Rightarrow> ('w \<Rightarrow> NamespacedName \<Rightarrow> Pod option) \<Rightarrow>
    ('w \<Rightarrow> NamespacedName \<Rightarrow> PVC option) \<Rightarrow> ('w \<Rightarrow> NamespacedName \<Rightarrow> Service option) \<Rightarrow> bool" where
  "services cl Vs Vp Vc Vv \<longleftrightarrow> reads (svc_srv cl) Vv \<and> accepts svc_Meta (svc_srv cl) Vv \<and>
     (\<forall>x w k. Vv w k \<noteq> None \<longrightarrow> Vv (snd (svc_srv cl (Create x) w)) k \<noteq> None) \<and> separate cl Vs Vp Vc Vv"

lemma service_stays:
  assumes "services cl Vs Vp Vc Vv" "Vv w k \<noteq> None"
  shows "Vv (snd (run cl (Reconcile env fuel req) w)) k \<noteq> None"
proof -
  have s: "reads (svc_srv cl) Vv" "\<And>x w. Vv w k \<noteq> None \<Longrightarrow> Vv (snd (svc_srv cl (Create x) w)) k \<noteq> None" "separate cl Vs Vp Vc Vv"
    using assms(1) by (auto simp: services_def)
  note sep = separateD [OF s(3)]
  have "Vv (snd (svc_srv cl r w)) k \<noteq> None"
    if "Vv w k \<noteq> None" "permitted None svc_Meta \<lparr>may_create = P, may_update = False, may_delete = False\<rparr> r" for r w P
    using that s(2) by (cases r) (simp_all add: reads_Get [OF s(1)])
  then have "upheld cl (footprint None UNIV) (\<lambda>w. Vv w k \<noteq> None)"
    unfolding upheld_def upholds_def footprint_sides by (simp add: sep)
  from run_upheld [OF this scoped_Reconcile assms(2)] show ?thesis by simp
qed

text \<open>What the host of a StatefulPod consists of: the server, the kubelet and the volume controller.\<close>

definition hosted :: "'w client \<Rightarrow> Env \<Rightarrow> ('w \<Rightarrow> NamespacedName \<Rightarrow> StatefulPod option) \<Rightarrow> ('w \<Rightarrow> NamespacedName \<Rightarrow> Pod option) \<Rightarrow>
    ('w \<Rightarrow> NamespacedName \<Rightarrow> PVC option) \<Rightarrow> ('w \<Rightarrow> NamespacedName \<Rightarrow> Service option) \<Rightarrow> (NamespacedName \<Rightarrow> 'w \<Rightarrow> 'w) \<Rightarrow>
    (NamespacedName \<Rightarrow> 'w \<Rightarrow> 'w) \<Rightarrow> bool" where
  "hosted cl env Vs Vp Vc Vv K B \<longleftrightarrow> cooperative cl Vs Vp Vc \<and> services cl Vs Vp Vc Vv \<and> kubelet cl env Vs Vp Vc K \<and>
     provisioner Vs Vp Vc B \<and> (\<forall>nn w. Vv (K nn w) = Vv w \<and> Vv (B nn w) = Vv w)"

lemma hostedD:
  assumes "hosted cl env Vs Vp Vc Vv K B"
  shows "cooperative cl Vs Vp Vc" "services cl Vs Vp Vc Vv" "kubelet cl env Vs Vp Vc K" "provisioner Vs Vp Vc B"
    "Vv (K nn w) = Vv w" "Vv (B nn w) = Vv w" "reads (svc_srv cl) Vv"
  using assms by (simp_all add: hosted_def services_def)

section \<open>Rounds\<close>

text \<open>
  The part of a round after the StatefulPod was reconciled: the kubelet starts the pod of the ordinal, the event of that pod is
  handled, and if there are claims the ordinal's claim is bound and its event handled.
\<close>

definition settle :: "'w client \<Rightarrow> Env \<Rightarrow> nat \<Rightarrow> (NamespacedName \<Rightarrow> 'w \<Rightarrow> 'w) \<Rightarrow> (NamespacedName \<Rightarrow> 'w \<Rightarrow> 'w) \<Rightarrow> StatefulPod \<Rightarrow> nat \<Rightarrow>
    'w \<Rightarrow> 'w" where
  "settle cl env fuel K B sp i w =
     (let w1 = snd (run cl (Reconcile env fuel (pod_key sp i)) (K (pod_key sp i) w))
      in if claims_wanted sp then snd (run cl (Reconcile env fuel (claim_key sp i)) (B (claim_key sp i) w1)) else w1)"

definition one_round :: "'w client \<Rightarrow> Env \<Rightarrow> nat \<Rightarrow> (NamespacedName \<Rightarrow> 'w \<Rightarrow> 'w) \<Rightarrow> (NamespacedName \<Rightarrow> 'w \<Rightarrow> 'w) \<Rightarrow> StatefulPod \<Rightarrow> nat \<Rightarrow>
    'w \<Rightarrow> 'w" where
  "one_round cl env fuel K B sp i w = settle cl env fuel K B sp i (snd (run cl (Reconcile env fuel (sp_key sp)) w))"

text \<open>
  The states between rounds. The status has \<open>n\<close> entries, all settled; the ordinals in \<open>X\<close> have no pod, the others have one of the StatefulPod's
  own that runs, and if there are to be claims the others have a bound claim, and those in \<open>X\<close> have none or, below \<open>n\<close>, the one they
  had. No object of another kind has one of the names, and the service is there if there is to be one.
\<close>

definition running_pod :: "('w \<Rightarrow> NamespacedName \<Rightarrow> Pod option) \<Rightarrow> StatefulPod \<Rightarrow> nat \<Rightarrow> 'w \<Rightarrow> bool" where
  "running_pod Vp sp i w \<longleftrightarrow> (\<exists>pod. Vp w (pod_key sp i) = Some pod \<and> child sp (PodService_GetName sp (int i)) (int i) (pod_Meta pod) \<and>
     PodCtrl_isPodRunning pod)"

definition own_claim :: "('w \<Rightarrow> NamespacedName \<Rightarrow> PVC option) \<Rightarrow> StatefulPod \<Rightarrow> nat \<Rightarrow> bool \<Rightarrow> 'w \<Rightarrow> bool" where
  "own_claim Vc sp i bound w \<longleftrightarrow> (\<exists>pvc. Vc w (claim_key sp i) = Some pvc \<and> child sp (claim_name sp (int i)) (int i) (pvc_Meta pvc) \<and>
     (bound \<longrightarrow> pvc_Phase pvc = ''Bound''))"

definition ordinal_ok :: "('w \<Rightarrow> NamespacedName \<Rightarrow> Pod option) \<Rightarrow> ('w \<Rightarrow> NamespacedName \<Rightarrow> PVC option) \<Rightarrow> StatefulPod \<Rightarrow> nat \<Rightarrow> nat set \<Rightarrow>
    nat \<Rightarrow> 'w \<Rightarrow> bool" where
  "ordinal_ok Vp Vc sp n X i w \<longleftrightarrow>
     (if i \<in> X then Vp w (pod_key sp i) = None else i < n \<longrightarrow> running_pod Vp sp i w) \<and>
     (claims_wanted sp \<longrightarrow> (if i \<in> X then Vc w (claim_key sp i) = None \<or> i < n \<and> own_claim Vc sp i True w
        else i < n \<longrightarrow> own_claim Vc sp i True w))"

definition names_clear :: "('w \<Rightarrow> NamespacedName \<Rightarrow> StatefulPod option) \<Rightarrow> ('w \<Rightarrow> NamespacedName \<Rightarrow> Pod option) \<Rightarrow> StatefulPod \<Rightarrow> 'w \<Rightarrow> bool" where
  "names_clear Vs Vp sp w \<longleftrightarrow> (\<forall>i. Vs w (pod_key sp i) = None \<and>
     (claims_wanted sp \<longrightarrow> Vs w (claim_key sp i) = None \<and> Vp w (claim_key sp i) = None))"

definition service_ready :: "('w \<Rightarrow> NamespacedName \<Rightarrow> Service option) \<Rightarrow> StatefulPod \<Rightarrow> 'w \<Rightarrow> bool" where
  "service_ready Vv sp w \<longleftrightarrow> (ServiceTemplate (Spec sp) \<noteq> None \<longrightarrow> Vv w (svc_key sp) \<noteq> None)"

definition entries :: "StatefulPod \<Rightarrow> nat \<Rightarrow> StatefulPod \<Rightarrow> bool" where
  "entries sp0 n sp \<longleftrightarrow> same_shape sp0 sp \<and> wf_sp sp \<and> length (pods_of sp) = n \<and>
     DeletionTimestamp (sp_Meta sp) = DeletionTimestamp (sp_Meta sp0) \<and>
     (\<forall>i < n. PodName (pods_of sp ! i) = PodService_GetName sp0 (int i))"

abbreviation resting :: "StatefulPod \<Rightarrow> PVCPhase" where
  "resting sp \<equiv> if claims_wanted sp then ''Bound'' else ''''"

definition entry_settled :: "StatefulPod \<Rightarrow> nat \<Rightarrow> StatefulPod \<Rightarrow> bool" where
  "entry_settled sp0 i sp \<longleftrightarrow> ps_Status (pods_of sp ! i) = ''Running'' \<and> pvs_Status (pvcs_of sp ! i) = resting sp0"

definition between :: "('w \<Rightarrow> NamespacedName \<Rightarrow> StatefulPod option) \<Rightarrow> ('w \<Rightarrow> NamespacedName \<Rightarrow> Pod option) \<Rightarrow>
    ('w \<Rightarrow> NamespacedName \<Rightarrow> PVC option) \<Rightarrow> ('w \<Rightarrow> NamespacedName \<Rightarrow> Service option) \<Rightarrow> StatefulPod \<Rightarrow> nat \<Rightarrow> nat set \<Rightarrow> 'w \<Rightarrow> bool" where
  "between Vs Vp Vc Vv sp0 n X w \<longleftrightarrow> names_clear Vs Vp sp0 w \<and> service_ready Vv sp0 w \<and>
     (\<exists>sp. Vs w (sp_key sp0) = Some sp \<and> entries sp0 n sp \<and> (\<forall>i < n. entry_settled sp0 i sp)) \<and>
     (\<forall>i. ordinal_ok Vp Vc sp0 n X i w)"

text \<open>
  The states within a round, in which ordinal \<open>i\<close> has its pod and its claim but its entries are not settled: before (\<open>\<not> p\<close>) and after
  (\<open>p\<close>) the event of its pod.
\<close>

definition pod_part :: "('w \<Rightarrow> NamespacedName \<Rightarrow> Pod option) \<Rightarrow> StatefulPod \<Rightarrow> nat \<Rightarrow> bool \<Rightarrow> StatefulPod \<Rightarrow> 'w \<Rightarrow> bool" where
  "pod_part Vp sp0 i p sp w \<longleftrightarrow> (if p then ps_Status (pods_of sp ! i) = ''Running'' \<and> running_pod Vp sp0 i w
     else ps_Status (pods_of sp ! i) \<noteq> ''Running'' \<and>
       (\<exists>pod. Vp w (pod_key sp0 i) = Some pod \<and> child sp0 (PodService_GetName sp0 (int i)) (int i) (pod_Meta pod)))"

definition claim_part :: "('w \<Rightarrow> NamespacedName \<Rightarrow> PVC option) \<Rightarrow> StatefulPod \<Rightarrow> nat \<Rightarrow> StatefulPod \<Rightarrow> 'w \<Rightarrow> bool" where
  "claim_part Vc sp0 i sp w \<longleftrightarrow> (if claims_wanted sp0
     then own_claim Vc sp0 i (pvs_Status (pvcs_of sp ! i) = ''Bound'') w else pvs_Status (pvcs_of sp ! i) = '''')"

definition within_round :: "('w \<Rightarrow> NamespacedName \<Rightarrow> StatefulPod option) \<Rightarrow> ('w \<Rightarrow> NamespacedName \<Rightarrow> Pod option) \<Rightarrow>
    ('w \<Rightarrow> NamespacedName \<Rightarrow> PVC option) \<Rightarrow> ('w \<Rightarrow> NamespacedName \<Rightarrow> Service option) \<Rightarrow> StatefulPod \<Rightarrow> nat \<Rightarrow> nat set \<Rightarrow> nat \<Rightarrow> bool \<Rightarrow>
    'w \<Rightarrow> bool" where
  "within_round Vs Vp Vc Vv sp0 n X i p w \<longleftrightarrow> i < n \<and> i \<notin> X \<and> names_clear Vs Vp sp0 w \<and> service_ready Vv sp0 w \<and>
     (\<exists>sp. Vs w (sp_key sp0) = Some sp \<and> entries sp0 n sp \<and> (\<forall>j < n. j \<noteq> i \<longrightarrow> entry_settled sp0 j sp) \<and>
        pod_part Vp sp0 i p sp w \<and> claim_part Vc sp0 i sp w) \<and>
     (\<forall>j. j \<noteq> i \<longrightarrow> ordinal_ok Vp Vc sp0 n X j w)"


section \<open>What the parts of a round leave alone\<close>

lemma repairable_volume: "repairable sp \<Longrightarrow> claims_wanted sp \<Longrightarrow> claim_volume (Spec sp)"
  by (auto simp: repairable_def)

lemma names_clear_upd:
  assumes "names_clear Vs Vp sp0 w" "claims_wanted sp0 \<Longrightarrow> claim_volume (Spec sp0)" "\<And>m. m \<noteq> sp_key sp0 \<Longrightarrow> Vs w' m = Vs w m"
    "\<And>m. m \<noteq> pod_key sp0 i \<Longrightarrow> Vp w' m = Vp w m"
  shows "names_clear Vs Vp sp0 w'"
  using assms(1,3,4) GetName_not_key [of sp0] claim_name_not_key [OF assms(2)] pod_not_claim [OF assms(2), of i, symmetric]
  by (simp add: names_clear_def)

lemma ordinal_ok_cong:
  assumes "Vp w' (pod_key sp i) = Vp w (pod_key sp i)" "claims_wanted sp \<Longrightarrow> Vc w' (claim_key sp i) = Vc w (claim_key sp i)"
  shows "ordinal_ok Vp Vc sp n X i w' = ordinal_ok Vp Vc sp n X i w"
  using assms by (auto simp: ordinal_ok_def running_pod_def own_claim_def)

lemma entries_shape:
  assumes "entries sp0 n sp" "same_shape sp sp'" "wf_sp sp'" "length (pods_of sp') = n'"
    "DeletionTimestamp (sp_Meta sp') = DeletionTimestamp (sp_Meta sp)"
    "\<And>i. i < n' \<Longrightarrow> PodName (pods_of sp' ! i) = PodService_GetName sp0 (int i)"
  shows "entries sp0 n' sp'"
  using assms same_shape_trans [of sp0 sp sp'] by (simp add: entries_def)

lemma service_ready_key: "same_shape sp0 sp \<Longrightarrow> svc_key sp = svc_key sp0 \<and> ServiceTemplate (Spec sp) = ServiceTemplate (Spec sp0)"
  by (simp add: same_shape_def SetServiceName_def)

lemma service_ready_run:
  assumes "services cl Vs Vp Vc Vv" "service_ready Vv sp0 w"
  shows "service_ready Vv sp0 (snd (run cl (Reconcile env fuel req) w))"
  using service_stays [OF assms(1), of w "svc_key sp0" env fuel req] assms(2) by (auto simp: service_ready_def)

section \<open>The event of the pod\<close>

lemma child_parent:
  assumes "child sp nm (int n) m" "int n < 2 ^ 63"
  shows "NN (Namespace m) (gomap_val (Annotations m) ''parentName'') = sp_key sp" "StringToInt (gomap_val (Annotations m) ''index'') = int n"
  using assms StringToInt_Itoa [of "int n"] by (simp_all add: child_def gomap_val_get)

text \<open>Once the kubelet has got a pod to run, its event settles the entry, or finds it settled.\<close>

lemma pod_event:
  assumes "hosted cl env Vs Vp Vc Vv K B" "2 \<le> fuel" "Vs w (sp_key sp) = Some sp" "wf_sp sp" "Vs w (pod_key sp n) = None"
    "Vp w (pod_key sp n) = Some pod" "child sp (PodService_GetName sp (int n)) (int n) (pod_Meta pod)" "n < length (pods_of sp)"
    "int n < 2 ^ 63" "w' = snd (run cl (Reconcile env fuel (pod_key sp n)) (K (pod_key sp n) w))"
  obtains sp' pod' where "Vs w' = (Vs w)(sp_key sp \<mapsto> sp')" "Vp w' (pod_key sp n) = Some pod'" "PodCtrl_isPodRunning pod'"
    "pod_Meta pod' = pod_Meta pod" "\<forall>m. m \<noteq> pod_key sp n \<longrightarrow> Vp w' m = Vp w m" "Vc w' = Vc w" "same_shape sp sp'" "wf_sp sp'"
    "DeletionTimestamp (sp_Meta sp') = DeletionTimestamp (sp_Meta sp)"
    "pods_of sp' = (if ps_Status (pods_of sp ! n) = ''Running'' then pods_of sp else (pods_of sp)[n := running_entry pod' (pods_of sp ! n)])"
    "pvcs_of sp' = pvcs_of sp" "\<forall>sp0. service_ready Vv sp0 w \<longrightarrow> service_ready Vv sp0 w'"
proof -
  note h = hostedD [OF assms(1)]
  define w1 where "w1 = K (pod_key sp n) w"
  obtain pod' where started: "Vp w1 (pod_key sp n) = Some pod'" "pod_Meta pod' = pod_Meta pod" "PodCtrl_isPodRunning pod'"
    "run cl (IsNodeReady env (NN '''' (pod_NodeName (pod_Spec pod')))) w1 = (Done True, w1)"
    unfolding w1_def by (rule kubelet_starts [OF h(3) assms(6)])
  note k = kubeletD [OF h(3), where nn = "pod_key sp n" and w = w, folded w1_def]
  have par: "NN (Namespace (pod_Meta pod')) (gomap_val (Annotations (pod_Meta pod')) ''parentName'') = sp_key sp" "pod_index pod' = int n"
    "IsZero (DeletionTimestamp (pod_Meta pod'))"
    using child_parent [OF assms(7,9)] assms(7) started(2) by (simp_all add: pod_index_def child_def)
  have prem: "Vs w1 (pod_key sp n) = None"
    "Vs w1 (NN (Namespace (pod_Meta pod')) (gomap_val (Annotations (pod_Meta pod')) ''parentName'')) = Some sp"
    "sp_key sp = NN (Namespace (pod_Meta pod')) (gomap_val (Annotations (pod_Meta pod')) ''parentName'')"
    unfolding par(1) using assms(3,5) k(1) by simp_all
  have ready: "service_ready Vv sp0 w'" if "service_ready Vv sp0 w" for sp0
    unfolding assms(10) by (rule service_ready_run [OF h(2)]) (use that in \<open>simp add: service_ready_def h(5)\<close>)
  show thesis
  proof (cases "ps_Status (pods_of sp ! n) = ''Running''")
    case True
    have "w' = w1"
      unfolding assms(10) w1_def [symmetric] using run_running_again [where Vs = Vs and Vp = Vp and Vc = Vc and w = w1 and sp = sp and pod = pod',
        OF h(1) prem(1) started(1) prem(2) par(2) assms(8) par(3) started(3,4) True] by simp
    with True show thesis using started k assms(3,4) ready by (intro that [of sp pod']) (simp_all add: fun_upd_idem)
  next
    case False
    obtain sp' v where e: "run cl (Reconcile env fuel (pod_key sp n)) w1 = (Done (result0, None), v)" "Vs v = (Vs w1)(sp_key sp \<mapsto> sp')"
      "Vp v = Vp w1" "Status sp' = Status (set_pods ((pods_of sp)[n := running_entry pod' (pods_of sp ! n)]) sp)"
      "Spec sp' = Spec sp" "sp_key sp' = sp_key sp" "Vc v = Vc w1" "Finalizers (sp_Meta sp') = Finalizers (sp_Meta sp)"
      "DeletionTimestamp (sp_Meta sp') = DeletionTimestamp (sp_Meta sp)"
      using run_running_event [where Vs = Vs and Vp = Vp and Vc = Vc and w = w1 and sp = sp and pod = pod',
          OF h(1) prem(1) started(1) prem(2,3) par(2) assms(8) par(3) started(3,4) False assms(2)] by blast
    have w': "w' = v" unfolding assms(10) w1_def [symmetric] by (simp add: e(1))
    have "wf_sp sp'" by (rule settled_pod_entry [OF assms(4,8) _ e(4)]) (simp add: running_entry_def)
    moreover have "same_shape sp sp'" by (rule same_shape_stored [OF e(5,6,8)])
    ultimately show thesis
      using e(2-4,7,9) started k False ready by (intro that [of sp' pod']) (simp_all add: w')
  qed
qed

lemma round_pod:
  assumes "hosted cl env Vs Vp Vc Vv K B" "2 \<le> fuel" "repairable sp0" "int i < 2 ^ 63" "within_round Vs Vp Vc Vv sp0 n X i False w"
  shows "within_round Vs Vp Vc Vv sp0 n X i True (snd (run cl (Reconcile env fuel (pod_key sp0 i)) (K (pod_key sp0 i) w)))"
proof -
  note h = hostedD [OF assms(1)]
  obtain sp where sp: "Vs w (sp_key sp0) = Some sp" and e0: "entries sp0 n sp" and rest: "\<forall>j < n. j \<noteq> i \<longrightarrow> entry_settled sp0 j sp"
    and pp: "pod_part Vp sp0 i False sp w" and cp: "claim_part Vc sp0 i sp w"
    using assms(5) unfolding within_round_def by blast
  have s0: "same_shape sp0 sp" and wf: "wf_sp sp" and i: "i < length (pods_of sp)" "i \<notin> X" and clear: "names_clear Vs Vp sp0 w"
    and ready: "service_ready Vv sp0 w" and others: "\<forall>j. j \<noteq> i \<longrightarrow> ordinal_ok Vp Vc sp0 n X j w"
    using e0 assms(5) by (simp_all add: entries_def within_round_def)
  note nm = same_shape_names [OF s0]
  obtain pod where pod: "Vp w (pod_key sp0 i) = Some pod" "child sp0 (PodService_GetName sp0 (int i)) (int i) (pod_Meta pod)"
    "ps_Status (pods_of sp ! i) \<noteq> ''Running''" using pp by (auto simp: pod_part_def)
  have name: "PodService_GetName sp = PodService_GetName sp0" using nm(1) by (auto simp: PodService_GetName_def fun_eq_iff)
  have ch: "child sp (PodService_GetName sp (int i)) (int i) (pod_Meta pod)" using pod(2) nm(1) by (simp add: child_def name)
  have prem: "Vs w (sp_key sp) = Some sp" "Vs w (pod_key sp i) = None" "Vp w (pod_key sp i) = Some pod"
    using sp pod(1) clear by (simp_all only: nm names_clear_def)
  define w' where "w' = snd (run cl (Reconcile env fuel (pod_key sp0 i)) (K (pod_key sp0 i) w))"
  have at: "w' = snd (run cl (Reconcile env fuel (pod_key sp i)) (K (pod_key sp i) w))" by (simp only: w'_def nm)
  obtain sp' pod' where r: "Vs w' = (Vs w)(sp_key sp \<mapsto> sp')" "Vp w' (pod_key sp i) = Some pod'" "PodCtrl_isPodRunning pod'"
    "pod_Meta pod' = pod_Meta pod" "\<forall>m. m \<noteq> pod_key sp i \<longrightarrow> Vp w' m = Vp w m" "Vc w' = Vc w" "same_shape sp sp'" "wf_sp sp'"
    "DeletionTimestamp (sp_Meta sp') = DeletionTimestamp (sp_Meta sp)"
    "pods_of sp' = (if ps_Status (pods_of sp ! i) = ''Running'' then pods_of sp else (pods_of sp)[i := running_entry pod' (pods_of sp ! i)])"
    "pvcs_of sp' = pvcs_of sp" "\<forall>sp0. service_ready Vv sp0 w \<longrightarrow> service_ready Vv sp0 w'"
    by (rule pod_event [OF assms(1,2) prem(1) wf prem(2,3) ch i(1) assms(4) at])
  have "entries sp0 n sp'"
    by (rule entries_shape [OF e0 r(7,8) _ r(9)])
      (use e0 r(4) pod(2) i(1) in \<open>auto simp: r(10) nth_list_update running_entry_def entries_def child_def\<close>)
  moreover have "\<forall>j < n. j \<noteq> i \<longrightarrow> entry_settled sp0 j sp'" using rest by (simp add: entry_settled_def r(10,11))
  moreover have "pod_part Vp sp0 i True sp' w'"
    using r(2-4) i(1) pod(2,3) by (simp add: pod_part_def running_pod_def r(10) running_entry_def nm)
  moreover have "claim_part Vc sp0 i sp' w'" using cp unfolding claim_part_def own_claim_def r(6,11) .
  moreover have "ordinal_ok Vp Vc sp0 n X j w'" if "j \<noteq> i" for j
    using others that r(5,6) GetName_ordinal [of sp0] ordinal_ok_cong [of Vp w' sp0 j w Vc n X] unfolding nm by simp
  moreover have "service_ready Vv sp0 w'" using r(12) ready by blast
  moreover have "names_clear Vs Vp sp0 w'"
    by (rule names_clear_upd [OF clear repairable_volume [OF assms(3)], of _ i]) (use r(1,5) in \<open>simp_all add: nm\<close>)
  moreover have "Vs w' (sp_key sp0) = Some sp'" using r(1) by (simp add: nm)
  ultimately show ?thesis using assms(5) unfolding w'_def [symmetric] within_round_def by blast
qed


section \<open>The event of the claim\<close>

text \<open>Once a claim is bound, its event settles the entry, or finds it settled.\<close>

lemma claim_event:
  assumes "hosted cl env Vs Vp Vc Vv K B" "2 \<le> fuel" "Vs w (sp_key sp) = Some sp" "wf_sp sp" "Vs w (claim_key sp n) = None"
    "Vp w (claim_key sp n) = None" "Vc w (claim_key sp n) = Some pvc" "child sp (claim_name sp (int n)) (int n) (pvc_Meta pvc)"
    "n < length (pvcs_of sp)" "int n < 2 ^ 63" "w' = snd (run cl (Reconcile env fuel (claim_key sp n)) (B (claim_key sp n) w))"
  obtains sp' pvc' where "Vs w' = (Vs w)(sp_key sp \<mapsto> sp')" "Vc w' (claim_key sp n) = Some pvc'" "pvc_Phase pvc' = ''Bound''"
    "pvc_Meta pvc' = pvc_Meta pvc" "\<forall>m. m \<noteq> claim_key sp n \<longrightarrow> Vc w' m = Vc w m" "Vp w' = Vp w" "same_shape sp sp'" "wf_sp sp'"
    "DeletionTimestamp (sp_Meta sp') = DeletionTimestamp (sp_Meta sp)"
    "pvcs_of sp' = (if pvs_Status (pvcs_of sp ! n) = ''Bound'' then pvcs_of sp else (pvcs_of sp)[n := bound_entry env pvc' (pvcs_of sp ! n)])"
    "pods_of sp' = pods_of sp" "\<forall>sp0. service_ready Vv sp0 w \<longrightarrow> service_ready Vv sp0 w'"
proof -
  note h = hostedD [OF assms(1)]
  define w1 where "w1 = B (claim_key sp n) w"
  obtain pvc' where bound: "Vc w1 (claim_key sp n) = Some pvc'" "pvc_Meta pvc' = pvc_Meta pvc" "pvc_Phase pvc' = ''Bound''"
    unfolding w1_def by (rule provisioner_binds [OF h(4) assms(7)])
  note b = provisionerD [OF h(4), where nn = "claim_key sp n" and w = w, folded w1_def]
  have par: "NN (Namespace (pvc_Meta pvc')) (gomap_val (Annotations (pvc_Meta pvc')) ''parentName'') = sp_key sp" "pvc_index pvc' = int n"
    "IsZero (DeletionTimestamp (pvc_Meta pvc'))"
    using child_parent [OF assms(8,10)] assms(8) bound(2) by (simp_all add: pvc_index_def child_def)
  have prem: "Vs w1 (claim_key sp n) = None" "Vp w1 (claim_key sp n) = None"
    "Vs w1 (NN (Namespace (pvc_Meta pvc')) (gomap_val (Annotations (pvc_Meta pvc')) ''parentName'')) = Some sp"
    "sp_key sp = NN (Namespace (pvc_Meta pvc')) (gomap_val (Annotations (pvc_Meta pvc')) ''parentName'')"
    unfolding par(1) using assms(3,5,6) b(1,2) by simp_all
  have ready: "service_ready Vv sp0 w'" if "service_ready Vv sp0 w" for sp0
    unfolding assms(11) by (rule service_ready_run [OF h(2)]) (use that in \<open>simp add: service_ready_def h(6)\<close>)
  show thesis
  proof (cases "pvs_Status (pvcs_of sp ! n) = ''Bound''")
    case True
    have "w' = w1"
      unfolding assms(11) w1_def [symmetric] using run_bound_again [where Vs = Vs and Vp = Vp and Vc = Vc and w = w1 and sp = sp and pvc = pvc',
        OF h(1) prem(1,2) bound(1) prem(3) par(2) assms(9) par(3) bound(3) True] by simp
    with True show thesis using bound b assms(3,4) ready by (intro that [of sp pvc']) (simp_all add: fun_upd_idem)
  next
    case False
    obtain sp' v where e: "run cl (Reconcile env fuel (claim_key sp n)) w1 = (Done (result0, None), v)"
      "Vs v = (Vs w1)(sp_key sp \<mapsto> sp')" "Vp v = Vp w1" "Vc v = Vc w1"
      "Status sp' = Status (set_pvcs ((pvcs_of sp)[n := bound_entry env pvc' (pvcs_of sp ! n)]) sp)"
      "Spec sp' = Spec sp" "sp_key sp' = sp_key sp" "Finalizers (sp_Meta sp') = Finalizers (sp_Meta sp)"
      "DeletionTimestamp (sp_Meta sp') = DeletionTimestamp (sp_Meta sp)"
      using run_bound_event [where Vs = Vs and Vp = Vp and Vc = Vc and w = w1 and sp = sp and pvc = pvc' and env = env,
          OF h(1) prem(1,2) bound(1) prem(3,4) par(2) assms(9) par(3) bound(3) False assms(2)] by blast
    have w': "w' = v" unfolding assms(11) w1_def [symmetric] by (simp add: e(1))
    have "wf_sp sp'" using wf_status_pvc [OF assms(4,9), of "bound_entry env pvc' (pvcs_of sp ! n)"] e(5) by (simp add: bound_entry_def)
    moreover have "same_shape sp sp'" by (rule same_shape_stored [OF e(6-8)])
    ultimately show thesis
      using e(2-5,9) bound b False ready by (intro that [of sp' pvc']) (simp_all add: w')
  qed
qed

lemma round_claim:
  assumes "hosted cl env Vs Vp Vc Vv K B" "2 \<le> fuel" "repairable sp0" "claims_wanted sp0" "int i < 2 ^ 63"
    "within_round Vs Vp Vc Vv sp0 n X i True w"
  shows "between Vs Vp Vc Vv sp0 n X (snd (run cl (Reconcile env fuel (claim_key sp0 i)) (B (claim_key sp0 i) w)))"
proof -
  obtain sp where sp: "Vs w (sp_key sp0) = Some sp" and e0: "entries sp0 n sp" and rest: "\<forall>j < n. j \<noteq> i \<longrightarrow> entry_settled sp0 j sp"
    and pp: "pod_part Vp sp0 i True sp w" and cp: "claim_part Vc sp0 i sp w"
    using assms(6) unfolding within_round_def by blast
  have s0: "same_shape sp0 sp" and wf: "wf_sp sp" and i: "i < length (pods_of sp)" "i \<notin> X" and clear: "names_clear Vs Vp sp0 w"
    and ready: "service_ready Vv sp0 w" and others: "\<forall>j. j \<noteq> i \<longrightarrow> ordinal_ok Vp Vc sp0 n X j w"
    using e0 assms(6) by (simp_all add: entries_def within_round_def)
  note nm = same_shape_names [OF s0]
  have vol: "claim_volume (Spec sp0)" by (rule repairable_volume [OF assms(3,4)])
  have len: "i < length (pvcs_of sp)" using i(1) wf_status_length [OF wf] by simp
  obtain pvc where pvc: "Vc w (claim_key sp0 i) = Some pvc" "child sp0 (claim_name sp0 (int i)) (int i) (pvc_Meta pvc)"
    using cp assms(4) by (auto simp: claim_part_def own_claim_def)
  have ch: "child sp (claim_name sp (int i)) (int i) (pvc_Meta pvc)" using pvc(2) nm(1) s0 by (simp add: child_def same_shape_def)
  have prem: "Vs w (sp_key sp) = Some sp" "Vs w (claim_key sp i) = None" "Vp w (claim_key sp i) = None" "Vc w (claim_key sp i) = Some pvc"
    using sp pvc(1) clear assms(4) unfolding nm names_clear_def by blast+
  define w' where "w' = snd (run cl (Reconcile env fuel (claim_key sp0 i)) (B (claim_key sp0 i) w))"
  have at: "w' = snd (run cl (Reconcile env fuel (claim_key sp i)) (B (claim_key sp i) w))" by (simp only: w'_def nm)
  obtain sp' pvc' where f: "Vs w' = (Vs w)(sp_key sp \<mapsto> sp')" "Vc w' (claim_key sp i) = Some pvc'" "pvc_Phase pvc' = ''Bound''"
    "pvc_Meta pvc' = pvc_Meta pvc" "\<forall>m. m \<noteq> claim_key sp i \<longrightarrow> Vc w' m = Vc w m" "Vp w' = Vp w" "same_shape sp sp'" "wf_sp sp'"
    "DeletionTimestamp (sp_Meta sp') = DeletionTimestamp (sp_Meta sp)"
    "pvcs_of sp' = (if pvs_Status (pvcs_of sp ! i) = ''Bound'' then pvcs_of sp else (pvcs_of sp)[i := bound_entry env pvc' (pvcs_of sp ! i)])"
    "pods_of sp' = pods_of sp" "\<forall>sp0. service_ready Vv sp0 w \<longrightarrow> service_ready Vv sp0 w'"
    by (rule claim_event [OF assms(1,2) prem(1) wf prem(2-4) ch len assms(5) at])
  have "entry_settled sp0 j sp'" if "j < n" for j
    using that rest pp len assms(4) by (cases "j = i") (auto simp: entry_settled_def pod_part_def f(10,11) bound_entry_def)
  moreover have "entries sp0 n sp'"
    using e0 by (intro entries_shape [OF e0 f(7,8) _ f(9)]) (simp_all add: f(11) entries_def)
  moreover have "ordinal_ok Vp Vc sp0 n X j w'" for j
  proof (cases "j = i")
    case True
    then show ?thesis using pp i(2) pvc(2) f(2-4) by (simp add: ordinal_ok_def own_claim_def running_pod_def pod_part_def f(6) nm)
  next
    case False
    then have "Vc w' (claim_key sp0 j) = Vc w (claim_key sp0 j)" using f(5) claim_name_ordinal [OF vol, of j i] by (simp add: nm)
    then show ?thesis using others False ordinal_ok_cong [of Vp w' sp0 j w Vc n X] f(6) by simp
  qed
  moreover have "service_ready Vv sp0 w'" using f(12) ready by blast
  moreover have "names_clear Vs Vp sp0 w'"
    by (rule names_clear_upd [OF clear vol]) (simp_all add: f(1,6) nm)
  ultimately show ?thesis using f(1) nm(1) unfolding between_def w'_def [symmetric] by auto
qed

lemma round_settle:
  assumes "hosted cl env Vs Vp Vc Vv K B" "2 \<le> fuel" "repairable sp0" "int i < 2 ^ 63" "within_round Vs Vp Vc Vv sp0 n X i False w"
  shows "between Vs Vp Vc Vv sp0 n X (settle cl env fuel K B sp0 i w)"
proof -
  define w1 where "w1 = snd (run cl (Reconcile env fuel (pod_key sp0 i)) (K (pod_key sp0 i) w))"
  have p: "within_round Vs Vp Vc Vv sp0 n X i True w1" unfolding w1_def by (rule round_pod [OF assms])
  show ?thesis
  proof (cases "claims_wanted sp0")
    case True
    then show ?thesis using round_claim [OF assms(1-3) True assms(4) p] by (simp add: settle_def Let_def w1_def)
  next
    case False
    then have eq: "settle cl env fuel K B sp0 i w = w1" by (simp add: settle_def Let_def w1_def)
    obtain sp where "Vs w1 (sp_key sp0) = Some sp" "entries sp0 n sp" "\<forall>j < n. j \<noteq> i \<longrightarrow> entry_settled sp0 j sp"
      "pod_part Vp sp0 i True sp w1" "claim_part Vc sp0 i sp w1" using p unfolding within_round_def by blast
    moreover from this have "entry_settled sp0 j sp" if "j < n" for j
      using False that by (cases "j = i") (auto simp: entry_settled_def pod_part_def claim_part_def)
    moreover have "ordinal_ok Vp Vc sp0 n X j w1" for j
      using p False calculation(4) by (cases "j = i") (auto simp: within_round_def ordinal_ok_def pod_part_def)
    ultimately show ?thesis using p unfolding eq between_def within_round_def by blast
  qed
qed

section \<open>A host in memory\<close>

text \<open>
  A kubelet and a provisioner for the server in memory: a pod is put on the node \<open>n1\<close>, which is ready, and a claim is bound.
\<close>

definition mem_kubelet :: "NamespacedName \<Rightarrow> world \<Rightarrow> world" where
  "mem_kubelet nn w = w\<lparr>pods := (pods w)(nn := map_option (\<lambda>p. p\<lparr>pod_Phase := ''Running'', pod_Conditions := [],
       pod_Spec := (pod_Spec p)\<lparr>pod_NodeName := ''n1''\<rparr>\<rparr>) (pods w nn)),
     nodes := (nodes w)(NN '''' ''n1'' \<mapsto> \<lparr>node_Meta = ObjectMeta_zero\<lparr>Name := ''n1''\<rparr>,
       node_Conditions = [\<lparr>nc_Type = ''Ready'', nc_Status = ''True'', nc_LastTransitionTime = 0\<rparr>]\<rparr>)\<rparr>"

definition mem_provisioner :: "NamespacedName \<Rightarrow> world \<Rightarrow> world" where
  "mem_provisioner nn w = w\<lparr>claims := (claims w)(nn := map_option (\<lambda>c. c\<lparr>pvc_Phase := ''Bound''\<rparr>) (claims w nn))\<rparr>"

lemma kubelet_mem: "kubelet mem_client env sps pods claims mem_kubelet"
  unfolding kubelet_def
  by (auto simp: mem_kubelet_def PodCtrl_isPodRunning_def IsNodeReady_def reads_Get [OF mem_reads(6)] go_index_def)

lemma provisioner_mem: "provisioner sps pods claims mem_provisioner"
  unfolding provisioner_def by (auto simp: mem_provisioner_def)

lemma hosted_mem: "hosted mem_client env sps pods claims svcs mem_kubelet mem_provisioner"
proof -
  have "accepts svc_Meta (svc_srv mem_client) svcs"
    by (auto simp: accepts_def mem_client_def serve_obj_def Let_def)
  moreover have "svcs (snd (svc_srv mem_client (Create x) w)) k \<noteq> None" if "svcs w k \<noteq> None" for x w k
    using that by (auto simp: mem_client_def serve_obj_def Let_def)
  ultimately show ?thesis
    by (simp add: hosted_def services_def mem_cooperative mem_separate kubelet_mem provisioner_mem mem_kubelet_def mem_provisioner_def
        del: not_None_eq)
qed

end
