(* ===== verification/Settling.thy ===== *)
theory Settling
  imports Rounds
begin

text \<open>
  How a round begins, and sequences of rounds: the step of growth that makes the pod of the next ordinal, the step of repair that
  makes the pod of the first lost one, and their iteration until no ordinal below the size is left. The last state is at rest once
  the finalizer is set.
\<close>

section \<open>The step that makes the pod of an ordinal\<close>

lemma put_entries:
  assumes "i \<le> length xs"
  shows "length (put (int i) x xs) = max (length xs) (Suc i)"
    "j < max (length xs) (Suc i) \<Longrightarrow> put (int i) x xs ! j = (if j = i then x else xs ! j)"
  using assms by (auto simp: put_def nth_append nth_list_update max_def)

lemma wf_put:
  assumes "wf_sp sp" "i \<le> length (pods_of sp)" "ps_Index p = Some (int32_of (int i))" "pvs_Index v = Some (int32_of (int i))"
    "pods_of sp' = put (int i) p (pods_of sp)" "pvcs_of sp' = put (int i) v (pvcs_of sp)"
  shows "wf_sp sp'"
  using assms(1,2) unfolding wf_status_def assms(5,6) by (simp add: put_entries assms(3,4))

lemma entries_settled:
  assumes "entries sp0 n sp" "\<forall>i < n. entry_settled sp0 i sp"
  shows "settled target (phases_of sp) = int n"
proof (cases "pods_of sp" rule: rev_cases)
  case Nil
  then show ?thesis using assms(1) by (simp add: settled_def phases_of_def entries_def)
next
  case (snoc ps p)
  then have "n = Suc (length ps)" using assms(1) by (auto simp: entries_def)
  then show ?thesis
    using assms snoc by (subst settled_last [of sp "length ps"]) (auto simp: entries_def entry_settled_def)
qed

lemma claim_entry_index: "pvs_Index (claim_entry sp i) = Some (int32_of i)"
  by (simp add: claim_entry_def split: option.split)

lemma claim_entry_status: "pvs_Status (claim_entry sp i) = (if claims_wanted sp then ''Pending'' else '''')"
  by (simp add: claim_entry_def split: option.split)

text \<open>The claim after the step: the one there was, which was bound, or a new one.\<close>

lemma claim_kept_part:
  assumes "same_shape sp0 sp" "claim_kept sp i (Vc w) (Vc w')" "pvcs_of sp' ! i = kept_entry sp i (Vc w)"
    "has_claim sp0 i (Vc w) \<Longrightarrow> own_claim Vc sp0 i True w"
  shows "claim_part Vc sp0 i sp' w'"
    "k \<noteq> claim_key sp0 i \<Longrightarrow> Vc w' k = Vc w k"
proof -
  note nm = same_shape_names [OF assms(1)] same_shape_claim [OF assms(1)]
  have kept: "claim_kept sp0 i (Vc w) (Vc w')" using assms(2) by (simp add: nm)
  show "claim_part Vc sp0 i sp' w'"
  proof (cases "has_claim sp0 i (Vc w)")
    case True
    then show ?thesis using assms(4) kept by (auto simp: claim_part_def claim_kept_def own_claim_def has_claim_def)
  next
    case False
    then have "pvcs_of sp' ! i = claim_entry sp (int i)" using assms(3) by (simp add: kept_entry_def nm)
    with False show ?thesis using kept
      by (auto simp: claim_part_def claim_kept_def claim_made_def own_claim_def claim_entry_status nm)
  qed
  show "Vc w' k = Vc w k" if "k \<noteq> claim_key sp0 i"
    using that kept by (auto simp: claim_kept_def claim_made_def split: if_splits)
qed


lemma round_begun:
  assumes "services cl Vs Vp Vc Vv" "repairable sp0" "between Vs Vp Vc Vv sp0 n X w" "i \<in> X" "i \<le> n"
    "Vs w (sp_key sp0) = Some sp" "entries sp0 n sp"
    "w' = snd (run cl (Reconcile env fuel (sp_key sp0)) w)" "Vs w' = (Vs w)(sp_key sp \<mapsto> sp')" "Vp w' = (Vp w)(pod_key sp i \<mapsto> pod)"
    "child sp (PodService_GetName sp (int i)) (int i) (pod_Meta pod)" "claim_kept sp i (Vc w) (Vc w')" "same_shape sp sp'"
    "pods_of sp' = put (int i) (fresh_entry sp i) (pods_of sp)" "pvcs_of sp' = put (int i) (kept_entry sp i (Vc w)) (pvcs_of sp)"
    "DeletionTimestamp (sp_Meta sp') = DeletionTimestamp (sp_Meta sp)"
  shows "within_round Vs Vp Vc Vv sp0 (max n (Suc i)) (X - {i}) i False w'"
proof -
  have s0: "same_shape sp0 sp" and wf: "wf_sp sp" and len: "length (pods_of sp) = n" "length (pvcs_of sp) = n"
    and clear: "names_clear Vs Vp sp0 w" and ready: "service_ready Vv sp0 w" and st: "\<forall>j < n. entry_settled sp0 j sp"
    and ord: "\<And>j. ordinal_ok Vp Vc sp0 n X j w"
    using assms(3,6,7) wf_status_length [of "Status sp"] by (auto simp: between_def entries_def)
  note nm = same_shape_names [OF s0]
  have il: "i \<le> length (pods_of sp)" "i \<le> length (pvcs_of sp)" using assms(5) len by simp_all
  note at = put_entries [OF il(1)] put_entries [OF il(2)]
  have ns: "Namespace (sp_Meta sp) = Namespace (sp_Meta sp0)" "Name (sp_Meta sp) = Name (sp_Meta sp0)" using nm(1) by simp_all
  have name: "PodService_GetName sp = PodService_GetName sp0" by (simp add: PodService_GetName_def ns fun_eq_iff)
  have own: "own_claim Vc sp0 i True w \<and> i < n" if "has_claim sp0 i (Vc w)"
    using that ord [of i] assms(4) by (auto simp: ordinal_ok_def has_claim_def)
  have idx: "pvs_Index (kept_entry sp i (Vc w)) = Some (int32_of (int i))"
    using own wf len by (auto simp: kept_entry_def claim_entry_index same_shape_claim(1) [OF s0] wf_status_def)
  have "wf_sp sp'" by (rule wf_put [OF wf il(1) _ idx assms(14,15)]) simp
  then have "entries sp0 (max n (Suc i)) sp'"
    using assms(5,7) by (intro entries_shape [OF assms(7,13) _ _ assms(16)])
      (auto simp: assms(14) at len name entries_def max_def split: if_splits)
  moreover have "pvcs_of sp' ! i = kept_entry sp i (Vc w)" by (simp add: assms(15) at(4))
  note part = claim_kept_part [OF s0 assms(12) this]
  have "claim_part Vc sp0 i sp' w'" using own by (intro part(1)) simp
  moreover have "pod_part Vp sp0 i False sp' w'"
    using assms(11) by (simp add: pod_part_def assms(14) at(2) assms(10) name ns child_def)
  moreover have "\<forall>j < max n (Suc i). j \<noteq> i \<longrightarrow> entry_settled sp0 j sp'"
    using st assms(5) by (auto simp: entry_settled_def assms(14,15) at len max_def split: if_splits)
  moreover have "ordinal_ok Vp Vc sp0 (max n (Suc i)) (X - {i}) j w'" if "j \<noteq> i" for j
  proof -
    have "claim_key sp0 j \<noteq> claim_key sp0 i" if "claims_wanted sp0"
      using \<open>j \<noteq> i\<close> claim_name_ordinal [OF repairable_volume [OF assms(2) that], of j i] by simp
    then have "ordinal_ok Vp Vc sp0 n X j w'"
      using ord [of j] that GetName_ordinal [of sp0 j i] own part(2)
      by (subst ordinal_ok_cong [where w = w]) (auto simp: assms(10) nm)
    then show ?thesis using that assms(5) by (auto simp: ordinal_ok_def max_def split: if_splits)
  qed
  moreover have "service_ready Vv sp0 w'" unfolding assms(8) by (rule service_ready_run [OF assms(1) ready])
  moreover have "names_clear Vs Vp sp0 w'"
    by (rule names_clear_upd [OF clear repairable_volume [OF assms(2)], of _ i]) (simp_all add: assms(9,10) nm)
  moreover have "Vs w' (sp_key sp0) = Some sp'" by (simp add: assms(9) nm)
  ultimately show ?thesis unfolding within_round_def by auto
qed


text \<open>The step of growth.\<close>

lemma round_grow:
  assumes "hosted cl env Vs Vp Vc Vv K B" "2 \<le> fuel" "repairable sp0" "Size (Spec sp0) = Some sz" "int n < int_of_int32 sz"
    "between Vs Vp Vc Vv sp0 n {n..} w"
  shows "within_round Vs Vp Vc Vv sp0 (Suc n) {Suc n..} n False (snd (run cl (Reconcile env fuel (sp_key sp0)) w))"
proof -
  note h = hostedD [OF assms(1)]
  note c = cooperativeD [OF h(1)]
  obtain sp where sp: "Vs w (sp_key sp0) = Some sp" and e0: "entries sp0 n sp" and st: "\<forall>j < n. entry_settled sp0 j sp"
    using assms(6) unfolding between_def by blast
  have s0: "same_shape sp0 sp" and wf: "wf_sp sp" using e0 by (simp_all add: entries_def)
  note nm = same_shape_names [OF s0]
  have ord: "ordinal_ok Vp Vc sp0 n {n..} n w" and ready: "service_ready Vv sp0 w" using assms(6) by (simp_all add: between_def)
  have rep: "repairable sp" by (rule repairable_shape [OF s0 assms(3)])
  have free: "Vp w (pod_key sp n) = None" "claims_wanted sp \<Longrightarrow> Vc w (claim_key sp n) = None"
    using ord by (simp_all add: ordinal_ok_def nm)
  have tmpl: "\<And>t. PVCTemplate (Spec sp) = Some t \<Longrightarrow> claim_volume (Spec sp) \<and> StorageClassName t \<noteq> None \<and> Vc w (claim_key sp n) = None"
    and pv: "PVNames (Spec sp) = []"
    using rep free(2) by (auto simp: repairable_def)
  have svc: "run cl (StatefulPodCtrl_expansionSvc env sp (int n)) w = (Done True, w)"
    using ready service_ready_key [OF s0] by (intro run_expansionSvc [OF h(7)]) (simp add: service_ready_def)
  have now: "Vs w (sp_key sp) = Some sp" "Size (Spec sp) = Some sz" using sp assms(4) nm by simp_all
  obtain sp' pod w' where g: "run cl (StatefulPodCtrl_CoreCtrl env fuel sp) w = (Done (result0, None), w')"
    "Vs w' = (Vs w)(sp_key sp \<mapsto> sp')" "Vp w' = (Vp w)(pod_key sp n \<mapsto> pod)"
    "child sp (PodService_GetName sp (int n)) (int n) (pod_Meta pod)" "claim_made sp (int n) (Vc w) (Vc w')" "same_shape sp sp'"
    "pods_of sp' = put (int n) (fresh_entry sp n) (pods_of sp)" "pvcs_of sp' = put (int n) (claim_entry sp (int n)) (pvcs_of sp)"
    "DeletionTimestamp (sp_Meta sp') = DeletionTimestamp (sp_Meta sp)"
    using run_growth [where env = env, OF h(1) wf now(2) entries_settled [OF e0 st, symmetric] assms(5) svc pv tmpl free(1) now(1) assms(2)] by blast
  have kept: "\<not> has_claim sp n (Vc w)" by (metis free(2) has_claim_def)
  have w': "w' = snd (run cl (Reconcile env fuel (sp_key sp0)) w)"
    by (simp add: run_Reconcile [OF optimistic_reads [OF c(1)] c(2,4)] sp g(1))
  have "within_round Vs Vp Vc Vv sp0 (max n (Suc n)) ({n..} - {n}) n False w'"
    by (rule round_begun [OF h(2) assms(3,6) _ _ sp e0 w' g(2-4) _ g(6,7) _ g(9)])
      (use g(5,8) kept in \<open>simp_all add: claim_kept_def kept_entry_def\<close>)
  moreover have "{n..} - {n} = {Suc n..}" by auto
  ultimately show ?thesis by (simp add: w' max_def)
qed

text \<open>The step of repair, for the first ordinal whose pod is lost.\<close>

definition alive :: "StatefulPod \<Rightarrow> bool" where
  "alive sp \<longleftrightarrow> IsZero (DeletionTimestamp (sp_Meta sp)) \<and> GroupVersion_String \<in> set (Finalizers (sp_Meta sp))"

lemma entries_agree:
  assumes "between Vs Vp Vc Vv sp0 n X w" "entries sp0 n sp" "\<forall>j < n. entry_settled sp0 j sp" "k < n" "k \<notin> X"
  shows "entry_ok (Vp w) (Namespace (sp_Meta sp)) (pods_of sp ! k)"
proof -
  have "ordinal_ok Vp Vc sp0 n X k w" using assms(1) by (simp add: between_def)
  then have "running_pod Vp sp0 k w" using assms(4,5) by (simp add: ordinal_ok_def)
  then show ?thesis using assms(2-4) by (auto simp: running_pod_def entry_ok_def entries_def entry_settled_def same_shape_def)
qed

lemma round_repair:
  assumes "hosted cl env Vs Vp Vc Vv K B" "2 \<le> fuel" "repairable sp0" "Size (Spec sp0) = Some sz" "int n = int_of_int32 sz" "alive sp0"
    "between Vs Vp Vc Vv sp0 n X w" "i \<in> X" "i < n" "\<forall>k < i. k \<notin> X"
  shows "within_round Vs Vp Vc Vv sp0 n (X - {i}) i False (snd (run cl (Reconcile env fuel (sp_key sp0)) w))"
proof -
  note h = hostedD [OF assms(1)]
  note c = cooperativeD [OF h(1)]
  obtain sp where sp: "Vs w (sp_key sp0) = Some sp" and e0: "entries sp0 n sp" and st: "\<forall>j < n. entry_settled sp0 j sp"
    using assms(7) unfolding between_def by blast
  have s0: "same_shape sp0 sp" and wf: "wf_sp sp" and len: "length (pods_of sp) = n" "length (pvcs_of sp) = n"
    using e0 wf_status_length [of "Status sp"] by (simp_all add: entries_def)
  note nm = same_shape_names [OF s0]
  have ord: "ordinal_ok Vp Vc sp0 n X i w" and ready: "service_ready Vv sp0 w" using assms(7) by (simp_all add: between_def)
  have al: "IsZero (DeletionTimestamp (sp_Meta sp))" "GroupVersion_String \<in> set (Finalizers (sp_Meta sp))"
    using assms(6) e0 s0 by (simp_all add: alive_def entries_def same_shape_def del: GroupVersion_String_simp)
  have gone: "Vp w (pod_key sp i) = None" using ord assms(8) by (simp add: ordinal_ok_def nm)
  have name: "PodName (pods_of sp ! i) = PodService_GetName sp (int i)"
    using e0 assms(9) nm(1) by (simp add: entries_def PodService_GetName_def)
  have svc: "i = 0 \<Longrightarrow> ServiceTemplate (Spec sp) \<noteq> None \<Longrightarrow> Vv w (svc_key sp) \<noteq> None"
    using ready service_ready_key [OF s0] by (simp add: service_ready_def)
  have "separate cl Vs Vp Vc Vv" using h(2) by (simp add: services_def)
  note frame = separateD(3) [OF this]
  have pre: "Vs w (sp_key sp) = Some sp" "Size (Spec sp) = Some sz" "i < length (pods_of sp)"
    "settled (int_of_int32 sz) (phases_of sp) = int_of_int32 sz" "\<forall>k < i. entry_ok (Vp w) (Namespace (sp_Meta sp)) (pods_of sp ! k)"
    using sp assms(4,5,9,10) nm len entries_settled [OF e0 st] entries_agree [OF assms(7) e0 st] by simp_all
  obtain sp' pod w' where g: "run cl (StatefulPodCtrl_CoreCtrl env fuel sp) w = (Done (result0, None), w')"
    "Vs w' = (Vs w)(sp_key sp \<mapsto> sp')" "Vp w' = (Vp w)(pod_key sp i \<mapsto> pod)"
    "child sp (PodService_GetName sp (int i)) (int i) (pod_Meta pod)" "claim_kept sp i (Vc w) (Vc w')" "same_shape sp sp'"
    "pods_of sp' = (pods_of sp)[i := fresh_entry sp i]" "pvcs_of sp' = (pvcs_of sp)[i := kept_entry sp i (Vc w)]"
    "DeletionTimestamp (sp_Meta sp') = DeletionTimestamp (sp_Meta sp)"
    by (rule run_repair [where env = env, OF h(1) wf pre(2,4) al pre(3,5) name gone repairable_shape [OF s0 assms(3)] h(7) frame svc pre(1) assms(2)])
  have w': "w' = snd (run cl (Reconcile env fuel (sp_key sp0)) w)"
    by (simp add: run_Reconcile [OF optimistic_reads [OF c(1)] c(2,4)] sp g(1))
  have "within_round Vs Vp Vc Vv sp0 (max n (Suc i)) (X - {i}) i False w'"
    by (rule round_begun [OF h(2) assms(3,7,8) _ sp e0 w' g(2-6) _ _ g(9)]) (use assms(9) len in \<open>simp_all add: g(7,8) put_def\<close>)
  moreover have "max n (Suc i) = n" using assms(9) by simp
  ultimately show ?thesis by (simp add: w')
qed


section \<open>Sequences of rounds\<close>

definition rounds :: "'w client \<Rightarrow> Env \<Rightarrow> nat \<Rightarrow> (NamespacedName \<Rightarrow> 'w \<Rightarrow> 'w) \<Rightarrow> (NamespacedName \<Rightarrow> 'w \<Rightarrow> 'w) \<Rightarrow> StatefulPod \<Rightarrow> nat list \<Rightarrow>
    'w \<Rightarrow> 'w" where
  "rounds cl env fuel K B sp is = fold (one_round cl env fuel K B sp) is"

lemma one_round_settles:
  assumes "hosted cl env Vs Vp Vc Vv K B" "2 \<le> fuel" "repairable sp0" "int i < 2 ^ 63"
    "within_round Vs Vp Vc Vv sp0 n X i False (snd (run cl (Reconcile env fuel (sp_key sp0)) w))"
  shows "between Vs Vp Vc Vv sp0 n X (one_round cl env fuel K B sp0 i w)"
  using round_settle [OF assms] by (simp add: one_round_def)

lemma rounds_grow:
  assumes "hosted cl env Vs Vp Vc Vv K B" "2 \<le> fuel" "repairable sp0" "Size (Spec sp0) = Some sz" "between Vs Vp Vc Vv sp0 0 UNIV w"
  shows "int n \<le> int_of_int32 sz \<Longrightarrow> between Vs Vp Vc Vv sp0 n {n..} (rounds cl env fuel K B sp0 [0..<n] w)"
proof (induction n)
  case 0
  then show ?case using assms(5) by (simp add: rounds_def atLeast_0)
next
  case (Suc n)
  have b: "between Vs Vp Vc Vv sp0 n {n..} (rounds cl env fuel K B sp0 [0..<n] w)" by (rule Suc.IH) (use Suc.prems in simp)
  have lt: "int n < int_of_int32 sz" "int n < 2 ^ 63" using Suc.prems int_of_int32_less [of sz] by simp_all
  show ?case
    using one_round_settles [OF assms(1-3) lt(2) round_grow [OF assms(1-4) lt(1) b]] by (simp add: rounds_def)
qed

lemma rounds_repair:
  assumes "hosted cl env Vs Vp Vc Vv K B" "2 \<le> fuel" "repairable sp0" "Size (Spec sp0) = Some sz" "int n = int_of_int32 sz" "alive sp0"
  shows "sorted is \<Longrightarrow> distinct is \<Longrightarrow> set is \<subseteq> {..<n} \<Longrightarrow> between Vs Vp Vc Vv sp0 n (set is \<union> Y) w \<Longrightarrow> Y \<subseteq> {n..} \<Longrightarrow>
    between Vs Vp Vc Vv sp0 n Y (rounds cl env fuel K B sp0 is w)"
proof (induction "is" arbitrary: w)
  case Nil
  then show ?case by (simp add: rounds_def)
next
  case (Cons i "is")
  have lt: "i < n" "int i < 2 ^ 63" using Cons.prems(3) assms(5) int_of_int32_less [of sz] by auto
  have first: "\<forall>k < i. k \<notin> set (i # is) \<union> Y" using Cons.prems(1,5) lt(1) by auto
  have "set (i # is) \<union> Y - {i} = set is \<union> Y" using Cons.prems(2,5) lt(1) by auto
  then have "between Vs Vp Vc Vv sp0 n (set is \<union> Y) (one_round cl env fuel K B sp0 i w)"
    using one_round_settles [OF assms(1-3) lt(2) round_repair [OF assms Cons.prems(4) _ lt(1) first]] by simp
  from Cons.IH [OF _ _ _ this Cons.prems(5)] Cons.prems(1-3) show ?case by (simp add: rounds_def)
qed

text \<open>A state between rounds with no ordinal below the size left out is at rest.\<close>

lemma between_rests:
  assumes "hosted cl env Vs Vp Vc Vv K B" "Size (Spec sp0) = Some sz" "int n = int_of_int32 sz" "alive sp0"
    "between Vs Vp Vc Vv sp0 n X w" "\<forall>k < n. k \<notin> X"
  shows "run cl (Reconcile env fuel (sp_key sp0)) w = (Done (result0, None), w)"
proof -
  note c = cooperativeD [OF hostedD(1) [OF assms(1)]]
  obtain sp where sp: "Vs w (sp_key sp0) = Some sp" and e0: "entries sp0 n sp" and st: "\<forall>j < n. entry_settled sp0 j sp"
    using assms(5) unfolding between_def by blast
  have al: "IsZero (DeletionTimestamp (sp_Meta sp))" "GroupVersion_String \<in> set (Finalizers (sp_Meta sp))"
    and s: "Size (Spec sp) = Some sz" and wf: "wf_sp sp" and len: "length (pods_of sp) = n"
    using assms(2,4) e0 by (simp_all add: alive_def entries_def same_shape_def del: GroupVersion_String_simp)
  have "settled (int_of_int32 sz) (phases_of sp) = int_of_int32 sz" using entries_settled [OF e0 st] assms(3) by simp
  moreover have "\<forall>p \<in> set (pods_of sp). entry_ok (Vp w) (Namespace (sp_Meta sp)) p"
    using entries_agree [OF assms(5) e0 st] len assms(6) by (auto simp: in_set_conv_nth)
  ultimately show ?thesis
    using run_steady [OF wf s _ al c(2)] by (simp add: run_Reconcile [OF optimistic_reads [OF c(1)] c(2,4)] sp)
qed


section \<open>The finalizer\<close>

lemma claim_name_stored: "Spec sp' = Spec sp \<Longrightarrow> sp_key sp' = sp_key sp \<Longrightarrow> claim_name sp' = claim_name sp"
  by (auto simp: claim_name_def fun_eq_iff split: list.split option.split)

text \<open>Another StatefulPod with the same key, specification and status can take the place of the first.\<close>

lemma between_rebase:
  assumes "services cl Vs Vp Vc Vv" "between Vs Vp Vc Vv sp0 n X w" "Vs w (sp_key sp0) = Some sp" "entries sp0 n sp"
    "\<forall>j < n. entry_settled sp0 j sp" "Vs w' = (Vs w)(sp_key sp \<mapsto> sp')" "Vp w' = Vp w" "Vc w' = Vc w"
    "Spec sp' = Spec sp" "Status sp' = Status sp" "sp_key sp' = sp_key sp" "w' = snd (run cl (Reconcile env fuel req) w)" "repairable sp0"
  shows "between Vs Vp Vc Vv sp' n X w'"
proof -
  have s0: "same_shape sp0 sp" using assms(4) by (simp add: entries_def)
  have cn: "claim_name sp' = claim_name sp" by (rule claim_name_stored [OF assms(9,11)])
  note nm0 = same_shape_names [OF s0]
  have nm: "sp_key sp' = sp_key sp0" "Namespace (sp_Meta sp') = Namespace (sp_Meta sp0)" "claims_wanted sp' = claims_wanted sp0"
    "claim_name sp' = claim_name sp0" "ServiceTemplate (Spec sp') = ServiceTemplate (Spec sp0)" "SetServiceName sp' = SetServiceName sp0"
    "PodService_GetName sp' = PodService_GetName sp0"
    using s0 assms(9,11) cn by (simp_all add: same_shape_def PodService_GetName_def SetServiceName_def fun_eq_iff)
  have child: "child sp' x i m = child sp0 x i m" for x i m using nm(1) by (simp add: child_def)
  have own: "own_claim Vc sp' i b w' = own_claim Vc sp0 i b w" "running_pod Vp sp' i w' = running_pod Vp sp0 i w" for i b
    by (simp_all only: own_claim_def running_pod_def nm child assms(7,8))
  have "ordinal_ok Vp Vc sp' n X i w'" for i
    using assms(2) unfolding between_def ordinal_ok_def own nm assms(7,8) by blast
  moreover have "names_clear Vs Vp sp' w'"
    using names_clear_upd [of Vs Vp sp0 w w' 0] assms(2,6,7) repairable_volume [OF assms(13)] nm0(1)
    unfolding between_def names_clear_def nm by simp
  moreover have "service_ready Vv sp' w'"
    using service_ready_run [OF assms(1), of sp0 w env fuel req] assms(2,12) by (simp add: between_def service_ready_def nm)
  moreover have "entries sp' n sp'" using assms(4,10) by (simp add: entries_def nm)
  moreover have "\<forall>j < n. entry_settled sp' j sp'" using assms(5,10) nm(3) by (simp add: entry_settled_def)
  ultimately show ?thesis using assms(6,11) unfolding between_def by auto
qed

text \<open>A complete status that agrees with the cluster: the call makes sure of the finalizer and changes nothing else.\<close>

lemma run_complete:
  assumes "cooperative cl Vs Vp Vc" "2 \<le> fuel" "wf_sp sp" "Size (Spec sp) = Some sz"
    "settled (int_of_int32 sz) (phases_of sp) = int_of_int32 sz" "IsZero (DeletionTimestamp (sp_Meta sp))" "Vs w (sp_key sp) = Some sp"
    "\<forall>p \<in> set (pods_of sp). entry_ok (Vp w) (Namespace (sp_Meta sp)) p"
  obtains sp1 w1 where "run cl (StatefulPodCtrl_CoreCtrl env fuel sp) w = (Done (result0, None), w1)"
    "Vs w1 = (Vs w)(sp_key sp \<mapsto> sp1)" "Vp w1 = Vp w" "Vc w1 = Vc w" "Spec sp1 = Spec sp" "Status sp1 = Status sp" "sp_key sp1 = sp_key sp"
    "GroupVersion_String \<in> set (Finalizers (sp_Meta sp1))" "DeletionTimestamp (sp_Meta sp1) = DeletionTimestamp (sp_Meta sp)"
proof (cases "GroupVersion_String \<in> set (Finalizers (sp_Meta sp))")
  case True
  note c = cooperativeD [OF assms(1)]
  have "run cl (StatefulPodCtrl_CoreCtrl env fuel sp) w = (Done (result0, None), w)"
    by (rule run_steady [OF assms(3-6) True c(2) assms(8)])
  then show thesis using True assms(7) by (intro that [of w sp]) (simp_all add: fun_upd_idem)
next
  case False
  note c = cooperativeD [OF assms(1)]
  define sp1 where "sp1 = sp\<lparr>sp_Meta := (sp_Meta sp)\<lparr>Finalizers := Finalizers (sp_Meta sp) @ [GroupVersion_String]\<rparr>\<rparr>"
  have k1: "sp_key sp1 = sp_key sp" "Status sp1 = Status sp" "Spec sp1 = Spec sp" by (simp_all add: sp1_def)
  have stays: "\<not> let_go (sp_Meta sp) (sp_Meta sp1)" using assms(6) by simp
  obtain m where fuel: "fuel = Suc (Suc m)" using assms(2) by (metis Suc_le_D numeral_2_eq_2 Suc_le_mono)
  obtain sp2 w2 where u: "run cl (StatefulPodService_Update fuel sp1) w = (Done (Inr sp2), w2)"
    "Vs w2 = (Vs w)(sp_key sp \<mapsto> sp2)" "Spec sp2 = Spec sp" "Status sp2 = Status sp" "sp_key sp2 = sp_key sp"
    "Finalizers (sp_Meta sp2) = Finalizers (sp_Meta sp1)" "DeletionTimestamp (sp_Meta sp2) = DeletionTimestamp (sp_Meta sp)"
    using run_Update_two [OF c(1), of w sp1 sp m] assms(7) k1 stays unfolding fuel by metis
  have v: "Vp w2 = Vp w" "Vc w2 = Vc w" using run_Update_frame [OF c(10) u(1)] run_Update_frame [OF c(11) u(1)] by simp_all
  have fin: "GroupVersion_String \<in> set (Finalizers (sp_Meta sp2))" using u(6) by (simp add: sp1_def)
  have al2: "IsZero (DeletionTimestamp (sp_Meta sp2))" using assms(6) u(7) by simp
  have same: "wf_sp sp2" "Size (Spec sp2) = Some sz" "settled (int_of_int32 sz) (phases_of sp2) = int_of_int32 sz"
    "\<forall>p \<in> set (pods_of sp2). entry_ok (Vp w2) (Namespace (sp_Meta sp2)) p"
    using assms(3-5,8) u(3-5) v by (simp_all add: phases_of_def)
  have "run cl (StatefulPodCtrl_maintain env fuel sp2) w2 = (Done (result0, None), w2)"
    using run_steady [OF same(1-3) al2 fin c(2) same(4)] CoreCtrl_keep [OF same(1-3) al2 fin] by simp
  then have "run cl (StatefulPodCtrl_CoreCtrl env fuel sp) w = (Done (result0, None), w2)"
    unfolding CoreCtrl_plan [OF assms(3,4)] using assms(5,6) False u(1)
    by (simp add: plan_of_def carry_out_def StatefulPodCtrl_setFinalizer_def sp1_def [symmetric] del: GroupVersion_String_simp)
  then show thesis using u v fin by (intro that [of w2 sp2]) simp_all
qed

lemma between_quiet:
  assumes "hosted cl env Vs Vp Vc Vv K B" "2 \<le> fuel" "repairable sp0" "Size (Spec sp0) = Some sz" "int n = int_of_int32 sz"
    "IsZero (DeletionTimestamp (sp_Meta sp0))" "between Vs Vp Vc Vv sp0 n X w" "\<forall>k < n. k \<notin> X" "Vs w (sp_key sp0) = Some sp"
  obtains sp1 w1 where "run cl (Reconcile env fuel (sp_key sp0)) w = (Done (result0, None), w1)" "alive sp1" "Status sp1 = Status sp"
    "sp_key sp1 = sp_key sp0" "Spec sp1 = Spec sp" "Vs w1 (sp_key sp0) = Some sp1" "between Vs Vp Vc Vv sp1 n X w1"
proof -
  note h = hostedD [OF assms(1)]
  note c = cooperativeD [OF h(1)]
  have e0: "entries sp0 n sp" and st: "\<forall>j < n. entry_settled sp0 j sp"
    using assms(7,9) unfolding between_def by auto
  have al: "IsZero (DeletionTimestamp (sp_Meta sp))" and s: "Size (Spec sp) = Some sz" and wf: "wf_sp sp" and len: "length (pods_of sp) = n"
    and key: "sp_key sp = sp_key sp0"
    using assms(4,6) e0 by (simp_all add: entries_def same_shape_def)
  have full: "settled (int_of_int32 sz) (phases_of sp) = int_of_int32 sz" using entries_settled [OF e0 st] assms(5) by simp
  have ok: "\<forall>p \<in> set (pods_of sp). entry_ok (Vp w) (Namespace (sp_Meta sp)) p"
    using entries_agree [OF assms(7) e0 st] len assms(8) by (auto simp: in_set_conv_nth)
  have here: "Vs w (sp_key sp) = Some sp" using assms(9) key by simp
  obtain sp1 w1 where r: "run cl (StatefulPodCtrl_CoreCtrl env fuel sp) w = (Done (result0, None), w1)"
    "Vs w1 = (Vs w)(sp_key sp \<mapsto> sp1)" "Vp w1 = Vp w" "Vc w1 = Vc w" "Spec sp1 = Spec sp" "Status sp1 = Status sp" "sp_key sp1 = sp_key sp"
    "GroupVersion_String \<in> set (Finalizers (sp_Meta sp1))" "DeletionTimestamp (sp_Meta sp1) = DeletionTimestamp (sp_Meta sp)"
    by (rule run_complete [OF h(1) assms(2) wf s full al here ok])
  have rec: "run cl (Reconcile env fuel (sp_key sp0)) w = (Done (result0, None), w1)"
    by (simp add: run_Reconcile [OF optimistic_reads [OF c(1)] c(2,4)] assms(9) r(1))
  have "between Vs Vp Vc Vv sp1 n X w1"
    by (rule between_rebase [OF h(2) assms(7,9) e0 st r(2-7) _ assms(3), of env fuel "sp_key sp0"]) (simp add: rec)
  then show thesis using rec r key al by (intro that [of w1 sp1]) (simp_all add: alive_def)
qed

end
