(* ===== verification/Convergence.thy ===== *)
theory Convergence
  imports Settling
begin

text \<open>
  Growth comes to its end: the requests of a StatefulPod and of the pods and claims it creates, with a kubelet that
  starts each pod and a provisioner that binds each claim in between, take an empty status to the size asked for and come to rest. This
  composes the dispatch, the service, the step of growth, the templates with the way back from their annotations, the monitors, the update
  loop and the finalizer.
\<close>

section \<open>The service\<close>

text \<open>The names of the children are free.\<close>

definition unclaimed :: "('w \<Rightarrow> NamespacedName \<Rightarrow> StatefulPod option) \<Rightarrow> ('w \<Rightarrow> NamespacedName \<Rightarrow> Pod option) \<Rightarrow>
    ('w \<Rightarrow> NamespacedName \<Rightarrow> PVC option) \<Rightarrow> StatefulPod \<Rightarrow> 'w \<Rightarrow> bool" where
  "unclaimed Vs Vp Vc sp w \<longleftrightarrow> (\<forall>i. Vs w (pod_key sp i) = None \<and> Vp w (pod_key sp i) = None \<and>
     (claims_wanted sp \<longrightarrow> Vs w (claim_key sp i) = None \<and> Vp w (claim_key sp i) = None \<and> Vc w (claim_key sp i) = None))"

lemma fresh_between:
  assumes "Vs w (sp_key sp) = Some sp" "pods_of sp = []" "pvcs_of sp = []" "unclaimed Vs Vp Vc sp w" "service_ready Vv sp w"
  shows "between Vs Vp Vc Vv sp 0 UNIV w"
  using assms by (auto simp: between_def entries_def wf_status_def ordinal_ok_def names_clear_def unclaimed_def)

text \<open>If there is to be a service and it is missing, the first call makes it and nothing else.\<close>

lemma service_first:
  assumes "hosted cl env Vs Vp Vc Vv K B" "Vs w (sp_key sp) = Some sp" "pods_of sp = []" "pvcs_of sp = []" "Size (Spec sp) = Some sz"
    "0 < int_of_int32 sz" "\<not> service_ready Vv sp w"
  obtains w0 where "run cl (Reconcile env fuel (sp_key sp)) w = (Done (requeue_wait, None), w0)"
    "Vs w0 = Vs w" "Vp w0 = Vp w" "Vc w0 = Vc w" "service_ready Vv sp w0"
proof -
  note h = hostedD [OF assms(1)]
  note c = cooperativeD [OF h(1)]
  have acc: "accepts svc_Meta (svc_srv cl) Vv" and sep: "separate cl Vs Vp Vc Vv" using h(2) by (simp_all add: services_def)
  obtain t where t: "ServiceTemplate (Spec sp) = Some t" "Vv w (svc_key sp) = None" using assms(7) by (auto simp: service_ready_def)
  have wf: "wf_sp sp" "settled (int_of_int32 sz) (phases_of sp) = 0" using assms(3,4) by (simp_all add: wf_status_def settled_def phases_of_def)
  have none: "Vv w (NN (Namespace (sp_Meta sp)) (Name (sp_Meta sp) @ ''-service'')) = None" using t(2) by (simp add: SetServiceName_def)
  obtain svc r w0 where s: "svc_srv cl (Create svc) w = (r, w0)" "Name (svc_Meta svc) = Name (sp_Meta sp) @ ''-service''"
    "Namespace (svc_Meta svc) = Namespace (sp_Meta sp)" "run cl (StatefulPodCtrl_CoreCtrl env fuel sp) w = (Done (requeue_wait, None), w0)"
    using run_service_missing [where V = Vv and w = w and env = env and fuel = fuel, OF wf(1) assms(5,6) wf(2) t(1) h(7) none] by blast
  have w0: "w0 = snd (svc_srv cl (Create svc) w)" by (simp add: s(1))
  have "Vv w (NN (Namespace (svc_Meta svc)) (Name (svc_Meta svc))) = None" using none s(2,3) by simp
  then obtain y w1 where "svc_srv cl (Create svc) w = (Inr y, w1)" "Vv w1 = (Vv w)(NN (Namespace (svc_Meta svc)) (Name (svc_Meta svc)) \<mapsto> y)"
    by (rule accepts_Create [OF acc])
  then have "service_ready Vv sp w0" using s by (simp add: service_ready_def SetServiceName_def)
  moreover have "Vs w0 = Vs w" "Vp w0 = Vp w" "Vc w0 = Vc w" unfolding w0 using separateD(10-12) [OF sep] by simp_all
  moreover have "run cl (Reconcile env fuel (sp_key sp)) w = (Done (requeue_wait, None), w0)"
    by (simp add: run_Reconcile [OF optimistic_reads [OF c(1)] c(2,4)] assms(2) s(4))
  ultimately show thesis by (intro that [of w0])
qed

definition serve_first :: "'w client \<Rightarrow> Env \<Rightarrow> nat \<Rightarrow> ('w \<Rightarrow> NamespacedName \<Rightarrow> Service option) \<Rightarrow> StatefulPod \<Rightarrow> 'w \<Rightarrow> 'w" where
  "serve_first cl env fuel Vv sp w = (if service_ready Vv sp w then w else snd (run cl (Reconcile env fuel (sp_key sp)) w))"

lemma serve_first_between:
  assumes "hosted cl env Vs Vp Vc Vv K B" "Vs w (sp_key sp) = Some sp" "pods_of sp = []" "pvcs_of sp = []" "Size (Spec sp) = Some sz"
    "0 < int_of_int32 sz" "unclaimed Vs Vp Vc sp w"
  shows "between Vs Vp Vc Vv sp 0 UNIV (serve_first cl env fuel Vv sp w)"
proof (cases "service_ready Vv sp w")
  case True
  then show ?thesis using fresh_between [OF assms(2-4,7) True] by (simp add: serve_first_def)
next
  case False
  obtain w0 where "run cl (Reconcile env fuel (sp_key sp)) w = (Done (requeue_wait, None), w0)"
    "Vs w0 = Vs w" "Vp w0 = Vp w" "Vc w0 = Vc w" "service_ready Vv sp w0" by (rule service_first [OF assms(1-6) False])
  with False show ?thesis using assms(2,7) by (simp add: serve_first_def fresh_between [of Vs w0 sp] assms(3,4) unclaimed_def)
qed

section \<open>Growth ends\<close>

text \<open>What a complete state between rounds means for the reader of the cluster.\<close>

definition fully_settled :: "('w \<Rightarrow> NamespacedName \<Rightarrow> StatefulPod option) \<Rightarrow> ('w \<Rightarrow> NamespacedName \<Rightarrow> Pod option) \<Rightarrow>
    ('w \<Rightarrow> NamespacedName \<Rightarrow> PVC option) \<Rightarrow> StatefulPod \<Rightarrow> nat \<Rightarrow> 'w \<Rightarrow> bool" where
  "fully_settled Vs Vp Vc sp N w \<longleftrightarrow> (\<exists>sp'. Vs w (sp_key sp) = Some sp' \<and> length (pods_of sp') = N \<and> length (pvcs_of sp') = N \<and>
     getIndex sp' = Ret (int N) \<and> (\<forall>p \<in> set (pods_of sp'). ps_Status p = ''Running'') \<and>
     (\<forall>i < N. \<exists>pod. Vp w (pod_key sp i) = Some pod \<and> PodCtrl_isPodRunning pod) \<and>
     (claims_wanted sp \<longrightarrow> (\<forall>v \<in> set (pvcs_of sp'). pvs_Status v = ''Bound'') \<and>
        (\<forall>i < N. \<exists>pvc. Vc w (claim_key sp i) = Some pvc \<and> pvc_Phase pvc = ''Bound'')))"

lemma between_settled:
  assumes "Size (Spec sp) = Some sz" "between Vs Vp Vc Vv sp n X w" "\<forall>k < n. k \<notin> X"
  shows "fully_settled Vs Vp Vc sp n w"
proof -
  obtain sp' where sp': "Vs w (sp_key sp) = Some sp'" and e: "entries sp n sp'" and st: "\<forall>j < n. entry_settled sp j sp'"
    and ord: "\<forall>i. ordinal_ok Vp Vc sp n X i w"
    using assms(2) unfolding between_def by blast
  have wf: "wf_sp sp'" "length (pods_of sp') = n" "length (pvcs_of sp') = n" "Size (Spec sp') = Some sz"
    using e assms(1) wf_status_length [of "Status sp'"] by (simp_all add: entries_def same_shape_def)
  have "getIndex sp' = Ret (int n)" using getIndex_settled [OF wf(1,4)] entries_settled [OF e st] by simp
  moreover have "\<forall>p \<in> set (pods_of sp'). ps_Status p = ''Running''" "claims_wanted sp \<longrightarrow> (\<forall>v \<in> set (pvcs_of sp'). pvs_Status v = ''Bound'')"
    using st wf(2,3) by (auto simp: in_set_conv_nth entry_settled_def)
  moreover have "running_pod Vp sp i w \<and> (claims_wanted sp \<longrightarrow> own_claim Vc sp i True w)" if "i < n" for i
    using spec [OF ord, of i] that assms(3) by (auto simp: ordinal_ok_def)
  then have "\<forall>i < n. \<exists>pod. Vp w (pod_key sp i) = Some pod \<and> PodCtrl_isPodRunning pod"
    "claims_wanted sp \<longrightarrow> (\<forall>i < n. \<exists>pvc. Vc w (claim_key sp i) = Some pvc \<and> pvc_Phase pvc = ''Bound'')"
    unfolding running_pod_def own_claim_def by blast+
  ultimately show ?thesis using sp' wf(2,3) unfolding fully_settled_def by blast
qed

text \<open>C6: growth converges. Take a StatefulPod of a size above zero, with or without a service, with or without claims (then with complete claim
  templates and no reserved volumes), with an empty status, and nothing under the names of its pods and claims; a server that
  accepts creations and optimistic updates; a kubelet that starts the pod it is asked for on a ready node; and a provisioner that binds claims.
  One call makes the service if it is wanted and missing. After as many rounds as the size (the StatefulPod is reconciled, the kubelet starts
  the new pod and the pod's event is reconciled, the new claim is bound and the claim's event is reconciled) the status is complete: one running
  entry for every ordinal below the size, whose pod runs, and every wanted claim is bound and recorded as bound. No pod and no claim of a
  further ordinal was created. Unless the StatefulPod is being deleted, one more call makes sure of the finalizer, and from then on a call
  changes nothing.\<close>

theorem growth_converges:
  assumes "hosted cl env Vs Vp Vc Vv K B" "2 \<le> fuel" "Vs w (sp_key sp) = Some sp" "pods_of sp = []" "pvcs_of sp = []" "repairable sp"
    "Size (Spec sp) = Some sz" "int_of_int32 sz = int N" "0 < N" "unclaimed Vs Vp Vc sp w"
    "w' = rounds cl env fuel K B sp [0..<N] (serve_first cl env fuel Vv sp w)"
  shows "fully_settled Vs Vp Vc sp N w' \<and>
    (\<forall>i \<ge> N. Vp w' (pod_key sp i) = None \<and> (claims_wanted sp \<longrightarrow> Vc w' (claim_key sp i) = None)) \<and>
    (IsZero (DeletionTimestamp (sp_Meta sp)) \<longrightarrow>
      (\<exists>sp' w''. run cl (Reconcile env fuel (sp_key sp)) w' = (Done (result0, None), w'') \<and> Vs w'' (sp_key sp) = Some sp' \<and>
         GroupVersion_String \<in> set (Finalizers (sp_Meta sp')) \<and> fully_settled Vs Vp Vc sp N w'' \<and>
         run cl (Reconcile env fuel (sp_key sp)) w'' = (Done (result0, None), w'')))"
proof -
  have start: "between Vs Vp Vc Vv sp 0 UNIV (serve_first cl env fuel Vv sp w)"
    by (rule serve_first_between [OF assms(1,3-5,7) _ assms(10)]) (use assms(8,9) in simp)
  have b: "between Vs Vp Vc Vv sp N {N..} w'"
    unfolding assms(11) by (rule rounds_grow [OF assms(1,2,6,7) start]) (simp add: assms(8))
  have "fully_settled Vs Vp Vc sp N w'" by (rule between_settled [OF assms(7) b]) auto
  moreover have "Vp w' (pod_key sp i) = None \<and> (claims_wanted sp \<longrightarrow> Vc w' (claim_key sp i) = None)" if "N \<le> i" for i
  proof -
    have "ordinal_ok Vp Vc sp N {N..} i w'" using b by (simp add: between_def)
    with that show ?thesis by (auto simp: ordinal_ok_def)
  qed
  moreover have "\<exists>sp' w''. run cl (Reconcile env fuel (sp_key sp)) w' = (Done (result0, None), w'') \<and> Vs w'' (sp_key sp) = Some sp' \<and>
         GroupVersion_String \<in> set (Finalizers (sp_Meta sp')) \<and> fully_settled Vs Vp Vc sp N w'' \<and>
         run cl (Reconcile env fuel (sp_key sp)) w'' = (Done (result0, None), w'')"
    if al: "IsZero (DeletionTimestamp (sp_Meta sp))"
  proof -
    obtain s where s: "Vs w' (sp_key sp) = Some s" "entries sp N s" using b unfolding between_def by blast
    have size: "int N = int_of_int32 sz" by (simp add: assms(8))
    have out: "\<forall>k < N. k \<notin> {N..}" by simp
    obtain s1 w1 where q: "run cl (Reconcile env fuel (sp_key sp)) w' = (Done (result0, None), w1)" "alive s1" "Status s1 = Status s"
      "sp_key s1 = sp_key sp" "Spec s1 = Spec s" "Vs w1 (sp_key sp) = Some s1" "between Vs Vp Vc Vv s1 N {N..} w1"
      by (rule between_quiet [OF assms(1,2,6,7) size al b out s(1)])
    have size1: "Size (Spec s1) = Some sz" using q(5) s(2) assms(7) by (simp add: entries_def same_shape_def)
    have "run cl (Reconcile env fuel (sp_key sp)) w1 = (Done (result0, None), w1)"
      unfolding q(4) [symmetric] by (rule between_rests [OF assms(1) size1 size q(2,7) out])
    moreover have "fully_settled Vs Vp Vc sp N w1"
    proof -
      have s0: "same_shape sp s" using s(2) by (simp add: entries_def)
      have "claim_name s1 = claim_name sp" using claim_name_stored [OF q(5)] q(4) s0 by (simp add: same_shape_def)
      moreover have "claims_wanted s1 = claims_wanted sp" "PodService_GetName s1 = PodService_GetName sp"
        "Namespace (sp_Meta s1) = Namespace (sp_Meta sp)"
        using q(4,5) s0 by (simp_all add: same_shape_def PodService_GetName_def fun_eq_iff)
      ultimately show ?thesis using between_settled [OF size1 q(7) out] q(4) by (simp add: fully_settled_def)
    qed
    ultimately show ?thesis using q(1,2,6) unfolding alive_def by blast
  qed
  ultimately show ?thesis by blast
qed

text \<open>A StatefulPod with a service and claims.\<close>

definition serving_sp :: "int \<Rightarrow> (PodPhase \<times> PVCPhase) list \<Rightarrow> StatefulPod" where
  "serving_sp n ph = (let sp = demo_sp_claims n ph in sp\<lparr>Spec := (Spec sp)\<lparr>ServiceTemplate :=
     Some \<lparr>svc_Selector = [], ServiceSpec_rest = ''''\<rparr>\<rparr>\<rparr>)"

lemma serving_sp_simps:
  "sp_key (serving_sp n ph) = NN ''ns'' ''db''" "repairable (serving_sp n ph)" "claims_wanted (serving_sp n ph)"
  "Size (Spec (serving_sp n ph)) = Some (int32_of n)" "ServiceTemplate (Spec (serving_sp n ph)) \<noteq> None"
  "IsZero (DeletionTimestamp (sp_Meta (serving_sp n ph)))"
  by (simp_all add: serving_sp_def demo_defs Let_def repairable_def claim_volume_def)

theorem growth_converges_witness:
  "\<exists>sp' w''. run mem_client (Reconcile demo_env 2 (NN ''ns'' ''db'')) (rounds mem_client demo_env 2 mem_kubelet mem_provisioner (serving_sp 3 [])
      [0..<3] (serve_first mem_client demo_env 2 svcs (serving_sp 3 []) (empty_world\<lparr>sps := (\<lambda>_. None)(NN ''ns'' ''db'' \<mapsto> serving_sp 3 [])\<rparr>))) =
      (Done (result0, None), w'') \<and>
    sps w'' (NN ''ns'' ''db'') = Some sp' \<and> length (pods_of sp') = 3 \<and> (\<forall>v \<in> set (pvcs_of sp'). pvs_Status v = ''Bound'') \<and>
    run mem_client (Reconcile demo_env 2 (NN ''ns'' ''db'')) w'' = (Done (result0, None), w'')"
proof -
  define sp where "sp = serving_sp 3 []"
  define w where "w = empty_world\<lparr>sps := (\<lambda>_. None)(NN ''ns'' ''db'' \<mapsto> sp)\<rparr>"
  note s = serving_sp_simps [of 3 "[]", folded sp_def]
  have l: "pods_of sp = []" "pvcs_of sp = []" by (simp_all add: sp_def serving_sp_def Let_def demo_defs)
  have vol: "claim_volume (Spec sp)" using s(2,3) by (auto simp: repairable_def)
  have w: "sps w (sp_key sp) = Some sp" unfolding s(1) by (simp add: w_def)
  have free: "unclaimed sps pods claims sp w"
    using GetName_not_key [of sp] claim_name_not_key [OF vol] s(1) by (auto simp: unclaimed_def w_def empty_world_def)
  have three: "int_of_int32 (int32_of 3) = int 3" "(0 :: nat) < 3" by (simp_all add: int_of_int32_of)
  show ?thesis
    using growth_converges [OF hosted_mem order_refl w l s(2,4) three free refl, of demo_env] s(3,6)
    unfolding s(1) unfolding sp_def [symmetric] w_def [symmetric] fully_settled_def s(1) by fastforce
qed

end
