(* ===== verification/Stages.thy ===== *)
theory Stages
  imports Convergence "HOL-Library.Sublist"
begin

text \<open>
  How far a growing StatefulPod has come, as an abstract machine: three counters that the requests of the StatefulPod, of its pods and of its
  claims advance, each at its own time. The counters are ordered, every move is monotone, and so whatever happens in addition to the
  moves that are needed does no harm.
\<close>

section \<open>Counters\<close>

text \<open>How many ordinals were asked for, how many of their pods are recorded as running, how many of their claims as bound. One more than the
  size is asked for once the StatefulPod is complete and has its finalizer.\<close>

datatype stage = Stage (asked: nat) (started: nat) (settled_claims: nat)

instantiation stage :: order
begin

definition less_eq_stage :: "stage \<Rightarrow> stage \<Rightarrow> bool" where
  "s \<le> t \<longleftrightarrow> asked s \<le> asked t \<and> started s \<le> started t \<and> settled_claims s \<le> settled_claims t"

definition less_stage :: "stage \<Rightarrow> stage \<Rightarrow> bool" where
  "s < t \<longleftrightarrow> s \<le> t \<and> \<not> t \<le> (s :: stage)"

instance
  by standard (auto simp: less_eq_stage_def less_stage_def intro: stage.expand)

end

text \<open>What can happen: the StatefulPod is reconciled; the kubelet gets the pod of an ordinal to run and its event is reconciled; the claim of an
  ordinal gets bound and its event is reconciled.\<close>

datatype move = Ask | PodUp nat | ClaimUp nat

fun advance :: "bool \<Rightarrow> nat \<Rightarrow> move \<Rightarrow> stage \<Rightarrow> stage" where
  "advance wanted N Ask (Stage a p c) =
     (if a \<le> N \<and> p = a \<and> c = a then Stage (Suc a) p (if wanted then c else min (Suc a) N) else Stage a p c)"
| "advance wanted N (PodUp j) (Stage a p c) = (if j = p \<and> p < min a N then Stage a (Suc p) c else Stage a p c)"
| "advance wanted N (ClaimUp j) (Stage a p c) = (if wanted \<and> j = c \<and> c < min a N then Stage a p (Suc c) else Stage a p c)"

definition proper :: "bool \<Rightarrow> nat \<Rightarrow> stage \<Rightarrow> bool" where
  "proper wanted N s \<longleftrightarrow> asked s \<le> Suc N \<and> started s \<le> min (asked s) N \<and> min (asked s) N \<le> Suc (started s) \<and>
     settled_claims s \<le> min (asked s) N \<and> min (asked s) N \<le> Suc (settled_claims s) \<and> (wanted \<or> settled_claims s = min (asked s) N) \<and>
     (asked s = Suc N \<longrightarrow> started s = N \<and> settled_claims s = N)"

lemma proper_advance: "proper wanted N s \<Longrightarrow> proper wanted N (advance wanted N m s)"
  by (cases m; cases s) (simp_all add: proper_def; linarith)+

text \<open>A stage that is ahead of another is still ahead after the same move: if the move does nothing there, it was already made.\<close>

lemma advance_mono:
  assumes "proper wanted N s" "proper wanted N t" "s \<le> t"
  shows "advance wanted N m s \<le> advance wanted N m t"
proof (cases s; cases t)
  fix a p c a' p' c'
  assume "s = Stage a p c" "t = Stage a' p' c'"
  with assms show ?thesis
    by (cases m) (simp_all add: proper_def less_eq_stage_def; linarith)+
qed

lemma advance_inflates: "s \<le> advance wanted N m s"
  by (cases m; cases s) (simp_all add: less_eq_stage_def)

section \<open>More moves do no harm\<close>

locale monotone_moves =
  fixes step :: "'m \<Rightarrow> 's :: order \<Rightarrow> 's" and valid :: "'s \<Rightarrow> bool"
  assumes step_valid: "valid s \<Longrightarrow> valid (step m s)"
    and step_mono: "valid s \<Longrightarrow> valid t \<Longrightarrow> s \<le> t \<Longrightarrow> step m s \<le> step m t"
    and step_inflates: "s \<le> step m s"
begin

lemma fold_valid: "valid s \<Longrightarrow> valid (fold step ms s)"
  by (induction ms arbitrary: s) (auto intro: step_valid)

lemma fold_subseq: "subseq ms ns \<Longrightarrow> valid s \<Longrightarrow> valid t \<Longrightarrow> s \<le> t \<Longrightarrow> fold step ms s \<le> fold step ns t"
proof (induction arbitrary: s t rule: list_emb.induct)
  case (list_emb_Nil ns)
  then show ?case
    by (induction ns arbitrary: t) (auto intro: step_valid order_trans [OF _ step_inflates])
next
  case (list_emb_Cons ms ns n)
  then have "s \<le> step n t" using step_inflates [of t n] by (auto intro: order_trans)
  with list_emb_Cons show ?case by (auto intro: step_valid)
next
  case (list_emb_Cons2 m n ms ns)
  then show ?case by (auto intro!: list_emb_Cons2.IH step_valid step_mono)
qed

end

interpretation stages: monotone_moves "advance wanted N" "proper wanted N" for wanted N
  by unfold_locales (rule proper_advance advance_mono advance_inflates; assumption?)+

text \<open>The moves that are needed: for each ordinal in turn the StatefulPod is asked, its pod comes up and its claim, if there is to be one, in either
  order; and a last time for the finalizer. The ordinals below \<open>n\<close> are there already.\<close>

definition turn_of :: "bool \<Rightarrow> bool \<Rightarrow> nat \<Rightarrow> move list" where
  "turn_of wanted claim_first i = Ask # (if \<not> wanted then [PodUp i] else if claim_first then [ClaimUp i, PodUp i] else [PodUp i, ClaimUp i])"

definition agenda :: "bool \<Rightarrow> (nat \<Rightarrow> bool) \<Rightarrow> nat \<Rightarrow> nat \<Rightarrow> move list" where
  "agenda wanted first n N = concat (map (\<lambda>i. turn_of wanted (first i) i) [n..<N]) @ [Ask]"

lemma turn_of_advances: "i < N \<Longrightarrow> fold (advance wanted N) (turn_of wanted f i) (Stage i i i) = Stage (Suc i) (Suc i) (Suc i)"
  by (simp add: turn_of_def)

lemma turns_advance: "n \<le> m \<Longrightarrow> m \<le> N \<Longrightarrow>
  fold (advance wanted N) (concat (map (\<lambda>i. turn_of wanted (first i) i) [n..<m])) (Stage n n n) = Stage m m m"
  by (induction m rule: dec_induct) (simp_all add: turn_of_advances)

lemma agenda_advances: "n \<le> N \<Longrightarrow> fold (advance wanted N) (agenda wanted first n N) (Stage n n n) = Stage (Suc N) N N"
  by (simp add: agenda_def turns_advance)

lemma agenda_enough:
  assumes "subseq (agenda wanted first n N) ms" "n \<le> N"
  shows "fold (advance wanted N) ms (Stage n n n) = Stage (Suc N) N N"
proof -
  have start: "proper wanted N (Stage n n n)" using assms(2) by (simp add: proper_def)
  have "Stage (Suc N) N N \<le> fold (advance wanted N) ms (Stage n n n)"
    using stages.fold_subseq [OF assms(1) start start order_refl] by (simp add: agenda_advances [OF assms(2)])
  moreover have "proper wanted N (fold (advance wanted N) ms (Stage n n n))" by (rule stages.fold_valid [OF start])
  ultimately show ?thesis
    by (cases "fold (advance wanted N) ms (Stage n n n)") (auto simp: proper_def less_eq_stage_def)
qed

end
