(* ===== verification/Progress.thy ===== *)
theory Progress
  imports Stages
begin

text \<open>
  The moves of one StatefulPod carried out by the program: the state that belongs to a stage, and that each move takes it to the
  stage the abstract machine says, whenever it comes, and touches nothing but the objects of one ordinal.
\<close>

section \<open>Moves\<close>

text \<open>The kubelet and the volume controller act on what is there.\<close>

definition happen :: "'w client \<Rightarrow> Env \<Rightarrow> nat \<Rightarrow> (NamespacedName \<Rightarrow> 'w \<Rightarrow> 'w) \<Rightarrow> (NamespacedName \<Rightarrow> 'w \<Rightarrow> 'w) \<Rightarrow>
    ('w \<Rightarrow> NamespacedName \<Rightarrow> Pod option) \<Rightarrow> ('w \<Rightarrow> NamespacedName \<Rightarrow> PVC option) \<Rightarrow> StatefulPod \<Rightarrow> move \<Rightarrow> 'w \<Rightarrow> 'w" where
  "happen cl env fuel K B Vp Vc sp m w = (case m of
      Ask \<Rightarrow> snd (run cl (Reconcile env fuel (sp_key sp)) w)
    | PodUp i \<Rightarrow> if Vp w (pod_key sp i) = None then w
        else snd (run cl (Reconcile env fuel (pod_key sp i)) (K (pod_key sp i) w))
    | ClaimUp i \<Rightarrow> if \<not> claims_wanted sp \<or> Vc w (claim_key sp i) = None then w
        else snd (run cl (Reconcile env fuel (claim_key sp i)) (B (claim_key sp i) w)))"

text \<open>What a move of ordinal \<open>i\<close> may change: the StatefulPod, and the pod and the claim of the ordinal.\<close>

definition touches :: "('w \<Rightarrow> NamespacedName \<Rightarrow> StatefulPod option) \<Rightarrow> ('w \<Rightarrow> NamespacedName \<Rightarrow> Pod option) \<Rightarrow>
    ('w \<Rightarrow> NamespacedName \<Rightarrow> PVC option) \<Rightarrow> StatefulPod \<Rightarrow> nat \<Rightarrow> 'w \<Rightarrow> 'w \<Rightarrow> bool" where
  "touches Vs Vp Vc sp i w w' \<longleftrightarrow> (\<forall>k. k \<noteq> sp_key sp \<longrightarrow> Vs w' k = Vs w k) \<and> (\<forall>k. k \<noteq> pod_key sp i \<longrightarrow> Vp w' k = Vp w k) \<and>
     (\<forall>k. \<not> (claims_wanted sp \<and> k = claim_key sp i) \<longrightarrow> Vc w' k = Vc w k)"

section \<open>The state of a stage\<close>

text \<open>The stored StatefulPod is the one that was created, but for its status and its finalizers.\<close>

definition grown_from :: "StatefulPod \<Rightarrow> StatefulPod \<Rightarrow> bool" where
  "grown_from sp0 sp \<longleftrightarrow> sp_key sp = sp_key sp0 \<and> Size (Spec sp) = Size (Spec sp0) \<and>
     ServiceTemplate (Spec sp) = ServiceTemplate (Spec sp0) \<and> PVNames (Spec sp) = PVNames (Spec sp0) \<and>
     PVCTemplate (Spec sp) = PVCTemplate (Spec sp0) \<and> claim_name sp = claim_name sp0 \<and>
     DeletionTimestamp (sp_Meta sp) = DeletionTimestamp (sp_Meta sp0)"

definition status_at :: "StatefulPod \<Rightarrow> nat \<Rightarrow> nat \<Rightarrow> nat \<Rightarrow> StatefulPod \<Rightarrow> bool" where
  "status_at sp0 n p c sp \<longleftrightarrow> wf_sp sp \<and> length (pods_of sp) = n \<and> (\<forall>i < n. PodName (pods_of sp ! i) = PodService_GetName sp0 (int i) \<and>
     ps_Status (pods_of sp ! i) = (if i < p then ''Running'' else ''Preparing'') \<and>
     pvs_Status (pvcs_of sp ! i) = (if \<not> claims_wanted sp0 then '''' else if i < c then ''Bound'' else ''Pending''))"

definition child_at :: "('w \<Rightarrow> NamespacedName \<Rightarrow> Pod option) \<Rightarrow> ('w \<Rightarrow> NamespacedName \<Rightarrow> PVC option) \<Rightarrow> StatefulPod \<Rightarrow> nat \<Rightarrow> nat \<Rightarrow> nat \<Rightarrow>
    nat \<Rightarrow> 'w \<Rightarrow> bool" where
  "child_at Vp Vc sp n p c i w \<longleftrightarrow>
     (if i < n then (\<exists>pod. Vp w (pod_key sp i) = Some pod \<and> child sp (PodService_GetName sp (int i)) (int i) (pod_Meta pod) \<and>
        (i < p \<longrightarrow> PodCtrl_isPodRunning pod)) else Vp w (pod_key sp i) = None) \<and>
     (claims_wanted sp \<longrightarrow> (if i < n then own_claim Vc sp i (i < c) w else Vc w (claim_key sp i) = None))"

definition staged :: "('w \<Rightarrow> NamespacedName \<Rightarrow> StatefulPod option) \<Rightarrow> ('w \<Rightarrow> NamespacedName \<Rightarrow> Pod option) \<Rightarrow>
    ('w \<Rightarrow> NamespacedName \<Rightarrow> PVC option) \<Rightarrow> ('w \<Rightarrow> NamespacedName \<Rightarrow> Service option) \<Rightarrow> StatefulPod \<Rightarrow> nat \<Rightarrow> stage \<Rightarrow> 'w \<Rightarrow> bool" where
  "staged Vs Vp Vc Vv sp0 N s w \<longleftrightarrow> proper (claims_wanted sp0) N s \<and> names_clear Vs Vp sp0 w \<and> service_ready Vv sp0 w \<and>
     (\<exists>sp. Vs w (sp_key sp0) = Some sp \<and> grown_from sp0 sp \<and> status_at sp0 (min (asked s) N) (started s) (settled_claims s) sp \<and>
        (asked s = Suc N \<longrightarrow> GroupVersion_String \<in> set (Finalizers (sp_Meta sp)))) \<and>
     (\<forall>i. child_at Vp Vc sp0 (min (asked s) N) (started s) (settled_claims s) i w)"

lemma grown_from_shape: "grown_from sp0 sp \<Longrightarrow> same_shape sp sp' \<Longrightarrow> DeletionTimestamp (sp_Meta sp') = DeletionTimestamp (sp_Meta sp) \<Longrightarrow>
    grown_from sp0 sp'"
  by (simp add: grown_from_def same_shape_def)

lemma grown_names:
  assumes "grown_from sp0 sp"
  shows "sp_key sp = sp_key sp0" "pod_key sp i = pod_key sp0 i" "claim_key sp i = claim_key sp0 i" "PVCTemplate (Spec sp) = PVCTemplate (Spec sp0)"
    "PodService_GetName sp = PodService_GetName sp0" "child sp = child sp0" "svc_key sp = svc_key sp0"
    "Namespace (sp_Meta sp) = Namespace (sp_Meta sp0)" "claim_name sp = claim_name sp0"
    "SetServiceName sp = SetServiceName sp0" "Name (sp_Meta sp) = Name (sp_Meta sp0)"
  using assms by (auto simp: grown_from_def PodService_GetName_def child_def fun_eq_iff SetServiceName_def)

lemma status_at_lengths:
  assumes "status_at sp0 n p c sp"
  shows "wf_sp sp" "length (pods_of sp) = n" "length (pvcs_of sp) = n"
  using assms wf_status_length [of "Status sp"] by (simp_all add: status_at_def)

text \<open>A move that leaves the names clear and touches one ordinal only needs to be looked at there.\<close>

lemma staged_moved:
  assumes "staged Vs Vp Vc Vv sp0 N s w" "repairable sp0" "touches Vs Vp Vc sp0 i w w'" "service_ready Vv sp0 w'"
    "proper (claims_wanted sp0) N s'" "Vs w' (sp_key sp0) = Some sp'" "grown_from sp0 sp'"
    "status_at sp0 (min (asked s') N) (started s') (settled_claims s') sp'"
    "asked s' = Suc N \<Longrightarrow> GroupVersion_String \<in> set (Finalizers (sp_Meta sp'))"
    "child_at Vp Vc sp0 (min (asked s') N) (started s') (settled_claims s') i w'"
    "\<And>j. j \<noteq> i \<Longrightarrow> (j < min (asked s') N \<longleftrightarrow> j < min (asked s) N) \<and> (j < min (asked s) N \<longrightarrow>
       (j < started s' \<longrightarrow> j < started s) \<and> (j < settled_claims s' \<longrightarrow> j < settled_claims s))"
  shows "staged Vs Vp Vc Vv sp0 N s' w'"
proof -
  have t: "\<And>k. k \<noteq> sp_key sp0 \<Longrightarrow> Vs w' k = Vs w k" "\<And>k. k \<noteq> pod_key sp0 i \<Longrightarrow> Vp w' k = Vp w k"
    "\<And>k. \<not> (claims_wanted sp0 \<and> k = claim_key sp0 i) \<Longrightarrow> Vc w' k = Vc w k"
    using assms(3) unfolding touches_def by blast+
  have "child_at Vp Vc sp0 (min (asked s') N) (started s') (settled_claims s') j w'" for j
  proof (cases "j = i")
    case False
    have "claim_key sp0 j \<noteq> claim_key sp0 i" if "claims_wanted sp0"
      using False claim_name_ordinal [OF repairable_volume [OF assms(2) that], of j i] by simp
    then have "Vp w' (pod_key sp0 j) = Vp w (pod_key sp0 j)" "claims_wanted sp0 \<Longrightarrow> Vc w' (claim_key sp0 j) = Vc w (claim_key sp0 j)"
      using False t GetName_ordinal [of sp0 j i] by simp_all
    moreover have "child_at Vp Vc sp0 (min (asked s) N) (started s) (settled_claims s) j w"
      using assms(1) by (simp add: staged_def)
    ultimately show ?thesis using assms(11) [OF False] unfolding child_at_def own_claim_def by auto
  qed (simp add: assms(10))
  moreover have "names_clear Vs Vp sp0 w'"
    by (rule names_clear_upd [OF _ repairable_volume [OF assms(2)] t(1,2)]) (use assms(1) in \<open>simp_all add: staged_def\<close>)
  ultimately show ?thesis using assms(4-9) unfolding staged_def by blast
qed

section \<open>Asking\<close>

lemma run_ExpansionPod_kept:
  assumes "reads (pod_srv cl) V" "V w (pod_key sp i) = Some pod" "i < length (pods_of sp)"
  shows "run cl (PodCtrl_ExpansionPod env sp (int i)) w = (Done (Inr (pods_of sp ! i), sp), w)"
  using assms(2,3) by (simp add: PodCtrl_ExpansionPod_def Let_def pod_reader.IsExists_reads [OF assms(1)])

text \<open>A StatefulPod that is asked for while its last ordinal is not settled stores the entry of that ordinal again and creates nothing.\<close>

lemma run_regrow:
  assumes "cooperative cl Vs Vp Vc" "wf_sp sp" "Size (Spec sp) = Some sz" "int i = settled (int_of_int32 sz) (phases_of sp)"
    "int i < int_of_int32 sz" "run cl (StatefulPodCtrl_expansionSvc env sp (int i)) w = (Done True, w)" "repairable sp"
    "Vp w (pod_key sp i) = Some pod" "claims_wanted sp \<Longrightarrow> Vc w (claim_key sp i) \<noteq> None" "i < length (pods_of sp)"
    "Vs w (sp_key sp) = Some sp" "2 \<le> fuel"
  shows "\<exists>sp' w'. run cl (StatefulPodCtrl_CoreCtrl env fuel sp) w = (Done (result0, None), w') \<and> Vs w' = (Vs w)(sp_key sp \<mapsto> sp') \<and>
    Vp w' = Vp w \<and> Vc w' = Vc w \<and> same_shape sp sp' \<and> pods_of sp' = pods_of sp \<and>
    pvcs_of sp' = (pvcs_of sp)[i := kept_entry sp i (Vc w)] \<and> DeletionTimestamp (sp_Meta sp') = DeletionTimestamp (sp_Meta sp)"
proof -
  note c = cooperativeD [OF assms(1)]
  have len: "i < length (pvcs_of sp)" using assms(10) wf_status_length [OF assms(2)] by simp
  note pod = run_ExpansionPod_kept [OF c(2) assms(8,10), of env]
  obtain sp2 where pvc: "run cl (StatefulPodCtrl_expansionPVC env sp (int i)) w = (Done (Inr (kept_entry sp i (Vc w)), sp2), w)"
    "Status sp2 = Status sp" "same_shape sp sp2"
  proof (cases "claims_wanted sp")
    case True
    then have vol: "claim_volume (Spec sp)" and has: "has_claim sp i (Vc w)" and "\<exists>p. Vc w (claim_key sp i) = Some p"
      using assms(7,9) by (auto simp: repairable_def has_claim_def)
    then show thesis
      using run_expansionPVC_existing [OF c(4) True vol _ len, where env = env] that by (auto simp: kept_entry_def)
  next
    case False
    then show thesis
      using that [of sp] by (simp add: StatefulPodCtrl_expansionPVC_def kept_entry_def has_claim_def claim_entry_def IntToIntr32_def)
  qed
  have "sp_key sp2 = sp_key sp" using pvc(3) by (simp add: same_shape_def)
  then obtain sp' w' where fin: "run cl (StatefulPodCtrl_expansion env fuel sp (int i)) w = (Done (result0, None), w')"
    "Vs w' = (Vs w)(sp_key sp := written (sp_Meta sp) sp')" "Vp w' = Vp w" "Vc w' = Vc w" "pods_of sp' = put (int i) (pods_of sp ! i) (pods_of sp)"
    "pvcs_of sp' = put (int i) (kept_entry sp i (Vc w)) (pvcs_of sp)" "Spec sp' = Spec sp2" "sp_key sp' = sp_key sp"
    "Finalizers (sp_Meta sp') = Finalizers (sp_Meta sp2)" "DeletionTimestamp (sp_Meta sp') = DeletionTimestamp (sp_Meta sp)"
    using run_expansion_finish [OF assms(1,2) _ _ assms(12,6) pod pvc(1,2) _ assms(11)] assms(10) by auto
  have "same_shape sp sp'"
    by (rule same_shape_trans [OF pvc(3) same_shape_stored]) (use fin(7-9) pvc(3) in \<open>simp_all add: same_shape_def\<close>)
  with fin assms(10) len show ?thesis unfolding CoreCtrl_grow [OF assms(2-5)] by (auto simp: put_def)
qed

lemma status_settled:
  assumes "status_at sp0 n p c sp" "p \<le> n" "c \<le> n" "n \<le> Suc p" "n \<le> Suc c" "claims_wanted sp0 \<or> c = n" "int n \<le> target"
  shows "settled target (phases_of sp) = (if p = n \<and> c = n then int n else int n - 1)"
proof (cases n)
  case 0
  then show ?thesis using assms(1-3) by (simp add: status_at_def settled_def phases_of_def)
next
  case (Suc m)
  note l = status_at_lengths [OF assms(1)]
  have ne: "pods_of sp \<noteq> []" "pvcs_of sp \<noteq> []" using l Suc by auto
  then have "last (phases_of sp) = (ps_Status (pods_of sp ! m), pvs_Status (pvcs_of sp ! m))"
    using phases_last [OF l(1) ne(1)] l Suc by (simp add: last_conv_nth)
  moreover have "ps_Status (pods_of sp ! m) = (if m < p then ''Running'' else ''Preparing'')"
    "pvs_Status (pvcs_of sp ! m) = (if \<not> claims_wanted sp0 then '''' else if m < c then ''Bound'' else ''Pending'')"
    using assms(1) Suc by (simp_all add: status_at_def)
  moreover have "phases_of sp \<noteq> []" "length (phases_of sp) = n" using phases_length [OF l(1)] l(2) Suc by auto
  ultimately show ?thesis using assms(2-7) Suc by (auto simp: settled_def)
qed

lemma ask_grows:
  assumes "hosted cl env Vs Vp Vc Vv K B" "2 \<le> fuel" "repairable sp0" "Size (Spec sp0) = Some sz" "int_of_int32 sz = int N"
    "staged Vs Vp Vc Vv sp0 N (Stage n n n) w" "n < N" "w' = snd (run cl (Reconcile env fuel (sp_key sp0)) w)"
  shows "staged Vs Vp Vc Vv sp0 N (Stage (Suc n) n (if claims_wanted sp0 then n else Suc n)) w' \<and> touches Vs Vp Vc sp0 n w w'"
proof -
  note h = hostedD [OF assms(1)]
  note c = cooperativeD [OF h(1)]
  have le: "min n N = n" "min (Suc n) N = Suc n" using assms(7) by simp_all
  obtain sp where sp: "Vs w (sp_key sp0) = Some sp" and g0: "grown_from sp0 sp" and st: "status_at sp0 n n n sp"
    and ready: "service_ready Vv sp0 w" and ch: "child_at Vp Vc sp0 n n n n w"
    using assms(6,7) unfolding staged_def by (auto simp: le)
  note nm = grown_names [OF g0] and l = status_at_lengths [OF st]
  have "settled (int_of_int32 sz) (phases_of sp) = int n" using status_settled [OF st, of "int_of_int32 sz"] assms(5,7) by simp
  then have pre: "int n = settled (int_of_int32 sz) (phases_of sp)" "int n < int_of_int32 sz" "Size (Spec sp) = Some sz"
    "PVNames (Spec sp) = []" "Vs w (sp_key sp) = Some sp" "Vp w (pod_key sp n) = None"
    using assms(3-5,7) sp g0 ch by (simp_all add: nm grown_from_def repairable_def child_at_def)
  have tmpl: "claim_volume (Spec sp) \<and> StorageClassName t \<noteq> None \<and> Vc w (claim_key sp n) = None" if "PVCTemplate (Spec sp) = Some t" for t
    using that assms(3) g0 ch claim_volume_name [of sp] claim_volume_name [of sp0]
    by (auto simp: repairable_def grown_from_def child_at_def nm)
  have svc: "run cl (StatefulPodCtrl_expansionSvc env sp (int n)) w = (Done True, w)"
    using ready g0 by (intro run_expansionSvc [OF h(7)]) (simp add: service_ready_def nm grown_from_def)
  obtain sp' pod w1 where g: "run cl (StatefulPodCtrl_CoreCtrl env fuel sp) w = (Done (result0, None), w1)"
    "Vs w1 = (Vs w)(sp_key sp \<mapsto> sp')" "Vp w1 = (Vp w)(pod_key sp n \<mapsto> pod)"
    "child sp (PodService_GetName sp (int n)) (int n) (pod_Meta pod)" "claim_made sp (int n) (Vc w) (Vc w1)" "same_shape sp sp'"
    "pods_of sp' = put (int n) (fresh_entry sp n) (pods_of sp)" "pvcs_of sp' = put (int n) (claim_entry sp (int n)) (pvcs_of sp)"
    "DeletionTimestamp (sp_Meta sp') = DeletionTimestamp (sp_Meta sp)"
    using run_growth [where env = env, OF h(1) l(1) pre(3,1,2) svc pre(4) tmpl pre(6,5) assms(2)] by blast
  have w': "w' = w1" unfolding assms(8) by (simp add: run_Reconcile [OF optimistic_reads [OF c(1)] c(2,4)] sp g(1))
  have il: "n \<le> length (pods_of sp)" "n \<le> length (pvcs_of sp)" using l by simp_all
  note at = put_entries [OF il(1)] put_entries [OF il(2)]
  have made: "if claims_wanted sp0 then own_claim Vc sp0 n False w' \<and> (\<forall>k. k \<noteq> claim_key sp0 n \<longrightarrow> Vc w' k = Vc w k) else Vc w' = Vc w"
    using g(5) by (auto simp: claim_made_def own_claim_def w' nm)
  have t: "touches Vs Vp Vc sp0 n w w'" using made g(2,3) by (auto simp: touches_def w' nm split: if_splits)
  have status: "status_at sp0 (Suc n) n (if claims_wanted sp0 then n else Suc n) sp'"
    unfolding status_at_def
  proof (intro conjI)
    show "wf_sp sp'" by (rule wf_put [OF l(1) il(1) _ claim_entry_index g(7,8)]) simp
    show "length (pods_of sp') = Suc n" using l by (simp add: g(7) at)
    have "status_at sp0 n n n sp" by (rule st)
    then show "\<forall>i < Suc n. PodName (pods_of sp' ! i) = PodService_GetName sp0 (int i) \<and>
     ps_Status (pods_of sp' ! i) = (if i < n then ''Running'' else ''Preparing'') \<and>
     pvs_Status (pvcs_of sp' ! i) = (if \<not> claims_wanted sp0 then '''' else
       if i < (if claims_wanted sp0 then n else Suc n) then ''Bound'' else ''Pending'')"
      using l by (auto simp: status_at_def g(7,8) at nm claim_entry_status less_Suc_eq)
  qed
  have "child_at Vp Vc sp0 (Suc n) n (if claims_wanted sp0 then n else Suc n) n w'"
    using g(3,4) made by (auto simp: child_at_def w' nm)
  moreover have "service_ready Vv sp0 w'" unfolding assms(8) by (rule service_ready_run [OF h(2) ready])
  moreover have "proper (claims_wanted sp0) N (Stage (Suc n) n (if claims_wanted sp0 then n else Suc n))"
    using assms(7) by (simp add: proper_def)
  moreover have "Vs w' (sp_key sp0) = Some sp'" "grown_from sp0 sp'"
    using g(2) grown_from_shape [OF g0 g(6,9)] by (simp_all add: w' nm)
  ultimately show ?thesis
    using t assms(7) status le by (intro conjI staged_moved [OF assms(6,3) t, of _ sp']) auto
qed

lemma ask_waits:
  assumes "hosted cl env Vs Vp Vc Vv K B" "2 \<le> fuel" "repairable sp0" "Size (Spec sp0) = Some sz" "int_of_int32 sz = int N"
    "staged Vs Vp Vc Vv sp0 N (Stage (Suc i) p c) w" "i < N" "p \<noteq> Suc i \<or> c \<noteq> Suc i" "w' = snd (run cl (Reconcile env fuel (sp_key sp0)) w)"
  shows "staged Vs Vp Vc Vv sp0 N (Stage (Suc i) p c) w' \<and> touches Vs Vp Vc sp0 i w w'"
proof -
  note h = hostedD [OF assms(1)]
  note co = cooperativeD [OF h(1)]
  have le: "min (Suc i) N = Suc i" using assms(7) by simp
  obtain sp where sp: "Vs w (sp_key sp0) = Some sp" and g0: "grown_from sp0 sp" and st: "status_at sp0 (Suc i) p c sp"
    and ready: "service_ready Vv sp0 w" and ch: "child_at Vp Vc sp0 (Suc i) p c i w" and pr: "proper (claims_wanted sp0) N (Stage (Suc i) p c)"
    using assms(6) unfolding staged_def by (auto simp: le)
  note nm = grown_names [OF g0] and l = status_at_lengths [OF st]
  have b: "p \<le> Suc i" "c \<le> Suc i" "Suc i \<le> Suc p" "Suc i \<le> Suc c" "claims_wanted sp0 \<or> c = Suc i" "int (Suc i) \<le> int_of_int32 sz"
    using pr assms(5,7) by (simp_all add: proper_def le del: not_None_eq)
  have "int i = settled (int_of_int32 sz) (phases_of sp)" using status_settled [OF st b] assms(8) by auto
  then have pre: "int i = settled (int_of_int32 sz) (phases_of sp)" "int i < int_of_int32 sz" "Size (Spec sp) = Some sz"
    "repairable sp" "Vs w (sp_key sp) = Some sp" "i < length (pods_of sp)" "claims_wanted sp \<Longrightarrow> Vc w (claim_key sp i) \<noteq> None"
    using assms(3-5,7) sp g0 ch l claim_volume_name [of sp] claim_volume_name [of sp0]
    by (auto simp: nm grown_from_def repairable_def child_at_def own_claim_def)
  obtain pod where pod: "Vp w (pod_key sp i) = Some pod" using ch by (auto simp: child_at_def nm)
  have svc: "run cl (StatefulPodCtrl_expansionSvc env sp (int i)) w = (Done True, w)"
    using ready g0 by (intro run_expansionSvc [OF h(7)]) (simp add: service_ready_def nm grown_from_def)
  obtain sp' w1 where g: "run cl (StatefulPodCtrl_CoreCtrl env fuel sp) w = (Done (result0, None), w1)"
    "Vs w1 = (Vs w)(sp_key sp \<mapsto> sp')" "Vp w1 = Vp w" "Vc w1 = Vc w" "same_shape sp sp'" "pods_of sp' = pods_of sp"
    "pvcs_of sp' = (pvcs_of sp)[i := kept_entry sp i (Vc w)]" "DeletionTimestamp (sp_Meta sp') = DeletionTimestamp (sp_Meta sp)"
    using run_regrow [where env = env, OF h(1) l(1) pre(3,1,2) svc pre(4) pod pre(7,6,5) assms(2)] by blast
  have w': "w' = w1" unfolding assms(9) by (simp add: run_Reconcile [OF optimistic_reads [OF co(1)] co(2,4)] sp g(1))
  have t: "touches Vs Vp Vc sp0 i w w'" using g(2-4) by (simp add: touches_def w' nm)
  have kept: "pvs_Index (kept_entry sp i (Vc w)) = pvs_Index (pvcs_of sp ! i)" "pvs_Status (kept_entry sp i (Vc w)) = pvs_Status (pvcs_of sp ! i)"
    using pre(7) st l(1) l(3) by (auto simp: kept_entry_def has_claim_def claim_entry_index claim_entry_status nm status_at_def wf_status_def)
  have "status_at sp0 (Suc i) p c sp'"
    unfolding status_at_def
  proof (intro conjI)
    show "wf_sp sp'" using wf_status_pvc [OF l(1) _ kept(1)] l(3) g(6,7) by (simp add: wf_status_def)
    show "length (pods_of sp') = Suc i" using l(2) g(6) by simp
    show "\<forall>j < Suc i. PodName (pods_of sp' ! j) = PodService_GetName sp0 (int j) \<and>
     ps_Status (pods_of sp' ! j) = (if j < p then ''Running'' else ''Preparing'') \<and>
     pvs_Status (pvcs_of sp' ! j) = (if \<not> claims_wanted sp0 then '''' else if j < c then ''Bound'' else ''Pending'')"
    proof (intro allI impI)
      fix j assume "j < Suc i"
      moreover have "pvs_Status (pvcs_of sp' ! j) = pvs_Status (pvcs_of sp ! j)"
        using kept(2) l(3) by (cases "j = i") (simp_all add: g(7))
      ultimately show "PodName (pods_of sp' ! j) = PodService_GetName sp0 (int j) \<and>
     ps_Status (pods_of sp' ! j) = (if j < p then ''Running'' else ''Preparing'') \<and>
     pvs_Status (pvcs_of sp' ! j) = (if \<not> claims_wanted sp0 then '''' else if j < c then ''Bound'' else ''Pending'')"
        using st by (simp add: status_at_def g(6))
    qed
  qed
  moreover have "child_at Vp Vc sp0 (Suc i) p c i w'" using ch by (simp add: child_at_def own_claim_def w' g(3,4))
  moreover have "service_ready Vv sp0 w'" unfolding assms(9) by (rule service_ready_run [OF h(2) ready])
  moreover have "Vs w' (sp_key sp0) = Some sp'" "grown_from sp0 sp'"
    using g(2) grown_from_shape [OF g0 g(5,8)] by (simp_all add: w' nm)
  ultimately show ?thesis
    using t assms(7) pr le by (intro conjI staged_moved [OF assms(6,3) t, of _ sp']) auto
qed

lemma status_agrees:
  assumes "status_at sp0 n n c sp" "grown_from sp0 sp" "\<And>i. child_at Vp Vc sp0 n n c i w"
  shows "\<forall>e \<in> set (pods_of sp). entry_ok (Vp w) (Namespace (sp_Meta sp)) e"
proof
  fix e assume "e \<in> set (pods_of sp)"
  then obtain i where i: "i < n" "e = pods_of sp ! i" using assms(1) by (auto simp: in_set_conv_nth status_at_def)
  then have "PodName e = PodService_GetName sp0 (int i)" "ps_Status e = ''Running''" using assms(1) by (simp_all add: status_at_def)
  then show "entry_ok (Vp w) (Namespace (sp_Meta sp)) e"
    using assms(3) [of i] i(1) by (auto simp: child_at_def entry_ok_def grown_names [OF assms(2)])
qed

lemma ask_completes:
  assumes "hosted cl env Vs Vp Vc Vv K B" "2 \<le> fuel" "repairable sp0" "Size (Spec sp0) = Some sz" "int_of_int32 sz = int N"
    "IsZero (DeletionTimestamp (sp_Meta sp0))" "staged Vs Vp Vc Vv sp0 N (Stage a N N) w" "N \<le> a"
    "w' = snd (run cl (Reconcile env fuel (sp_key sp0)) w)"
  shows "staged Vs Vp Vc Vv sp0 N (Stage (Suc N) N N) w' \<and> touches Vs Vp Vc sp0 N w w'"
proof -
  note h = hostedD [OF assms(1)]
  note c = cooperativeD [OF h(1)]
  have le: "min a N = N" using assms(8) by simp
  obtain sp where sp: "Vs w (sp_key sp0) = Some sp" and g0: "grown_from sp0 sp" and st: "status_at sp0 N N N sp"
    and ready: "service_ready Vv sp0 w" and ch: "\<And>i. child_at Vp Vc sp0 N N N i w"
    using assms(7) unfolding staged_def by (auto simp: le)
  note nm = grown_names [OF g0] and l = status_at_lengths [OF st]
  have pre: "Size (Spec sp) = Some sz" "settled (int_of_int32 sz) (phases_of sp) = int_of_int32 sz" "IsZero (DeletionTimestamp (sp_Meta sp))"
    "Vs w (sp_key sp) = Some sp"
    using g0 assms(4-6) sp status_settled [OF st, of "int_of_int32 sz"] by (simp_all add: grown_from_def)
  obtain sp1 w1 where r: "run cl (StatefulPodCtrl_CoreCtrl env fuel sp) w = (Done (result0, None), w1)"
    "Vs w1 = (Vs w)(sp_key sp \<mapsto> sp1)" "Vp w1 = Vp w" "Vc w1 = Vc w" "Spec sp1 = Spec sp" "Status sp1 = Status sp" "sp_key sp1 = sp_key sp"
    "GroupVersion_String \<in> set (Finalizers (sp_Meta sp1))" "DeletionTimestamp (sp_Meta sp1) = DeletionTimestamp (sp_Meta sp)"
    by (rule run_complete [OF h(1) assms(2) l(1) pre status_agrees [OF st g0 ch]])
  have w': "w' = w1" unfolding assms(9) by (simp add: run_Reconcile [OF optimistic_reads [OF c(1)] c(2,4)] sp r(1))
  have t: "touches Vs Vp Vc sp0 N w w'" using r(2-4) by (simp add: touches_def w' nm)
  have "grown_from sp0 sp1" using g0 r(5,7,9) claim_name_stored [OF r(5,7)] by (simp add: grown_from_def)
  moreover have "status_at sp0 N N N sp1" using st by (simp add: status_at_def r(6))
  moreover have "child_at Vp Vc sp0 N N N N w'" using ch [of N] by (simp add: child_at_def own_claim_def w' r(3,4))
  moreover have "service_ready Vv sp0 w'" unfolding assms(9) by (rule service_ready_run [OF h(2) ready])
  moreover have "Vs w' (sp_key sp0) = Some sp1" using r(2) by (simp add: w' nm)
  ultimately show ?thesis
    using t le r(8) by (intro conjI staged_moved [OF assms(7,3) t, of _ sp1]) (auto simp: proper_def)
qed

text \<open>Whatever the stage, asking takes it where the abstract machine says.\<close>

lemma ask_moves:
  assumes "hosted cl env Vs Vp Vc Vv K B" "2 \<le> fuel" "repairable sp0" "Size (Spec sp0) = Some sz" "int_of_int32 sz = int N"
    "IsZero (DeletionTimestamp (sp_Meta sp0))" "staged Vs Vp Vc Vv sp0 N s w"
    "w' = snd (run cl (Reconcile env fuel (sp_key sp0)) w)"
  shows "staged Vs Vp Vc Vv sp0 N (advance (claims_wanted sp0) N Ask s) w' \<and> (\<exists>i. touches Vs Vp Vc sp0 i w w')"
proof -
  obtain a p c where s: "s = Stage a p c" by (cases s)
  have pr: "proper (claims_wanted sp0) N (Stage a p c)" using assms(7) by (simp add: staged_def s)
  consider "a < N" "p = a" "c = a" | "N \<le> a" "p = N" "c = N" | i where "a = Suc i" "i < N" "p \<noteq> Suc i \<or> c \<noteq> Suc i"
  proof (cases "p = a \<and> c = a \<or> a = Suc N")
    case True
    then show thesis using pr that(1,2) by (cases "a < N") (auto simp: proper_def)
  next
    case False
    then show thesis using pr that(3) [of "a - 1"] by (cases a) (auto simp: proper_def)
  qed
  then show ?thesis
  proof cases
    case 1
    then show ?thesis using ask_grows [OF assms(1-5) _ _ assms(8), of a] assms(7) by (auto simp: s)
  next
    case 2
    have "a \<le> Suc N" using pr by (simp add: proper_def)
    then have "a = N \<or> a = Suc N" using 2(1) by linarith
    then have "advance (claims_wanted sp0) N Ask s = Stage (Suc N) N N" by (elim disjE) (simp_all add: s 2(2,3))
    then show ?thesis using ask_completes [OF assms(1-6) _ _ assms(8), of a] assms(7) 2 by (auto simp: s)
  next
    case 3
    then have "advance (claims_wanted sp0) N Ask s = s" by (auto simp: s)
    then show ?thesis using ask_waits [OF assms(1-5) _ _ _ assms(8), of i p c] assms(7) 3 by (auto simp: s)
  qed
qed

section \<open>Pods and claims\<close>

lemma ordinal_small: "int_of_int32 sz = int N \<Longrightarrow> i < N \<Longrightarrow> int i < 2 ^ 63"
  using int_of_int32_less [of sz] by simp

lemma pod_moves:
  assumes "hosted cl env Vs Vp Vc Vv K B" "2 \<le> fuel" "repairable sp0" "int_of_int32 sz = int N"
    "staged Vs Vp Vc Vv sp0 N s w" "w' = happen cl env fuel K B Vp Vc sp0 (PodUp i) w"
  shows "staged Vs Vp Vc Vv sp0 N (advance (claims_wanted sp0) N (PodUp i) s) w' \<and> touches Vs Vp Vc sp0 i w w'"
proof (cases "i < min (asked s) N")
  case False
  then have "child_at Vp Vc sp0 (min (asked s) N) (started s) (settled_claims s) i w" using assms(5) by (simp add: staged_def)
  then have "w' = w" using False by (simp add: assms(6) happen_def child_at_def)
  moreover have "advance (claims_wanted sp0) N (PodUp i) s = s" using False by (cases s) auto
  ultimately show ?thesis using assms(5) by (simp add: touches_def)
next
  case True
  obtain a p c where s: "s = Stage a p c" by (cases s)
  define n where "n = min a N"
  define p' where "p' = (if i = p then Suc p else p)"
  have i: "i < n" "i < N" "i \<le> p" and pr: "proper (claims_wanted sp0) N s" using True assms(5) by (auto simp: s n_def staged_def proper_def)
  have adv: "advance (claims_wanted sp0) N (PodUp i) s = Stage a p' c" using i(1) by (simp add: s p'_def n_def)
  obtain sp where sp: "Vs w (sp_key sp0) = Some sp" and g0: "grown_from sp0 sp" and st: "status_at sp0 n p c sp"
    and fin: "a = Suc N \<Longrightarrow> GroupVersion_String \<in> set (Finalizers (sp_Meta sp))"
    and clear: "names_clear Vs Vp sp0 w" and ready: "service_ready Vv sp0 w" and ch: "child_at Vp Vc sp0 n p c i w"
    using assms(5) unfolding staged_def s by (auto simp: n_def)
  note nm = grown_names [OF g0] and l = status_at_lengths [OF st]
  obtain pod where pod: "Vp w (pod_key sp0 i) = Some pod" "child sp0 (PodService_GetName sp0 (int i)) (int i) (pod_Meta pod)"
    using ch i(1) by (auto simp: child_at_def)
  have prem: "Vs w (sp_key sp) = Some sp" "Vs w (pod_key sp i) = None" "Vp w (pod_key sp i) = Some pod"
    "child sp (PodService_GetName sp (int i)) (int i) (pod_Meta pod)" "i < length (pods_of sp)"
    using sp clear pod i(1) l(2) by (simp_all add: nm names_clear_def)
  have at: "w' = snd (run cl (Reconcile env fuel (pod_key sp i)) (K (pod_key sp i) w))"
    using pod(1) by (simp add: assms(6) happen_def nm)
  obtain sp' pod' where r: "Vs w' = (Vs w)(sp_key sp \<mapsto> sp')" "Vp w' (pod_key sp i) = Some pod'" "PodCtrl_isPodRunning pod'"
    "pod_Meta pod' = pod_Meta pod" "\<forall>m. m \<noteq> pod_key sp i \<longrightarrow> Vp w' m = Vp w m" "Vc w' = Vc w" "same_shape sp sp'" "wf_sp sp'"
    "DeletionTimestamp (sp_Meta sp') = DeletionTimestamp (sp_Meta sp)"
    "pods_of sp' = (if ps_Status (pods_of sp ! i) = ''Running'' then pods_of sp else (pods_of sp)[i := running_entry pod' (pods_of sp ! i)])"
    "pvcs_of sp' = pvcs_of sp" "\<forall>sp0. service_ready Vv sp0 w \<longrightarrow> service_ready Vv sp0 w'"
    by (rule pod_event [OF assms(1,2) prem(1) l(1) prem(2-5) ordinal_small [OF assms(4) i(2)] at])
  have t: "touches Vs Vp Vc sp0 i w w'" using r(1,5,6) by (simp add: touches_def nm)
  have "status_at sp0 n p' c sp'"
    using st i pod(2) r(4) l by (auto simp: status_at_def r(8,10,11) p'_def nth_list_update running_entry_def child_def)
  moreover have "child_at Vp Vc sp0 n p' c i w'" using ch pod(2) i(1) r(2-4) by (simp add: child_at_def own_claim_def r(6) nm)
  moreover have "proper (claims_wanted sp0) N (Stage a p' c)" using proper_advance [OF pr, of "PodUp i"] unfolding adv .
  moreover have "j < p' \<longrightarrow> j < p" if "j \<noteq> i" for j using that by (auto simp: p'_def)
  moreover have "service_ready Vv sp0 w'" using r(12) ready by blast
  moreover have "grown_from sp0 sp'" "Finalizers (sp_Meta sp') = Finalizers (sp_Meta sp)"
    using grown_from_shape [OF g0 r(7,9)] r(7) by (simp_all add: same_shape_def)
  ultimately have "staged Vs Vp Vc Vv sp0 N (Stage a p' c) w'"
    using r(1) fin by (intro staged_moved [OF assms(5,3) t, of _ sp']) (simp_all add: s n_def nm)
  then show ?thesis using t unfolding adv by (rule conjI)
qed

lemma claim_moves:
  assumes "hosted cl env Vs Vp Vc Vv K B" "2 \<le> fuel" "repairable sp0" "int_of_int32 sz = int N"
    "staged Vs Vp Vc Vv sp0 N s w" "w' = happen cl env fuel K B Vp Vc sp0 (ClaimUp i) w"
  shows "staged Vs Vp Vc Vv sp0 N (advance (claims_wanted sp0) N (ClaimUp i) s) w' \<and> touches Vs Vp Vc sp0 i w w'"
proof (cases "claims_wanted sp0 \<and> i < min (asked s) N")
  case False
  have "child_at Vp Vc sp0 (min (asked s) N) (started s) (settled_claims s) i w" using assms(5) by (simp add: staged_def)
  then have "w' = w" using False by (auto simp: assms(6) happen_def child_at_def)
  moreover have "advance (claims_wanted sp0) N (ClaimUp i) s = s" using False by (cases s) auto
  ultimately show ?thesis using assms(5) by (simp add: touches_def)
next
  case True
  obtain a p c where s: "s = Stage a p c" by (cases s)
  define n where "n = min a N"
  define c' where "c' = (if i = c then Suc c else c)"
  have i: "i < n" "i < N" "i \<le> c" "claims_wanted sp0" and pr: "proper (claims_wanted sp0) N s"
    using True assms(5) by (auto simp: s n_def staged_def proper_def)
  have adv: "advance (claims_wanted sp0) N (ClaimUp i) s = Stage a p c'" using i by (auto simp: s c'_def n_def)
  obtain sp where sp: "Vs w (sp_key sp0) = Some sp" and g0: "grown_from sp0 sp" and st: "status_at sp0 n p c sp"
    and fin: "a = Suc N \<Longrightarrow> GroupVersion_String \<in> set (Finalizers (sp_Meta sp))"
    and clear: "names_clear Vs Vp sp0 w" and ready: "service_ready Vv sp0 w" and ch: "child_at Vp Vc sp0 n p c i w"
    using assms(5) unfolding staged_def s by (auto simp: n_def)
  note nm = grown_names [OF g0] and l = status_at_lengths [OF st]
  obtain pvc where pvc: "Vc w (claim_key sp0 i) = Some pvc" "child sp0 (claim_name sp0 (int i)) (int i) (pvc_Meta pvc)"
    using ch i(1,4) by (auto simp: child_at_def own_claim_def)
  have prem: "Vs w (sp_key sp) = Some sp" "Vs w (claim_key sp i) = None" "Vp w (claim_key sp i) = None" "Vc w (claim_key sp i) = Some pvc"
    "child sp (claim_name sp (int i)) (int i) (pvc_Meta pvc)" "i < length (pvcs_of sp)"
    using sp clear pvc i l(3) by (simp_all add: nm names_clear_def)
  have at: "w' = snd (run cl (Reconcile env fuel (claim_key sp i)) (B (claim_key sp i) w))"
    using pvc(1) i(4) by (simp add: assms(6) happen_def nm)
  obtain sp' pvc' where r: "Vs w' = (Vs w)(sp_key sp \<mapsto> sp')" "Vc w' (claim_key sp i) = Some pvc'" "pvc_Phase pvc' = ''Bound''"
    "pvc_Meta pvc' = pvc_Meta pvc" "\<forall>m. m \<noteq> claim_key sp i \<longrightarrow> Vc w' m = Vc w m" "Vp w' = Vp w" "same_shape sp sp'" "wf_sp sp'"
    "DeletionTimestamp (sp_Meta sp') = DeletionTimestamp (sp_Meta sp)"
    "pvcs_of sp' = (if pvs_Status (pvcs_of sp ! i) = ''Bound'' then pvcs_of sp else (pvcs_of sp)[i := bound_entry env pvc' (pvcs_of sp ! i)])"
    "pods_of sp' = pods_of sp" "\<forall>sp0. service_ready Vv sp0 w \<longrightarrow> service_ready Vv sp0 w'"
    by (rule claim_event [OF assms(1,2) prem(1) l(1) prem(2-6) ordinal_small [OF assms(4) i(2)] at])
  have t: "touches Vs Vp Vc sp0 i w w'" using r(1,5,6) i(4) by (simp add: touches_def nm)
  have "status_at sp0 n p c' sp'"
    using st i l by (auto simp: status_at_def r(8,10,11) c'_def nth_list_update bound_entry_def)
  moreover have "child_at Vp Vc sp0 n p c' i w'" using ch pvc(2) i(1) r(2-4) by (simp add: child_at_def own_claim_def r(6) nm)
  moreover have "proper (claims_wanted sp0) N (Stage a p c')" using proper_advance [OF pr, of "ClaimUp i"] unfolding adv .
  moreover have "j < c' \<longrightarrow> j < c" if "j \<noteq> i" for j using that by (auto simp: c'_def)
  moreover have "service_ready Vv sp0 w'" using r(12) ready by blast
  moreover have "grown_from sp0 sp'" "Finalizers (sp_Meta sp') = Finalizers (sp_Meta sp)"
    using grown_from_shape [OF g0 r(7,9)] r(7) by (simp_all add: same_shape_def)
  ultimately have "staged Vs Vp Vc Vv sp0 N (Stage a p c') w'"
    using r(1) fin by (intro staged_moved [OF assms(5,3) t, of _ sp']) (simp_all add: s n_def nm)
  then show ?thesis using t unfolding adv by (rule conjI)
qed

text \<open>All moves together.\<close>

lemma moves:
  assumes "hosted cl env Vs Vp Vc Vv K B" "2 \<le> fuel" "repairable sp0" "Size (Spec sp0) = Some sz" "int_of_int32 sz = int N"
    "IsZero (DeletionTimestamp (sp_Meta sp0))" "staged Vs Vp Vc Vv sp0 N s w"
  shows "staged Vs Vp Vc Vv sp0 N (advance (claims_wanted sp0) N m s) (happen cl env fuel K B Vp Vc sp0 m w) \<and>
    (\<exists>i. touches Vs Vp Vc sp0 i w (happen cl env fuel K B Vp Vc sp0 m w))"
proof (cases m)
  case Ask
  then show ?thesis using ask_moves [OF assms refl] by (simp add: happen_def)
next
  case (PodUp i)
  then show ?thesis using pod_moves [OF assms(1-3,5,7) refl] by blast
next
  case (ClaimUp i)
  then show ?thesis using claim_moves [OF assms(1-3,5,7) refl] by blast
qed

end
