(* ===== verification/Fleet.thy ===== *)
theory Fleet
  imports Progress
begin

text \<open>
  Several StatefulPods at once. Any schedule of their moves takes each of them through the stages of its own moves, undisturbed by the
  others and by moves that come twice, too early or in another order; and if the moves that are needed are among them, all of them
  are complete in the end. This composes everything that a growing StatefulPod goes through, for any number of them.
\<close>

section \<open>Names\<close>

text \<open>Two StatefulPods whose children have different names. Pods cannot clash, claims can (\<open>claim\_names\_collide\<close>).\<close>

definition apart :: "StatefulPod \<Rightarrow> StatefulPod \<Rightarrow> bool" where
  "apart x y \<longleftrightarrow> sp_key x \<noteq> sp_key y \<and> (claims_wanted x \<longrightarrow> (\<forall>i j. claim_key x i \<noteq> pod_key y j \<and>
     (claims_wanted y \<longrightarrow> claim_key x i \<noteq> claim_key y j)))"

lemma pods_apart:
  assumes "sp_key x \<noteq> sp_key y"
  shows "pod_key x i \<noteq> pod_key y j"
proof
  assume e: "pod_key x i = pod_key y j"
  then have "Name (sp_Meta x) @ ''-'' @ Itoa (int i) = Name (sp_Meta y) @ ''-'' @ Itoa (int j)" by (simp add: PodService_GetName_def)
  from append_dash_digits [OF this] have "Name (sp_Meta x) = Name (sp_Meta y)" by (simp add: Itoa_no_dash)
  with e assms show False by simp
qed

lemma apart_namespace:
  assumes "Namespace (sp_Meta x) \<noteq> Namespace (sp_Meta y)"
  shows "apart x y"
  using assms by (simp add: apart_def)

section \<open>A move of another StatefulPod\<close>

lemma staged_frame:
  assumes "staged Vs Vp Vc Vv y N s w" "touches Vs Vp Vc x i w w'" "apart x y" "apart y x" "Vs w (sp_key x) \<noteq> None"
    "service_ready Vv y w'"
  shows "staged Vs Vp Vc Vv y N s w'"
proof -
  have t: "\<And>k. k \<noteq> sp_key x \<Longrightarrow> Vs w' k = Vs w k" "\<And>k. k \<noteq> pod_key x i \<Longrightarrow> Vp w' k = Vp w k"
    "\<And>k. \<not> (claims_wanted x \<and> k = claim_key x i) \<Longrightarrow> Vc w' k = Vc w k"
    using assms(2) unfolding touches_def by blast+
  have key: "sp_key y \<noteq> sp_key x" using assms(4) unfolding apart_def by blast
  note ne = key pods_apart [OF key]
  have cl: "claim_key y j \<noteq> pod_key x i" "claims_wanted x \<Longrightarrow> claim_key y j \<noteq> claim_key x i" if "claims_wanted y" for j
    using assms(4) that unfolding apart_def by blast+
  have clear: "names_clear Vs Vp y w" using assms(1) by (simp add: staged_def)
  have s: "Vs w' (sp_key y) = Vs w (sp_key y)" "Vp w' (pod_key y j) = Vp w (pod_key y j)" for j
    by (rule t(1) [OF ne(1)], rule t(2) [OF ne(2)])
  have v: "Vp w' (claim_key y j) = Vp w (claim_key y j)" "Vc w' (claim_key y j) = Vc w (claim_key y j)" if "claims_wanted y" for j
    by (rule t(2) [OF cl(1) [OF that]], rule t(3)) (use cl(2) [OF that] in blast)
  have k: "Vs w' k = Vs w k" if "Vs w k = None" for k by (rule t(1)) (use that assms(5) in metis)
  have "names_clear Vs Vp y w'"
    unfolding names_clear_def
  proof (intro allI conjI impI)
    fix j show "Vs w' (pod_key y j) = None" using clear k by (simp add: names_clear_def)
  next
    fix j assume "claims_wanted y"
    then show "Vs w' (claim_key y j) = None" "Vp w' (claim_key y j) = None" using clear k v by (simp_all add: names_clear_def)
  qed
  moreover have "child_at Vp Vc y n p c j w' = child_at Vp Vc y n p c j w" for n p c j
    unfolding child_at_def own_claim_def s(2) using v(2) by auto
  ultimately show ?thesis using assms(1,6) unfolding staged_def s(1) by simp
qed

lemma service_ready_happen:
  assumes "hosted cl env Vs Vp Vc Vv K B" "service_ready Vv y w"
  shows "service_ready Vv y (happen cl env fuel K B Vp Vc x m w)"
proof -
  note h = hostedD [OF assms(1)]
  have "service_ready Vv y (K k w)" "service_ready Vv y (B k w)" for k using assms(2) by (simp_all add: service_ready_def h(5,6))
  then show ?thesis using assms(2) service_ready_run [OF h(2)] by (simp add: happen_def split: move.split)
qed

section \<open>Schedules\<close>

text \<open>A schedule says whose move comes when.\<close>

definition happens :: "'w client \<Rightarrow> Env \<Rightarrow> nat \<Rightarrow> (NamespacedName \<Rightarrow> 'w \<Rightarrow> 'w) \<Rightarrow> (NamespacedName \<Rightarrow> 'w \<Rightarrow> 'w) \<Rightarrow>
    ('w \<Rightarrow> NamespacedName \<Rightarrow> Pod option) \<Rightarrow> ('w \<Rightarrow> NamespacedName \<Rightarrow> PVC option) \<Rightarrow> (StatefulPod \<times> move) list \<Rightarrow> 'w \<Rightarrow> 'w" where
  "happens cl env fuel K B Vp Vc sched w = fold (\<lambda>(x, m). happen cl env fuel K B Vp Vc x m) sched w"

definition moves_of :: "StatefulPod \<Rightarrow> (StatefulPod \<times> move) list \<Rightarrow> move list" where
  "moves_of x sched = map snd (filter (\<lambda>e. fst e = x) sched)"

definition target :: "StatefulPod \<Rightarrow> nat" where
  "target sp = (case Size (Spec sp) of None \<Rightarrow> 0 | Some sz \<Rightarrow> nat (int_of_int32 sz))"

definition growable :: "StatefulPod \<Rightarrow> bool" where
  "growable sp \<longleftrightarrow> repairable sp \<and> IsZero (DeletionTimestamp (sp_Meta sp)) \<and> (\<exists>sz. Size (Spec sp) = Some sz \<and> 0 < int_of_int32 sz)"

definition fleet :: "StatefulPod set \<Rightarrow> bool" where
  "fleet F \<longleftrightarrow> (\<forall>x \<in> F. growable x \<and> (\<forall>y \<in> F. x \<noteq> y \<longrightarrow> apart x y))"

definition stage_after :: "StatefulPod \<Rightarrow> move list \<Rightarrow> stage \<Rightarrow> stage" where
  "stage_after x = fold (advance (claims_wanted x) (target x))"

lemma growableD:
  assumes "growable sp"
  obtains sz where "repairable sp" "IsZero (DeletionTimestamp (sp_Meta sp))" "Size (Spec sp) = Some sz" "int_of_int32 sz = int (target sp)"
    "0 < target sp"
  using assms unfolding growable_def target_def by (auto split: option.splits)

lemma fleet_move:
  assumes "hosted cl env Vs Vp Vc Vv K B" "2 \<le> fuel" "fleet F" "x \<in> F" "\<forall>y \<in> F. staged Vs Vp Vc Vv y (target y) (st y) w" "y \<in> F"
  shows "staged Vs Vp Vc Vv y (target y) (if y = x then advance (claims_wanted x) (target x) m (st x) else st y)
    (happen cl env fuel K B Vp Vc x m w)"
proof -
  define w' where "w' = happen cl env fuel K B Vp Vc x m w"
  have "growable x" using assms(3,4) by (simp add: fleet_def)
  then obtain sz where g: "repairable x" "IsZero (DeletionTimestamp (sp_Meta x))" "Size (Spec x) = Some sz" "int_of_int32 sz = int (target x)"
    by (rule growableD)
  have stx: "staged Vs Vp Vc Vv x (target x) (st x) w" using assms(4,5) by blast
  obtain i where m: "staged Vs Vp Vc Vv x (target x) (advance (claims_wanted x) (target x) m (st x)) w'" "touches Vs Vp Vc x i w w'"
    using moves [OF assms(1,2) g(1,3,4,2) stx, of m] unfolding w'_def by blast
  show ?thesis
  proof (cases "y = x")
    case False
    have "service_ready Vv y w" using assms(5,6) by (simp add: staged_def)
    then have "service_ready Vv y w'" unfolding w'_def by (rule service_ready_happen [OF assms(1)])
    moreover have "apart x y" "apart y x" using assms(3,4,6) False by (auto simp: fleet_def)
    moreover have "Vs w (sp_key x) \<noteq> None" using stx by (auto simp: staged_def)
    ultimately show ?thesis using staged_frame [OF _ m(2)] assms(5,6) False by (simp add: w'_def)
  qed (use m(1) in \<open>simp add: w'_def\<close>)
qed

lemma fleet_moves:
  assumes "hosted cl env Vs Vp Vc Vv K B" "2 \<le> fuel" "fleet F"
  shows "fst ` set sched \<subseteq> F \<Longrightarrow> \<forall>y \<in> F. staged Vs Vp Vc Vv y (target y) (st y) w \<Longrightarrow>
    \<forall>y \<in> F. staged Vs Vp Vc Vv y (target y) (stage_after y (moves_of y sched) (st y)) (happens cl env fuel K B Vp Vc sched w)"
proof (induction sched arbitrary: st w)
  case Nil
  then show ?case by (simp add: happens_def moves_of_def stage_after_def)
next
  case (Cons e sched)
  obtain x m where e: "e = (x, m)" by (cases e)
  define st' where "st' = (\<lambda>y. if y = x then advance (claims_wanted x) (target x) m (st x) else st y)"
  have "x \<in> F" using Cons.prems(1) e by simp
  then have "\<forall>y \<in> F. staged Vs Vp Vc Vv y (target y) (st' y) (happen cl env fuel K B Vp Vc x m w)"
    using fleet_move [OF assms _ Cons.prems(2), of x] unfolding st'_def by blast
  from Cons.IH [OF _ this] Cons.prems(1)
  have "\<forall>y \<in> F. staged Vs Vp Vc Vv y (target y) (stage_after y (moves_of y sched) (st' y)) (happens cl env fuel K B Vp Vc (e # sched) w)"
    by (simp add: happens_def e)
  moreover have "stage_after y (moves_of y (e # sched)) (st y) = stage_after y (moves_of y sched) (st' y)" for y
    by (simp add: stage_after_def moves_of_def e st'_def)
  ultimately show ?case by simp
qed


section \<open>The fleet is complete\<close>

text \<open>Before that, each StatefulPod is asked once if its service is missing.\<close>

definition serve_all :: "'w client \<Rightarrow> Env \<Rightarrow> nat \<Rightarrow> ('w \<Rightarrow> NamespacedName \<Rightarrow> Service option) \<Rightarrow> StatefulPod list \<Rightarrow> 'w \<Rightarrow> 'w" where
  "serve_all cl env fuel Vv xs w = fold (serve_first cl env fuel Vv) xs w"

definition newborn :: "('w \<Rightarrow> NamespacedName \<Rightarrow> StatefulPod option) \<Rightarrow> ('w \<Rightarrow> NamespacedName \<Rightarrow> Pod option) \<Rightarrow>
    ('w \<Rightarrow> NamespacedName \<Rightarrow> PVC option) \<Rightarrow> StatefulPod \<Rightarrow> 'w \<Rightarrow> bool" where
  "newborn Vs Vp Vc sp w \<longleftrightarrow> Vs w (sp_key sp) = Some sp \<and> pods_of sp = [] \<and> pvcs_of sp = [] \<and> unclaimed Vs Vp Vc sp w"

lemma newborn_staged:
  assumes "newborn Vs Vp Vc sp w" "service_ready Vv sp w"
  shows "staged Vs Vp Vc Vv sp N (Stage 0 0 0) w"
  using assms by (auto simp: newborn_def staged_def proper_def names_clear_def unclaimed_def grown_from_def status_at_def wf_status_def
      child_at_def)

lemma serve_first_frame:
  assumes "hosted cl env Vs Vp Vc Vv K B" "newborn Vs Vp Vc sp w" "growable sp" "w' = serve_first cl env fuel Vv sp w"
  shows "Vs w' = Vs w \<and> Vp w' = Vp w \<and> Vc w' = Vc w \<and> service_ready Vv sp w' \<and> (\<forall>x. service_ready Vv x w \<longrightarrow> service_ready Vv x w')"
proof (cases "service_ready Vv sp w")
  case True
  then show ?thesis using assms(4) by (simp add: serve_first_def)
next
  case False
  obtain sz where sz: "Size (Spec sp) = Some sz" "0 < int_of_int32 sz" using assms(3) by (auto simp: growable_def)
  have nb: "Vs w (sp_key sp) = Some sp" "pods_of sp = []" "pvcs_of sp = []" using assms(2) by (simp_all add: newborn_def)
  obtain w0 where w0: "run cl (Reconcile env fuel (sp_key sp)) w = (Done (requeue_wait, None), w0)"
    "Vs w0 = Vs w" "Vp w0 = Vp w" "Vc w0 = Vc w" "service_ready Vv sp w0" by (rule service_first [OF assms(1) nb sz False])
  have "service_ready Vv x w0" if "service_ready Vv x w" for x
    using service_ready_run [OF hostedD(2) [OF assms(1)] that, of env fuel "sp_key sp"] by (simp add: w0(1))
  with False w0 show ?thesis by (simp add: assms(4) serve_first_def)
qed

lemma newborn_frame: "Vs w' = Vs w \<Longrightarrow> Vp w' = Vp w \<Longrightarrow> Vc w' = Vc w \<Longrightarrow> newborn Vs Vp Vc sp w' = newborn Vs Vp Vc sp w"
  by (simp add: newborn_def unclaimed_def)

lemma serve_all_ready:
  assumes "hosted cl env Vs Vp Vc Vv K B"
  shows "\<forall>x \<in> set xs. newborn Vs Vp Vc x w \<and> growable x \<Longrightarrow> w' = serve_all cl env fuel Vv xs w \<Longrightarrow>
    Vs w' = Vs w \<and> Vp w' = Vp w \<and> Vc w' = Vc w \<and> (\<forall>x. service_ready Vv x w \<or> x \<in> set xs \<longrightarrow> service_ready Vv x w')"
proof (induction xs arbitrary: w)
  case (Cons x xs)
  define w1 where "w1 = serve_first cl env fuel Vv x w"
  have f: "Vs w1 = Vs w \<and> Vp w1 = Vp w \<and> Vc w1 = Vc w \<and> service_ready Vv x w1 \<and> (\<forall>x. service_ready Vv x w \<longrightarrow> service_ready Vv x w1)"
    by (rule serve_first_frame [OF assms _ _ w1_def]) (use Cons.prems(1) in simp_all)
  then have "\<forall>y \<in> set xs. newborn Vs Vp Vc y w1 \<and> growable y" using Cons.prems(1) newborn_frame [of Vs w1 w Vp Vc] by simp
  moreover have "w' = serve_all cl env fuel Vv xs w1" using Cons.prems(2) by (simp add: serve_all_def w1_def)
  ultimately show ?case using Cons.IH f by auto
qed (simp add: serve_all_def)

lemma staged_complete:
  assumes "hosted cl env Vs Vp Vc Vv K B" "growable sp" "staged Vs Vp Vc Vv sp (target sp) (Stage (Suc (target sp)) (target sp) (target sp)) w"
  shows "fully_settled Vs Vp Vc sp (target sp) w \<and> run cl (Reconcile env fuel (sp_key sp)) w = (Done (result0, None), w) \<and>
    (\<exists>sp'. Vs w (sp_key sp) = Some sp' \<and> GroupVersion_String \<in> set (Finalizers (sp_Meta sp'))) \<and>
    (\<forall>i \<ge> target sp. Vp w (pod_key sp i) = None \<and> (claims_wanted sp \<longrightarrow> Vc w (claim_key sp i) = None))"
proof -
  note c = cooperativeD [OF hostedD(1) [OF assms(1)]]
  define N where "N = target sp"
  obtain sz where g: "IsZero (DeletionTimestamp (sp_Meta sp))" "Size (Spec sp) = Some sz" "int_of_int32 sz = int N"
    using growableD [OF assms(2)] unfolding N_def by blast
  obtain sp' where sp': "Vs w (sp_key sp) = Some sp'" "grown_from sp sp'" "status_at sp N N N sp'" "GroupVersion_String \<in> set (Finalizers (sp_Meta sp'))"
    and ch: "\<And>i. child_at Vp Vc sp N N N i w"
    using assms(3) unfolding staged_def N_def [symmetric] by auto
  note l = status_at_lengths [OF sp'(3)]
  have s: "Size (Spec sp') = Some sz" "IsZero (DeletionTimestamp (sp_Meta sp'))" "settled (int_of_int32 sz) (phases_of sp') = int_of_int32 sz"
    using sp'(2) g status_settled [OF sp'(3), of "int_of_int32 sz"] by (simp_all add: grown_from_def)
  have "run cl (StatefulPodCtrl_CoreCtrl env fuel sp') w = (Done (result0, None), w)"
    by (rule run_steady [OF l(1) s(1,3,2) sp'(4) c(2) status_agrees [OF sp'(3,2) ch]])
  then have "run cl (Reconcile env fuel (sp_key sp)) w = (Done (result0, None), w)"
    by (simp add: run_Reconcile [OF optimistic_reads [OF c(1)] c(2,4)] sp'(1))
  moreover have up: "(\<exists>pod. Vp w (pod_key sp i) = Some pod \<and> PodCtrl_isPodRunning pod) \<and> (claims_wanted sp \<longrightarrow> own_claim Vc sp i True w)"
    if "i < N" for i using ch [of i] that by (auto simp: child_at_def)
  have "fully_settled Vs Vp Vc sp N w"
    unfolding fully_settled_def
  proof (intro exI [of _ sp'] conjI impI)
    show "getIndex sp' = Ret (int N)" using getIndex_settled [OF l(1) s(1)] s(3) g(3) by simp
    show "\<forall>p \<in> set (pods_of sp'). ps_Status p = ''Running''" using sp'(3) by (auto simp: status_at_def in_set_conv_nth)
    show "\<forall>i < N. \<exists>pod. Vp w (pod_key sp i) = Some pod \<and> PodCtrl_isPodRunning pod" using up by blast
  next
    assume cw: "claims_wanted sp"
    show "\<forall>v \<in> set (pvcs_of sp'). pvs_Status v = ''Bound''" using sp'(3) l cw by (auto simp: status_at_def in_set_conv_nth)
    show "\<forall>i < N. \<exists>pvc. Vc w (claim_key sp i) = Some pvc \<and> pvc_Phase pvc = ''Bound''"
      using up cw unfolding own_claim_def by blast
  qed (use sp'(1) l in simp_all)
  moreover have "Vp w (pod_key sp i) = None \<and> (claims_wanted sp \<longrightarrow> Vc w (claim_key sp i) = None)" if "N \<le> i" for i
    using ch [of i] that by (simp add: child_at_def)
  ultimately show ?thesis using sp'(1,4) unfolding N_def by blast
qed

text \<open>C7: a whole fleet converges. Take any list of StatefulPods of sizes above zero, with or without services and claims, whose children
  have different names, none being deleted, all with an empty status and nothing under the names of their children, without reserved volumes
  and, where there is a claim template, with a storage class in it and a claim volume first in the pod template; and the host of \<open>growth\_converges\<close>.
  Each is asked once if its service is missing; then comes any schedule in which, for each, the moves it needs are among
  its own in this order: for every ordinal below its size, asking for it, then its pod coming up and its claim getting bound, in either
  order, and asking a last time. Whatever else happens in between, to it or to the others: at the end every one
  has a complete status, all its pods run, all its claims are bound, it has its finalizer, no child of a further ordinal was created, and
  a further call changes nothing.\<close>

theorem fleet_converges:
  assumes "hosted cl env Vs Vp Vc Vv K B" "2 \<le> fuel" "fleet (set xs)" "\<forall>x \<in> set xs. newborn Vs Vp Vc x w" "fst ` set sched \<subseteq> set xs"
    "\<forall>x \<in> set xs. \<exists>first. subseq (agenda (claims_wanted x) first 0 (target x)) (moves_of x sched)"
    "w' = happens cl env fuel K B Vp Vc sched (serve_all cl env fuel Vv xs w)" "x \<in> set xs"
  shows "fully_settled Vs Vp Vc x (target x) w' \<and> run cl (Reconcile env fuel (sp_key x)) w' = (Done (result0, None), w') \<and>
    (\<exists>sp'. Vs w' (sp_key x) = Some sp' \<and> GroupVersion_String \<in> set (Finalizers (sp_Meta sp'))) \<and>
    (\<forall>i \<ge> target x. Vp w' (pod_key x i) = None \<and> (claims_wanted x \<longrightarrow> Vc w' (claim_key x i) = None))"
proof -
  define w1 where "w1 = serve_all cl env fuel Vv xs w"
  have grow: "\<forall>x \<in> set xs. growable x" using assms(3) by (simp add: fleet_def)
  then have served: "Vs w1 = Vs w" "Vp w1 = Vp w" "Vc w1 = Vc w" "\<forall>x \<in> set xs. service_ready Vv x w1"
    using serve_all_ready [OF assms(1) _ w1_def] assms(4) by auto
  have "\<forall>x \<in> set xs. staged Vs Vp Vc Vv x (target x) (Stage 0 0 0) w1"
  proof
    fix y assume "y \<in> set xs"
    then show "staged Vs Vp Vc Vv y (target y) (Stage 0 0 0) w1"
      using assms(4) newborn_frame [OF served(1-3)] served(4) by (intro newborn_staged) simp_all
  qed
  from fleet_moves [OF assms(1-3,5) this]
  have "staged Vs Vp Vc Vv x (target x) (stage_after x (moves_of x sched) (Stage 0 0 0)) w'"
    using assms(8) unfolding assms(7) w1_def [symmetric] by blast
  moreover have "stage_after x (moves_of x sched) (Stage 0 0 0) = Stage (Suc (target x)) (target x) (target x)"
    using assms(6,8) agenda_enough unfolding stage_after_def by blast
  ultimately show ?thesis using staged_complete [OF assms(1)] grow assms(8) by simp
qed

text \<open>A fleet of two in one namespace, \<open>db\<close> of size 2 with claims and \<open>web\<close> of size 1 without, and a schedule that mixes their moves.\<close>

definition web_sp :: StatefulPod where
  "web_sp = (let sp = demo_sp 1 [] in sp\<lparr>sp_Meta := (sp_Meta sp)\<lparr>Name := ''web''\<rparr>\<rparr>)"

definition fleet_world :: world where
  "fleet_world = empty_world\<lparr>sps := (\<lambda>_. None)(NN ''ns'' ''db'' \<mapsto> serving_sp 2 [], NN ''ns'' ''web'' \<mapsto> web_sp)\<rparr>"

definition mixed_schedule :: "(StatefulPod \<times> move) list" where
  "mixed_schedule = (let db = serving_sp 2 [] in
     [(db, PodUp 0), (db, Ask), (web_sp, Ask), (db, Ask), (db, ClaimUp 0), (web_sp, ClaimUp 0), (db, PodUp 1), (db, PodUp 0), (db, Ask),
      (web_sp, PodUp 0), (db, PodUp 1), (db, PodUp 0), (web_sp, Ask), (db, ClaimUp 1), (db, Ask)])"

lemma web_sp_simps:
  "sp_key web_sp = NN ''ns'' ''web''" "repairable web_sp" "PVCTemplate (Spec web_sp) = None" "Size (Spec web_sp) = Some (int32_of 1)"
  "IsZero (DeletionTimestamp (sp_Meta web_sp))" "pods_of web_sp = []" "pvcs_of web_sp = []"
  by (simp_all add: web_sp_def demo_defs Let_def repairable_def)

lemma demo_fleet: "fleet {serving_sp 2 [], web_sp}" "target (serving_sp 2 []) = 2" "target web_sp = 1" "serving_sp 2 [] \<noteq> web_sp"
proof -
  note s = serving_sp_simps [of 2 "[]"]
  note names = s(1) web_sp_simps(1)
  show "target (serving_sp 2 []) = 2" "target web_sp = 1" by (simp_all add: target_def s(4) web_sp_simps(4) int_of_int32_of)
  show ne: "serving_sp 2 [] \<noteq> web_sp" using names by force
  have vol: "claim_volume (Spec (serving_sp 2 []))" using s(2,3) by (auto simp: repairable_def)
  have "claim_key (serving_sp 2 []) i \<noteq> pod_key web_sp j" for i j
  proof
    assume "claim_key (serving_sp 2 []) i = pod_key web_sp j"
    then have "claim_name (serving_sp 2 []) (int i) = PodService_GetName web_sp (int j)" by simp
    moreover have "hd (claim_name (serving_sp 2 []) (int i)) = CHR ''d''" "hd (PodService_GetName web_sp (int j)) = CHR ''w''"
      using web_sp_simps(1) by (simp_all add: claim_name_def PodService_GetName_def serving_sp_def demo_defs Let_def)
    ultimately show False by simp
  qed
  then have "apart (serving_sp 2 []) web_sp" "apart web_sp (serving_sp 2 [])"
    using names web_sp_simps(3) unfolding apart_def by force+
  moreover have "growable (serving_sp 2 [])" "growable web_sp"
    using s web_sp_simps by (simp_all add: growable_def int_of_int32_of)
  ultimately show "fleet {serving_sp 2 [], web_sp}" by (auto simp: fleet_def)
qed

lemma mixed_moves:
  "moves_of (serving_sp 2 []) mixed_schedule =
    [PodUp 0, Ask, Ask, ClaimUp 0, PodUp 1, PodUp 0, Ask, PodUp 1, PodUp 0, ClaimUp 1, Ask]"
  "moves_of web_sp mixed_schedule = [Ask, ClaimUp 0, PodUp 0, Ask]"
  "fst ` set mixed_schedule \<subseteq> {serving_sp 2 [], web_sp}"
  using demo_fleet(4) by (simp_all add: moves_of_def mixed_schedule_def Let_def)

lemma mixed_agendas:
  "subseq (agenda True (\<lambda>i. i = 0) 0 2) [PodUp 0, Ask, Ask, ClaimUp 0, PodUp 1, PodUp 0, Ask, PodUp 1, PodUp 0, ClaimUp 1, Ask]"
  "subseq (agenda False first 0 1) [Ask, ClaimUp 0, PodUp 0, Ask]"
  by (simp_all add: agenda_def turn_of_def numeral_2_eq_2)

lemma fleet_newborn: "newborn sps pods claims (serving_sp 2 []) fleet_world" "newborn sps pods claims web_sp fleet_world"
proof -
  note s = serving_sp_simps [of 2 "[]"]
  have vol: "claim_volume (Spec (serving_sp 2 []))" using s(2,3) by (auto simp: repairable_def)
  have l: "pods_of (serving_sp 2 []) = []" "pvcs_of (serving_sp 2 []) = []" by (simp_all add: serving_sp_def Let_def demo_defs)
  have n: "Namespace (sp_Meta (serving_sp 2 [])) = ''ns''" "Name (sp_Meta (serving_sp 2 [])) = ''db''" using s(1) by simp_all
  have m: "Namespace (sp_Meta web_sp) = ''ns''" "Name (sp_Meta web_sp) = ''web''" using web_sp_simps(1) by simp_all
  have free: "x \<noteq> ''db''" "x \<noteq> ''web''" if "CHR ''-'' \<in> set x" for x using that by auto
  have dash: "CHR ''-'' \<in> set (PodService_GetName (serving_sp 2 []) i)" "CHR ''-'' \<in> set (PodService_GetName web_sp i)"
    "CHR ''-'' \<in> set (claim_name (serving_sp 2 []) i)" for i
    by (simp_all add: PodService_GetName_def claim_name_def serving_sp_def demo_defs Let_def)
  show "newborn sps pods claims (serving_sp 2 []) fleet_world"
    using free [OF dash(1)] free [OF dash(3)] by (auto simp: newborn_def unclaimed_def fleet_world_def empty_world_def l n)
  show "newborn sps pods claims web_sp fleet_world"
    using free [OF dash(2)] by (auto simp: newborn_def unclaimed_def fleet_world_def empty_world_def web_sp_simps m)
qed

text \<open>The start of the two, with the service of \<open>db\<close> made.\<close>

definition demo_served :: world where
  "demo_served = serve_all mem_client demo_env 2 svcs [serving_sp 2 [], web_sp] fleet_world"

lemma demo_start: "\<forall>x \<in> {serving_sp 2 [], web_sp}. staged sps pods claims svcs x (target x) (Stage 0 0 0) demo_served"
proof -
  have "\<forall>x \<in> set [serving_sp 2 [], web_sp]. newborn sps pods claims x fleet_world \<and> growable x"
    using fleet_newborn demo_fleet(1) by (simp add: fleet_def)
  from serve_all_ready [OF hosted_mem this demo_served_def]
  have "sps demo_served = sps fleet_world" "pods demo_served = pods fleet_world" "claims demo_served = claims fleet_world"
    "service_ready svcs (serving_sp 2 []) demo_served" "service_ready svcs web_sp demo_served" by simp_all
  then show ?thesis using fleet_newborn newborn_frame [of sps demo_served fleet_world pods claims] by (auto intro: newborn_staged)
qed

theorem fleet_converges_witness:
  "\<exists>w' db web. happens mem_client demo_env 2 mem_kubelet mem_provisioner pods claims mixed_schedule
      (serve_all mem_client demo_env 2 svcs [serving_sp 2 [], web_sp] fleet_world) = w' \<and>
    sps w' (NN ''ns'' ''db'') = Some db \<and> length (pods_of db) = 2 \<and> (\<forall>v \<in> set (pvcs_of db). pvs_Status v = ''Bound'') \<and>
    sps w' (NN ''ns'' ''web'') = Some web \<and> map ps_Status (pods_of web) = [''Running'']"
proof -
  let ?db = "serving_sp 2 []"
  define w' where "w' = happens mem_client demo_env 2 mem_kubelet mem_provisioner pods claims mixed_schedule
      (serve_all mem_client demo_env 2 svcs [?db, web_sp] fleet_world)"
  note s = serving_sp_simps [of 2 "[]"]
  have pre: "fleet (set [?db, web_sp])" "\<forall>x \<in> set [?db, web_sp]. newborn sps pods claims x fleet_world"
    "fst ` set mixed_schedule \<subseteq> set [?db, web_sp]"
    "\<forall>x \<in> set [?db, web_sp]. \<exists>first. subseq (agenda (claims_wanted x) first 0 (target x)) (moves_of x mixed_schedule)"
    using demo_fleet fleet_newborn mixed_moves mixed_agendas s(3) web_sp_simps(3) by auto
  note all = fleet_converges [OF hosted_mem order_refl pre w'_def]
  have db: "fully_settled sps pods claims ?db 2 w'" using all [of ?db] demo_fleet(2) by simp
  have web: "fully_settled sps pods claims web_sp 1 w'" using all [of web_sp] demo_fleet(3) by simp
  obtain x where "sps w' (NN ''ns'' ''db'') = Some x" "length (pods_of x) = 2" "\<forall>v \<in> set (pvcs_of x). pvs_Status v = ''Bound''"
    using db s(1,3) unfolding fully_settled_def by auto
  moreover obtain y where y: "sps w' (NN ''ns'' ''web'') = Some y" "length (pods_of y) = 1" "\<forall>p \<in> set (pods_of y). ps_Status p = ''Running''"
    using web web_sp_simps(1) unfolding fully_settled_def by auto
  moreover from y(2,3) have "map ps_Status (pods_of y) = [''Running'']" by (cases "pods_of y") auto
  ultimately show ?thesis unfolding w'_def [symmetric] by (intro exI [of _ w'] exI [of _ x] exI [of _ y]) simp
qed


section \<open>Scaling up\<close>

text \<open>A user writes a new size and nothing else that the program looks at; finalizers, versions and other metadata may change.\<close>

definition resize :: "int32 \<Rightarrow> StatefulPod \<Rightarrow> StatefulPod" where
  "resize sz sp = sp\<lparr>Spec := (Spec sp)\<lparr>Size := Some sz\<rparr>\<rparr>"

lemma resize_simps [simp]:
  "sp_Meta (resize sz sp) = sp_Meta sp" "Status (resize sz sp) = Status sp" "Size (Spec (resize sz sp)) = Some sz"
  "PVCTemplate (Spec (resize sz sp)) = PVCTemplate (Spec sp)" "PVNames (Spec (resize sz sp)) = PVNames (Spec sp)"
  "ServiceTemplate (Spec (resize sz sp)) = ServiceTemplate (Spec sp)" "PodTemplate (Spec (resize sz sp)) = PodTemplate (Spec sp)"
  "PodService_GetName (resize sz sp) = PodService_GetName sp" "claim_name (resize sz sp) = claim_name sp"
  "child (resize sz sp) = child sp" "SetServiceName (resize sz sp) = SetServiceName sp"
  by (auto simp: resize_def PodService_GetName_def claim_name_def child_def SetServiceName_def fun_eq_iff split: list.split option.split)

lemma staged_resize:
  assumes "staged Vs Vp Vc Vv sp N (Stage (Suc N) N N) w" "Vs w (sp_key sp) = Some s" "Vs w' = (Vs w)(sp_key sp \<mapsto> s')"
    "Spec s' = Spec (resize sz s)" "Status s' = Status s" "sp_key s' = sp_key s" "DeletionTimestamp (sp_Meta s') = DeletionTimestamp (sp_Meta s)"
    "Vp w' = Vp w" "Vc w' = Vc w" "Vv w' = Vv w" "N \<le> M"
  shows "staged Vs Vp Vc Vv (resize sz sp) M (Stage N N N) w'"
proof -
  have s: "grown_from sp s" "status_at sp N N N s" and ch: "\<And>i. child_at Vp Vc sp N N N i w" and clear: "names_clear Vs Vp sp w"
    and ready: "service_ready Vv sp w"
    using assms(1,2) unfolding staged_def by auto
  have "claim_name s' = claim_name s" using claim_name_stored [OF assms(4)] assms(6) by simp
  then have "grown_from (resize sz sp) s'" using s(1) assms(4,6,7) by (simp add: grown_from_def)
  moreover have "status_at (resize sz sp) N N N s'" using s(2) by (simp add: status_at_def assms(5))
  moreover have "own_claim Vc (resize sz sp) i b w' = own_claim Vc sp i b w" for i b by (simp add: own_claim_def assms(9))
  then have "child_at Vp Vc (resize sz sp) N N N i w'" for i
    using ch [of i] unfolding child_at_def resize_simps assms(8,9) by (cases "i < N") auto
  moreover have "names_clear Vs Vp (resize sz sp) w'"
    using clear assms(2) unfolding names_clear_def resize_simps assms(3,8) by (metis fun_upd_other option.distinct(1))
  moreover have "service_ready Vv (resize sz sp) w'" using ready by (simp add: service_ready_def assms(10))
  ultimately show ?thesis using assms(3,11) by (auto simp: staged_def proper_def)
qed

lemma one_after_another: "happens cl env fuel K B Vp Vc (map (Pair x) ms) w = fold (happen cl env fuel K B Vp Vc x) ms w"
  by (induction ms arbitrary: w) (simp_all add: happens_def)

lemma moves_of_one: "moves_of x (map (Pair x) ms) = ms"
  by (induction ms) (simp_all add: moves_of_def)

lemma staged_up:
  assumes "staged Vs Vp Vc Vv sp M s w" "Stage n n n \<le> s" "n \<le> M" "i < n"
  shows "\<exists>pod. Vp w (pod_key sp i) = Some pod \<and> PodCtrl_isPodRunning pod"
    "claims_wanted sp \<Longrightarrow> \<exists>pvc. Vc w (claim_key sp i) = Some pvc \<and> pvc_Phase pvc = ''Bound''"
proof -
  have "i < min (asked s) M" "i < started s" "i < settled_claims s" using assms(2-4) by (simp_all add: less_eq_stage_def)
  moreover have "child_at Vp Vc sp (min (asked s) M) (started s) (settled_claims s) i w" using assms(1) by (simp add: staged_def)
  ultimately show "\<exists>pod. Vp w (pod_key sp i) = Some pod \<and> PodCtrl_isPodRunning pod"
    "claims_wanted sp \<Longrightarrow> \<exists>pvc. Vc w (claim_key sp i) = Some pvc \<and> pvc_Phase pvc = ''Bound''"
    by (auto simp: child_at_def own_claim_def)
qed

text \<open>C9: scaling up is undisturbed. Take a complete StatefulPod, as \<open>fleet\_converges\<close> leaves it, and let a user store it with a larger size
  and the rest of its specification and status as they were. Then after any sequence of its moves, in any order and with any repetitions,
  that has among it those that the new ordinals need, it is complete at the new size and a further call changes nothing;
  and at every moment before, the pods of the old ordinals are there and run and their claims are bound.\<close>

theorem scale_up_converges:
  assumes "hosted cl env Vs Vp Vc Vv K B" "2 \<le> fuel" "growable sp" "staged Vs Vp Vc Vv sp (target sp) (Stage (Suc (target sp)) (target sp) (target sp)) w"
    "Vs w (sp_key sp) = Some s" "Vs w1 = (Vs w)(sp_key sp \<mapsto> s')" "Spec s' = Spec (resize sz s)" "Status s' = Status s" "sp_key s' = sp_key s"
    "DeletionTimestamp (sp_Meta s') = DeletionTimestamp (sp_Meta s)" "Vp w1 = Vp w" "Vc w1 = Vc w" "Vv w1 = Vv w"
    "y = resize sz sp" "target sp \<le> target y" "subseq (agenda (claims_wanted y) first (target sp) (target y)) ms"
    "w' = fold (happen cl env fuel K B Vp Vc y) ms w1"
  shows "fully_settled Vs Vp Vc y (target y) w' \<and> run cl (Reconcile env fuel (sp_key y)) w' = (Done (result0, None), w') \<and>
    (\<forall>k. \<forall>i < target sp. (\<exists>pod. Vp (fold (happen cl env fuel K B Vp Vc y) (take k ms) w1) (pod_key y i) = Some pod \<and> PodCtrl_isPodRunning pod) \<and>
       (claims_wanted y \<longrightarrow> (\<exists>pvc. Vc (fold (happen cl env fuel K B Vp Vc y) (take k ms) w1) (claim_key y i) = Some pvc \<and>
          pvc_Phase pvc = ''Bound'')))"
proof -
  define n where "n = target sp"
  obtain sz0 where old: "repairable sp" "IsZero (DeletionTimestamp (sp_Meta sp))" "int_of_int32 sz0 = int n" "0 < n"
    using growableD [OF assms(3)] unfolding n_def by blast
  then have gy: "growable y"
    using assms(14,15) by (auto simp: growable_def repairable_def claim_volume_name target_def n_def)
  have start: "\<forall>x \<in> {y}. staged Vs Vp Vc Vv x (target x) (Stage n n n) w1"
    using staged_resize [OF assms(4-13), of "target y"] assms(14,15) by (simp add: n_def)
  have "fleet {y}" using gy by (simp add: fleet_def)
  note go = fleet_moves [OF assms(1,2) this _ start]
  have st: "staged Vs Vp Vc Vv y (target y) (stage_after y ns (Stage n n n)) (fold (happen cl env fuel K B Vp Vc y) ns w1)" for ns
    using go [of "map (Pair y) ns"] by (simp add: one_after_another moves_of_one image_subset_iff)
  have "stage_after y ms (Stage n n n) = Stage (Suc (target y)) (target y) (target y)"
    using agenda_enough [OF assms(16,15)] by (simp add: stage_after_def n_def)
  then have "staged Vs Vp Vc Vv y (target y) (Stage (Suc (target y)) (target y) (target y)) w'" using st [of ms] assms(17) by simp
  note complete = staged_complete [OF assms(1) gy this]
  have "Stage n n n \<le> stage_after y ns (Stage n n n)" for ns
    using stages.fold_subseq [OF list_emb_Nil, of "claims_wanted y" "target y" "Stage n n n" "Stage n n n" ns] assms(15)
    by (simp add: stage_after_def proper_def n_def)
  then show ?thesis using complete staged_up [OF st] assms(15) unfolding n_def by blast
qed

text \<open>The mixed schedule leaves \<open>web\<close> complete with one ordinal; a user asks for two.\<close>


text \<open>The mixed schedule leaves \<open>web\<close> complete with one ordinal; a user asks for two.\<close>

theorem scale_up_converges_witness:
  "\<exists>w s. sps w (NN ''ns'' ''web'') = Some s \<and> length (pods_of s) = 1 \<and>
    fully_settled sps pods claims (resize (int32_of 2) web_sp) 2
      (fold (happen mem_client demo_env 2 mem_kubelet mem_provisioner pods claims (resize (int32_of 2) web_sp)) [PodUp 0, Ask, Ask, PodUp 1, Ask]
        (w\<lparr>sps := (sps w)(NN ''ns'' ''web'' \<mapsto> resize (int32_of 2) s)\<rparr>))"
proof -
  let ?y = "resize (int32_of 2) web_sp"
  define w where "w = happens mem_client demo_env 2 mem_kubelet mem_provisioner pods claims mixed_schedule demo_served"
  have "stage_after web_sp (moves_of web_sp mixed_schedule) (Stage 0 0 0) = Stage 2 1 1"
    by (simp add: mixed_moves stage_after_def demo_fleet(3) web_sp_simps(3))
  then have web: "staged sps pods claims svcs web_sp (target web_sp) (Stage (Suc (target web_sp)) (target web_sp) (target web_sp)) w"
    using fleet_moves [OF hosted_mem order_refl demo_fleet(1) mixed_moves(3) demo_start] by (simp add: w_def demo_fleet(3) numeral_2_eq_2)
  then obtain s where s: "sps w (NN ''ns'' ''web'') = Some s" "length (pods_of s) = 1" "sp_key s = NN ''ns'' ''web''"
    unfolding staged_def web_sp_simps(1) by (auto simp: demo_fleet(3) status_at_def grown_from_def web_sp_simps(1))
  have gr: "growable web_sp" using demo_fleet(1) by (simp add: fleet_def)
  have y: "target ?y = 2" by (simp add: target_def int_of_int32_of)
  note key = web_sp_simps(1)
  have "subseq (agenda (claims_wanted ?y) first (target web_sp) (target ?y)) [PodUp 0, Ask, Ask, PodUp 1, Ask]" for first
    by (simp add: y demo_fleet(3) agenda_def turn_of_def upt_rec web_sp_simps(3))
  from scale_up_converges [OF hosted_mem order_refl gr web _ _ _ _ _ _ _ _ _ refl _ this refl, of s
      "w\<lparr>sps := (sps w)(NN ''ns'' ''web'' \<mapsto> resize (int32_of 2) s)\<rparr>" "resize (int32_of 2) s" demo_env]
  show ?thesis using s y demo_fleet(3) by (intro exI [of _ w] exI [of _ s]) (simp add: key)
qed

end
