(* ===== verification/SelfHealing.thy ===== *)
theory SelfHealing
  imports Convergence
begin

text \<open>
  Self-healing: any set of pods of a StatefulPod at rest may be lost, with or without their claims; the program makes them again,
  one per round, lowest ordinal first, and comes to rest in the same state. This composes the dispatch, the scans, the repair, the templates
  with the way back from their annotations, the monitors and the update loop. At rest no request of its own objects changes anything.
\<close>

section \<open>Losses\<close>

text \<open>The pods of the ordinals in \<open>M\<close> are gone, and with each of them perhaps its claim; everything else is as it was.\<close>

definition lost :: "('w \<Rightarrow> NamespacedName \<Rightarrow> StatefulPod option) \<Rightarrow> ('w \<Rightarrow> NamespacedName \<Rightarrow> Pod option) \<Rightarrow>
    ('w \<Rightarrow> NamespacedName \<Rightarrow> PVC option) \<Rightarrow> ('w \<Rightarrow> NamespacedName \<Rightarrow> Service option) \<Rightarrow> StatefulPod \<Rightarrow> nat set \<Rightarrow> 'w \<Rightarrow> 'w \<Rightarrow> bool" where
  "lost Vs Vp Vc Vv sp M w w' \<longleftrightarrow> Vs w' = Vs w \<and> Vv w' = Vv w \<and>
     (\<forall>k. Vp w' k = (if k \<in> pod_key sp ` M then None else Vp w k)) \<and>
     (\<forall>k. Vc w' k = Vc w k \<or> k \<in> claim_key sp ` M \<and> Vc w' k = None)"

lemma lost_between:
  assumes "between Vs Vp Vc Vv sp0 n {} w" "lost Vs Vp Vc Vv sp0 M w w'" "M \<subseteq> {..<n}" "repairable sp0"
  shows "between Vs Vp Vc Vv sp0 n M w'"
proof -
  have l: "Vs w' = Vs w" "Vv w' = Vv w" and p: "\<And>k. Vp w' k = (if k \<in> pod_key sp0 ` M then None else Vp w k)"
    and c: "\<And>k. Vc w' k = Vc w k \<or> k \<in> claim_key sp0 ` M \<and> Vc w' k = None"
    using assms(2) unfolding lost_def by blast+
  have clear: "names_clear Vs Vp sp0 w" and ready: "service_ready Vv sp0 w" and ord: "ordinal_ok Vp Vc sp0 n {} i w" for i
    using assms(1) by (simp_all add: between_def)
  have "ordinal_ok Vp Vc sp0 n M i w'" for i
  proof (cases "i \<in> M")
    case True
    then have "Vp w' (pod_key sp0 i) = None" "i < n" using p assms(3) by auto
    moreover have "own_claim Vc sp0 i True w" if "claims_wanted sp0" using ord [of i] \<open>i < n\<close> that by (simp add: ordinal_ok_def)
    ultimately show ?thesis using True c [of "claim_key sp0 i"] by (auto simp: ordinal_ok_def own_claim_def)
  next
    case False
    then have "pod_key sp0 i \<notin> pod_key sp0 ` M" by (auto simp: GetName_ordinal)
    then have "Vp w' (pod_key sp0 i) = Vp w (pod_key sp0 i)" using p by simp
    moreover have "Vc w' (claim_key sp0 i) = Vc w (claim_key sp0 i)" if "claims_wanted sp0"
    proof -
      have "claim_key sp0 i \<notin> claim_key sp0 ` M" using False by (auto simp: claim_name_ordinal [OF repairable_volume [OF assms(4) that]])
      then show ?thesis using c by blast
    qed
    ultimately have "ordinal_ok Vp Vc sp0 n {} i w'" using ord [of i] by (subst ordinal_ok_cong [where w = w])
    with False show ?thesis by (simp add: ordinal_ok_def)
  qed
  moreover have "names_clear Vs Vp sp0 w'" using clear p by (auto simp: names_clear_def l)
  moreover have "service_ready Vv sp0 w'" using ready by (simp add: service_ready_def l)
  ultimately show ?thesis using assms(1) unfolding between_def l by blast
qed

section \<open>Repair\<close>

text \<open>C10: the program heals. Take a StatefulPod at rest, without reserved volumes and, if it has a claim template, with a storage class
  in it and a claim volume first in its pod template: it has its finalizer and is not being deleted, its status has an entry for every
  ordinal below the size that says that the pod runs and the claim is bound, and they are so. Let the pods of any set of ordinals vanish,
  each with or without its claim. After as many rounds as pods were lost (the StatefulPod is reconciled, the
  kubelet starts the pod that was made, its event is reconciled, the ordinal's claim is bound and its event reconciled), the program, which
  takes the lowest ordinal each time, has brought the cluster back: the StatefulPod is at rest again, its status complete, every pod runs,
  every claim is bound, and a further call changes nothing; so the same holds for the next loss. (The host is that of \<open>growth\_converges\<close>.)\<close>

theorem self_healing:
  assumes "hosted cl env Vs Vp Vc Vv K B" "2 \<le> fuel" "repairable sp" "Size (Spec sp) = Some sz" "int_of_int32 sz = int N" "alive sp"
    "between Vs Vp Vc Vv sp N {} w" "M \<subseteq> {..<N}" "lost Vs Vp Vc Vv sp M w w1"
    "w2 = rounds cl env fuel K B sp (sorted_list_of_set M) w1"
  shows "between Vs Vp Vc Vv sp N {} w2 \<and> fully_settled Vs Vp Vc sp N w2 \<and>
    run cl (Reconcile env fuel (sp_key sp)) w2 = (Done (result0, None), w2)"
proof -
  have "finite M" using assms(8) finite_subset by blast
  then have l: "set (sorted_list_of_set M) = M" by simp
  have n: "int N = int_of_int32 sz" using assms(5) by simp
  have "between Vs Vp Vc Vv sp N (set (sorted_list_of_set M) \<union> {}) w1"
    unfolding l using lost_between [OF assms(7,9,8,3)] by simp
  then have b: "between Vs Vp Vc Vv sp N {} w2"
    unfolding assms(10) by (rule rounds_repair [OF assms(1-4) n assms(6), rotated 3]) (use l assms(8) in simp_all)
  moreover have "fully_settled Vs Vp Vc sp N w2" by (rule between_settled [OF assms(4) b]) simp
  moreover have "run cl (Reconcile env fuel (sp_key sp)) w2 = (Done (result0, None), w2)"
    by (rule between_rests [OF assms(1,4) n assms(6) b]) simp
  ultimately show ?thesis by blast
qed

text \<open>A cluster of two ordinals at rest: every pod runs and every claim is bound.\<close>

definition rest_sp :: StatefulPod where
  "rest_sp = (let sp = serving_sp 2 [(''Running'', ''Bound''), (''Running'', ''Bound'')] in sp\<lparr>sp_Meta :=
     (sp_Meta sp)\<lparr>Finalizers := [''iapetos.foundary-cloud.io/v1'']\<rparr>\<rparr>)"

definition rest_world :: world where
  "rest_world = empty_world\<lparr>sps := (\<lambda>_. None)(NN ''ns'' ''db'' \<mapsto> rest_sp),
     pods := (\<lambda>_. None)(NN ''ns'' (PodService_GetName rest_sp 0) \<mapsto> demo_pod ''db-0'' ''0'' ''Running'',
       NN ''ns'' (PodService_GetName rest_sp 1) \<mapsto> demo_pod ''db-1'' ''1'' ''Running''),
     claims := (\<lambda>_. None)(NN ''ns'' (claim_name rest_sp 0) \<mapsto> demo_pvc ''data-db-0'' ''0'' ''Bound'',
       NN ''ns'' (claim_name rest_sp 1) \<mapsto> demo_pvc ''data-db-1'' ''1'' ''Bound''),
     svcs := (\<lambda>_. Some \<lparr>svc_TypeMeta = \<lparr>tm_Kind = ''Service'', tm_APIVersion = ''v1''\<rparr>, svc_Meta = demo_meta,
       svc_Spec = \<lparr>svc_Selector = [], ServiceSpec_rest = ''''\<rparr>\<rparr>)\<rparr>"

lemma below_two: "(\<forall>i < 2. P i) \<longleftrightarrow> P 0 \<and> P (1 :: nat)"
  by (auto simp: less_2_cases_iff)

lemma Itoa_digits: "Itoa 0 = ''0''" "Itoa 1 = ''1''"
  by code_simp+

lemma rest_sp_simps:
  "sp_key rest_sp = NN ''ns'' ''db''" "Size (Spec rest_sp) = Some (int32_of 2)" "repairable rest_sp" "alive rest_sp"
  "claims_wanted rest_sp" "PodService_GetName rest_sp i = ''db-'' @ Itoa i" "claim_name rest_sp i = ''data-db-'' @ Itoa i"
  "IsZero (DeletionTimestamp (sp_Meta rest_sp))" "claim_volume (Spec rest_sp)"
  by (simp_all add: rest_sp_def serving_sp_def demo_defs Let_def repairable_def claim_volume_def alive_def
      PodService_GetName_def claim_name_def)

lemma rest_sp_wf: "wf_sp rest_sp" "length (pods_of rest_sp) = 2"
  by (simp_all add: rest_sp_def serving_sp_def Let_def)

lemma rest_sp_status: "\<forall>i < 2. entry_settled rest_sp i rest_sp" "\<forall>i < 2. PodName (pods_of rest_sp ! i) = ''db-'' @ Itoa (int i)"
  unfolding below_two by (simp_all add: rest_sp_def serving_sp_def demo_defs Let_def entry_settled_def)

lemma rest_entries: "entries rest_sp 2 rest_sp"
  by (simp add: entries_def rest_sp_wf rest_sp_status(2) rest_sp_simps(6))

lemma rest_between: "between sps pods claims svcs rest_sp 2 {} rest_world"
proof -
  have ns: "Namespace (sp_Meta rest_sp) = ''ns''" "Name (sp_Meta rest_sp) = ''db''" using rest_sp_simps(1) by simp_all
  have "names_clear sps pods rest_sp rest_world"
    using GetName_not_key [of rest_sp] claim_name_not_key [OF rest_sp_simps(9)] pod_not_claim [OF rest_sp_simps(9), of 0, symmetric]
      pod_not_claim [OF rest_sp_simps(9), of 1, symmetric]
    by (auto simp: names_clear_def rest_world_def empty_world_def ns)
  moreover have "ordinal_ok pods claims rest_sp 2 {} i rest_world" for i
  proof (cases "i < 2")
    case True
    then consider "i = 0" | "i = 1" by linarith
    then show ?thesis
      by cases (simp_all add: ordinal_ok_def running_pod_def own_claim_def rest_world_def ns child_def rest_sp_simps(6,7) Itoa_digits
          PodCtrl_isPodRunning_def demo_defs gomap_get_def)
  qed (simp add: ordinal_ok_def)
  moreover have "service_ready svcs rest_sp rest_world" by (simp add: service_ready_def rest_world_def)
  ultimately show ?thesis using rest_entries rest_sp_status(1) rest_sp_simps(1)
    unfolding between_def by (auto simp: rest_world_def)
qed

theorem self_healing_witness:
  "\<exists>w2 sp'. rounds mem_client demo_env 2 mem_kubelet mem_provisioner rest_sp [0, 1] (rest_world\<lparr>pods := \<lambda>_. None,
      claims := (claims rest_world)(NN ''ns'' ''data-db-1'' := None)\<rparr>) = w2 \<and> sps w2 (NN ''ns'' ''db'') = Some sp' \<and>
    length (pods_of sp') = 2 \<and> (\<forall>p \<in> set (pods_of sp'). ps_Status p = ''Running'') \<and>
    run mem_client (Reconcile demo_env 2 (NN ''ns'' ''db'')) w2 = (Done (result0, None), w2)"
proof -
  define w1 where "w1 = rest_world\<lparr>pods := \<lambda>_. None, claims := (claims rest_world)(NN ''ns'' ''data-db-1'' := None)\<rparr>"
  have ns: "Namespace (sp_Meta rest_sp) = ''ns''" "Name (sp_Meta rest_sp) = ''db''" using rest_sp_simps(1) by simp_all
  have "lost sps pods claims svcs rest_sp {0, 1} rest_world w1"
    by (auto simp: lost_def w1_def ns rest_sp_simps(6,7) Itoa_digits rest_world_def empty_world_def)
  moreover have "int_of_int32 (int32_of 2) = int 2" by (simp add: int_of_int32_of)
  moreover have "sorted_list_of_set {0, 1 :: nat} = [0, 1]" by simp
  ultimately show ?thesis
    using self_healing [OF hosted_mem order_refl rest_sp_simps(3,2) _ rest_sp_simps(4) rest_between, of "{0, 1}" w1 _ demo_env]
    unfolding rest_sp_simps(1) w1_def [symmetric] fully_settled_def by fastforce
qed

section \<open>Rest\<close>

text \<open>The requests that a StatefulPod, its pods on ready nodes and its claims give rise to.\<close>

definition own_request :: "'w client \<Rightarrow> Env \<Rightarrow> ('w \<Rightarrow> NamespacedName \<Rightarrow> Pod option) \<Rightarrow> StatefulPod \<Rightarrow> nat \<Rightarrow> 'w \<Rightarrow> NamespacedName \<Rightarrow> bool" where
  "own_request cl env Vp sp n w req \<longleftrightarrow> req = sp_key sp \<or>
     (\<exists>i pod. i < n \<and> req = pod_key sp i \<and> Vp w req = Some pod \<and>
        run cl (IsNodeReady env (NN '''' (pod_NodeName (pod_Spec pod)))) w = (Done True, w)) \<or>
     (\<exists>i < n. claims_wanted sp \<and> req = claim_key sp i)"

lemma own_request_rests:
  assumes "hosted cl env Vs Vp Vc Vv K B" "Size (Spec sp) = Some sz" "int_of_int32 sz = int N" "alive sp"
    "between Vs Vp Vc Vv sp N {} w" "own_request cl env Vp sp N w req"
  shows "run cl (Reconcile env fuel req) w = (Done (result0, None), w)"
proof -
  note coop = hostedD(1) [OF assms(1)]
  have N: "int N < 2 ^ 63" using int_of_int32_less [of sz] assms(3) by simp
  obtain sp' where sp': "Vs w (sp_key sp) = Some sp'" "entries sp N sp'" "\<forall>i < N. entry_settled sp i sp'"
    and clear: "names_clear Vs Vp sp w" and ord: "\<And>i. ordinal_ok Vp Vc sp N {} i w"
    using assms(5) unfolding between_def by blast
  have len: "length (pods_of sp') = N" "length (pvcs_of sp') = N" using sp'(2) by (simp_all add: entries_def wf_status_def)
  consider "req = sp_key sp" | i pod where "i < N" "req = pod_key sp i" "Vp w req = Some pod"
      "run cl (IsNodeReady env (NN '''' (pod_NodeName (pod_Spec pod)))) w = (Done True, w)"
    | i where "i < N" "claims_wanted sp" "req = claim_key sp i"
    using assms(6) unfolding own_request_def by blast
  then show ?thesis
  proof cases
    case 1
    then show ?thesis using between_rests [OF assms(1,2) assms(3) [symmetric] assms(4,5)] by simp
  next
    case (2 i pod)
    then have pod: "child sp (PodService_GetName sp (int i)) (int i) (pod_Meta pod)" "PodCtrl_isPodRunning pod"
      using ord [of i] by (simp_all add: ordinal_ok_def running_pod_def)
    have par: "NN (Namespace (pod_Meta pod)) (gomap_val (Annotations (pod_Meta pod)) ''parentName'') = sp_key sp" "pod_index pod = int i"
      "IsZero (DeletionTimestamp (pod_Meta pod))"
      using child_parent [OF pod(1)] pod(1) 2(1) N by (simp_all add: pod_index_def child_def)
    have "Vs w req = None" using clear 2(2) by (simp add: names_clear_def)
    moreover have "Vs w (NN (Namespace (pod_Meta pod)) (gomap_val (Annotations (pod_Meta pod)) ''parentName'')) = Some sp'"
      using sp'(1) by (simp only: par(1))
    ultimately show ?thesis
      by (rule run_running_again [OF coop _ 2(3) _ par(2) _ par(3) pod(2) 2(4)]) (use sp'(3) len 2(1) in \<open>simp_all add: entry_settled_def\<close>)
  next
    case (3 i)
    then obtain pvc where pvc: "Vc w req = Some pvc" "child sp (claim_name sp (int i)) (int i) (pvc_Meta pvc)" "pvc_Phase pvc = ''Bound''"
      using ord [of i] by (auto simp: ordinal_ok_def own_claim_def)
    have par: "NN (Namespace (pvc_Meta pvc)) (gomap_val (Annotations (pvc_Meta pvc)) ''parentName'') = sp_key sp" "pvc_index pvc = int i"
      "IsZero (DeletionTimestamp (pvc_Meta pvc))"
      using child_parent [OF pvc(2)] pvc(2) 3(1) N by (simp_all add: pvc_index_def child_def)
    have "Vs w req = None" "Vp w req = None" using clear 3 by (simp_all add: names_clear_def)
    moreover have "Vs w (NN (Namespace (pvc_Meta pvc)) (gomap_val (Annotations (pvc_Meta pvc)) ''parentName'')) = Some sp'"
      using sp'(1) by (simp only: par(1))
    ultimately show ?thesis
      by (rule run_bound_again [OF coop _ _ pvc(1) _ par(2) _ par(3) pvc(3)]) (use sp'(3) len 3(1,2) in \<open>simp_all add: entry_settled_def\<close>)
  qed
qed

text \<open>C11: at rest nothing is left to do. Take a StatefulPod at rest, as growth and repair leave it: it has its finalizer and is not being
  deleted, and the status, the pods and the claims agree on every ordinal below the size. However many requests for it, for its pods on ready nodes
  and for its claims are reconciled, in any order and any number of times, each answers without error and without a
  requeue, and none changes anything: all parts of the program, those for the StatefulPod and those for its children, agree on the same fixed point.\<close>

theorem rest_is_quiet:
  assumes "hosted cl env Vs Vp Vc Vv K B" "Size (Spec sp) = Some sz" "int_of_int32 sz = int N" "alive sp"
    "between Vs Vp Vc Vv sp N {} w" "\<forall>req \<in> set reqs. own_request cl env Vp sp N w req"
  shows "(\<forall>req \<in> set reqs. fst (run cl (Reconcile env fuel req) w) = Done (result0, None)) \<and>
    fold (\<lambda>req w'. snd (run cl (Reconcile env fuel req) w')) reqs w = w"
  using assms(6)
proof (induction reqs)
  case (Cons req reqs)
  then have "run cl (Reconcile env fuel req) w = (Done (result0, None), w)" by (intro own_request_rests [OF assms(1-5)]) simp
  with Cons show ?case by simp
qed simp

theorem rest_is_quiet_witness:
  "fold (\<lambda>req w. snd (run mem_client (Reconcile demo_env 2 req) w))
     [NN ''ns'' ''data-db-1'', NN ''ns'' ''db-0'', NN ''ns'' ''db'', NN ''ns'' ''db-0''] rest_world = rest_world"
proof -
  define reqs where "reqs = [NN ''ns'' ''data-db-1'', NN ''ns'' ''db-0'', NN ''ns'' ''db'', NN ''ns'' ''db-0'']"
  have ns: "Namespace (sp_Meta rest_sp) = ''ns''" "Name (sp_Meta rest_sp) = ''db''" using rest_sp_simps(1) by simp_all
  have k: "NN ''ns'' ''data-db-1'' = claim_key rest_sp 1" "NN ''ns'' ''db-0'' = pod_key rest_sp 0" "NN ''ns'' ''db'' = sp_key rest_sp"
    by (simp_all add: ns rest_sp_simps(6,7) Itoa_digits)
  have "pods rest_world (pod_key rest_sp 0) = Some (demo_pod ''db-0'' ''0'' ''Running'')"
    by (simp add: rest_world_def ns rest_sp_simps(6) Itoa_digits)
  moreover have "run mem_client (IsNodeReady demo_env (NN '''' (pod_NodeName (pod_Spec (demo_pod ''db-0'' ''0'' ''Running''))))) rest_world =
      (Done True, rest_world)"
    by (simp add: IsNodeReady_def demo_defs)
  ultimately have "own_request mem_client demo_env pods rest_sp 2 rest_world (pod_key rest_sp 0)"
    unfolding own_request_def by (intro disjI2 disjI1 exI [of _ 0] exI [of _ "demo_pod ''db-0'' ''0'' ''Running''"]) simp
  moreover have "own_request mem_client demo_env pods rest_sp 2 rest_world (claim_key rest_sp 1)"
    unfolding own_request_def using rest_sp_simps(5) by (intro disjI2 exI [of _ 1]) simp
  moreover have "own_request mem_client demo_env pods rest_sp 2 rest_world (sp_key rest_sp)" by (simp add: own_request_def)
  ultimately have "\<forall>req \<in> set reqs. own_request mem_client demo_env pods rest_sp 2 rest_world req" unfolding reqs_def k by simp
  moreover have "int_of_int32 (int32_of 2) = int 2" by (simp add: int_of_int32_of)
  ultimately show ?thesis
    using rest_is_quiet [OF hosted_mem rest_sp_simps(2) _ rest_sp_simps(4) rest_between, of reqs demo_env 2] unfolding reqs_def by simp
qed

end
