(* ===== verification/Teardown.thy ===== *)
theory Teardown
  imports Rounds
begin

text \<open>
  Shrinking and deletion come to their end. Deletion on a Kubernetes server is graceful: a deleted object may stay until
  whatever runs it has ended it. So the reconciliations are interleaved with a step of the rest of the
  cluster that ends what is being deleted.
\<close>

section \<open>Graceful deletion\<close>

text \<open>An entry of a view that is gone or on its way out.\<close>

definition going :: "('o \<Rightarrow> ObjectMeta) \<Rightarrow> 'o option \<Rightarrow> bool" where
  "going meta x = (case x of None \<Rightarrow> True | Some y \<Rightarrow> \<not> IsZero (DeletionTimestamp (meta y)))"

definition keyed :: "('o \<Rightarrow> ObjectMeta) \<Rightarrow> (NamespacedName \<Rightarrow> 'o option) \<Rightarrow> bool" where
  "keyed meta V \<longleftrightarrow> (\<forall>nn y. V nn = Some y \<longrightarrow> NN (Namespace (meta y)) (Name (meta y)) = nn)"

text \<open>Deleting an object that is there succeeds: it is gone at once or marked as being deleted; no other object changes.\<close>

definition deletes :: "('o \<Rightarrow> ObjectMeta) \<Rightarrow> ('o req \<Rightarrow> 'w \<Rightarrow> 'o resp \<times> 'w) \<Rightarrow> ('w \<Rightarrow> NamespacedName \<Rightarrow> 'o option) \<Rightarrow> bool" where
  "deletes meta f V \<longleftrightarrow> (\<forall>x w opts. V w (NN (Namespace (meta x)) (Name (meta x))) = Some x \<longrightarrow>
     (\<exists>y z w'. f (Delete x opts) w = (Inr y, w') \<and> V w' = (V w)(NN (Namespace (meta x)) (Name (meta x)) := z) \<and> going meta z \<and>
        (\<forall>u. z = Some u \<longrightarrow> Namespace (meta u) = Namespace (meta x) \<and> Name (meta u) = Name (meta x))))"

lemma going_None [simp]: "going meta None"
  by (simp add: going_def)

lemma keyedD: "keyed meta V \<Longrightarrow> V (NN a b) = Some y \<Longrightarrow> Namespace (meta y) = a \<and> Name (meta y) = b"
  unfolding keyed_def by blast

lemma deletes_Delete:
  assumes "deletes meta f V" "keyed meta (V w)" "V w nn = Some x"
  obtains y w' where "f (Delete x opts) w = (Inr y, w')" "keyed meta (V w')" "going meta (V w' nn)"
    "\<And>m. m \<noteq> nn \<Longrightarrow> V w' m = V w m"
proof -
  obtain a b where nn: "nn = NN a b" by (cases nn)
  with assms(2,3) have x: "Namespace (meta x) = a" "Name (meta x) = b" by (simp_all add: keyedD)
  with assms(1,3) nn obtain y z w' where d: "f (Delete x opts) w = (Inr y, w')" "V w' = (V w)(nn := z)" "going meta z"
    "\<forall>u. z = Some u \<longrightarrow> Namespace (meta u) = a \<and> Name (meta u) = b"
    unfolding deletes_def by metis
  moreover from d(2,4) assms(2) have "keyed meta (V w')" by (auto simp: keyed_def nn)
  ultimately show thesis by (intro that [of y w']) simp_all
qed

text \<open>The rest of the cluster ends what is being deleted and leaves everything else alone.\<close>

definition reap :: "('o \<Rightarrow> ObjectMeta) \<Rightarrow> (NamespacedName \<Rightarrow> 'o option) \<Rightarrow> NamespacedName \<Rightarrow> 'o option" where
  "reap meta V nn = (if going meta (V nn) then None else V nn)"

lemma reap_keyed: "keyed meta V \<Longrightarrow> keyed meta (reap meta V)"
  by (auto simp: keyed_def reap_def split: if_splits)

definition reaper :: "('w \<Rightarrow> NamespacedName \<Rightarrow> StatefulPod option) \<Rightarrow> ('w \<Rightarrow> NamespacedName \<Rightarrow> Pod option) \<Rightarrow>
    ('w \<Rightarrow> NamespacedName \<Rightarrow> PVC option) \<Rightarrow> ('w \<Rightarrow> 'w) \<Rightarrow> bool" where
  "reaper Vs Vp Vc E \<longleftrightarrow> (\<forall>w. Vs (E w) = Vs w \<and> Vp (E w) = reap pod_Meta (Vp w) \<and> Vc (E w) = reap pvc_Meta (Vc w))"

lemma reaperD:
  assumes "reaper Vs Vp Vc E"
  shows "Vs (E w) = Vs w" "Vp (E w) = reap pod_Meta (Vp w)" "Vc (E w) = reap pvc_Meta (Vc w)"
  using assms by (simp_all add: reaper_def)

text \<open>One round: the StatefulPod is reconciled, then the rest of the cluster takes its step.\<close>

definition turn :: "'w client \<Rightarrow> Env \<Rightarrow> nat \<Rightarrow> ('w \<Rightarrow> 'w) \<Rightarrow> NamespacedName \<Rightarrow> 'w \<Rightarrow> 'w" where
  "turn cl env fuel E nn w = E (snd (run cl (Reconcile env fuel nn) w))"

text \<open>
  What a teardown may do to a view, with the keys it is after: an object it is not after and that is not being deleted
  stays as it is, and nothing new appears.
\<close>

definition spares :: "('o \<Rightarrow> ObjectMeta) \<Rightarrow> NamespacedName set \<Rightarrow> (NamespacedName \<Rightarrow> 'o option) \<Rightarrow> (NamespacedName \<Rightarrow> 'o option) \<Rightarrow> bool" where
  "spares meta K V V' \<longleftrightarrow> (\<forall>nn. nn \<notin> K \<longrightarrow> \<not> going meta (V nn) \<longrightarrow> V' nn = V nn) \<and> (\<forall>nn. V nn = None \<longrightarrow> V' nn = None)"

lemma spares_refl [simp]: "spares meta K V V"
  by (simp add: spares_def)

lemma spares_trans: "spares meta K V V' \<Longrightarrow> spares meta K V' V'' \<Longrightarrow> spares meta K V V''"
  unfolding spares_def by metis

lemma spares_reap: "spares meta K V (reap meta V)"
  by (auto simp: spares_def reap_def)

lemma spares_reaped: "spares meta K V V' \<Longrightarrow> spares meta K V (reap meta V')"
  by (rule spares_trans [OF _ spares_reap])

lemma spares_mono: "spares meta K V V' \<Longrightarrow> K \<subseteq> L \<Longrightarrow> spares meta L V V'"
  unfolding spares_def by blast

lemma spares_None: "spares meta K V V' \<Longrightarrow> V nn = None \<Longrightarrow> V' nn = None"
  by (simp add: spares_def)

lemma spares_one:
  assumes "\<And>m. m \<noteq> nn \<Longrightarrow> V' m = V m" "V nn \<noteq> None" "nn \<in> K"
  shows "spares meta K V V'"
  unfolding spares_def using assms by metis

text \<open>The cluster a teardown runs on.\<close>

definition graceful :: "'w client \<Rightarrow> ('w \<Rightarrow> NamespacedName \<Rightarrow> StatefulPod option) \<Rightarrow> ('w \<Rightarrow> NamespacedName \<Rightarrow> Pod option) \<Rightarrow>
    ('w \<Rightarrow> NamespacedName \<Rightarrow> PVC option) \<Rightarrow> ('w \<Rightarrow> 'w) \<Rightarrow> bool" where
  "graceful cl Vs Vp Vc E \<longleftrightarrow> cooperative cl Vs Vp Vc \<and> deletes pod_Meta (pod_srv cl) Vp \<and> deletes pvc_Meta (pvc_srv cl) Vc \<and>
     reaper Vs Vp Vc E"

lemma gracefulD:
  assumes "graceful cl Vs Vp Vc E"
  shows "cooperative cl Vs Vp Vc" "deletes pod_Meta (pod_srv cl) Vp" "deletes pvc_Meta (pvc_srv cl) Vc" "reaper Vs Vp Vc E"
  using assms by (simp_all add: graceful_def)

section \<open>Progress\<close>

text \<open>From \<open>P\<close> the rounds \<open>T\<close> lead to \<open>Q\<close> within \<open>k\<close> of them.\<close>

definition leads :: "('w \<Rightarrow> 'w) \<Rightarrow> nat \<Rightarrow> ('w \<Rightarrow> bool) \<Rightarrow> ('w \<Rightarrow> bool) \<Rightarrow> bool" where
  "leads T k P Q \<longleftrightarrow> (\<forall>w. P w \<longrightarrow> (\<exists>j \<le> k. Q ((T ^^ j) w)))"

lemma leads_refl: "(\<And>w. P w \<Longrightarrow> Q w) \<Longrightarrow> leads T k P Q"
  unfolding leads_def by (metis eq_id_iff funpow_0 le0)

lemma leads_one: "(\<And>w. P w \<Longrightarrow> \<not> Q w \<Longrightarrow> Q (T w)) \<Longrightarrow> leads T 1 P Q"
  unfolding leads_def by (metis (mono_tags) comp_apply funpow.simps(2) funpow_0 One_nat_def le0 order_refl)

lemma leads_trans:
  assumes "leads T k P Q" "leads T l Q R"
  shows "leads T (k + l) P R"
  unfolding leads_def
proof (intro allI impI)
  fix w assume "P w"
  then obtain i where "i \<le> k" "Q ((T ^^ i) w)" using assms(1) unfolding leads_def by blast
  moreover then obtain j where "j \<le> l" "R ((T ^^ j) ((T ^^ i) w))" using assms(2) unfolding leads_def by blast
  moreover have "(T ^^ (j + i)) w = (T ^^ j) ((T ^^ i) w)" by (simp add: funpow_add)
  ultimately show "\<exists>j \<le> k + l. R ((T ^^ j) w)" by (intro exI [of _ "j + i"]) simp
qed

lemma leads_count:
  assumes "\<And>n. N \<le> n \<Longrightarrow> n < m \<Longrightarrow> leads T k (P (Suc n)) (P n)" "N \<le> m"
  shows "leads T (k * (m - N)) (P m) (P N)"
  using assms(2,1)
proof (induction m rule: dec_induct)
  case (step m)
  have "leads T (k + k * (m - N)) (P (Suc m)) (P N)"
    by (rule leads_trans [OF step.prems step.IH]) (use step in auto)
  then show ?case using step(1) by (simp add: Suc_diff_le)
qed (auto intro: leads_refl)

section \<open>Shrinking, ordinal by ordinal\<close>

definition claim_keys :: "StatefulPod \<Rightarrow> nat set \<Rightarrow> NamespacedName set" where
  "claim_keys sp I = (if PVCTemplate (Spec sp) = None then {} else claim_key sp ` I)"

text \<open>
  Some way through, with \<open>n\<close> ordinals left: the stored StatefulPod has the first \<open>n\<close> entries, and the pods and claims of the
  others are gone. Everything else is as it was at the start \<open>w0\<close>.
\<close>

definition shedding :: "('w \<Rightarrow> NamespacedName \<Rightarrow> StatefulPod option) \<Rightarrow> ('w \<Rightarrow> NamespacedName \<Rightarrow> Pod option) \<Rightarrow>
    ('w \<Rightarrow> NamespacedName \<Rightarrow> PVC option) \<Rightarrow> StatefulPod \<Rightarrow> nat \<Rightarrow> nat \<Rightarrow> 'w \<Rightarrow> nat \<Rightarrow> 'w \<Rightarrow> bool" where
  "shedding Vs Vp Vc sp0 N m w0 n w \<longleftrightarrow>
     (\<exists>sp. Vs w = (Vs w0)(sp_key sp0 \<mapsto> sp) \<and> wf_sp sp \<and> same_shape sp0 sp \<and> pods_of sp = take n (pods_of sp0) \<and>
        pvcs_of sp = take n (pvcs_of sp0)) \<and>
     keyed pod_Meta (Vp w) \<and> keyed pvc_Meta (Vc w) \<and>
     (\<forall>i. n \<le> i \<and> i < m \<longrightarrow> Vp w (pod_key sp0 i) = None \<and> claim_left sp0 (Vc w) (int i) = None) \<and>
     spares pod_Meta (pod_key sp0 ` {N..<m}) (Vp w0) (Vp w) \<and> spares pvc_Meta (claim_keys sp0 {N..<m}) (Vc w0) (Vc w)"

text \<open>One round of shrinking, on a cluster with graceful deletion.\<close>

lemma turn_shrink:
  assumes "graceful cl Vs Vp Vc E" "Vs w (sp_key sp) = Some sp" "wf_sp sp" "Size (Spec sp) = Some sz"
    "settled (int_of_int32 sz) (phases_of sp) = int (Suc q)" "int_of_int32 sz \<le> int q" "0 \<le> int_of_int32 sz"
    "PVCTemplate (Spec sp) \<noteq> None \<Longrightarrow> claim_volume (Spec sp)" "2 \<le> fuel" "keyed pod_Meta (Vp w)" "keyed pvc_Meta (Vc w)"
    "T = turn cl env fuel E (sp_key sp)"
  shows "Vp w (pod_key sp q) \<noteq> None \<Longrightarrow> Vs (T w) = Vs w \<and> keyed pod_Meta (Vp (T w)) \<and> Vp (T w) (pod_key sp q) = None \<and>
      spares pod_Meta {pod_key sp q} (Vp w) (Vp (T w)) \<and> Vc (T w) = reap pvc_Meta (Vc w)"
    and "Vp w (pod_key sp q) = None \<Longrightarrow> claim_left sp (Vc w) (int q) \<noteq> None \<Longrightarrow> Vs (T w) = Vs w \<and>
      keyed pvc_Meta (Vc (T w)) \<and> claim_left sp (Vc (T w)) (int q) = None \<and>
      spares pvc_Meta (claim_keys sp {q}) (Vc w) (Vc (T w)) \<and> Vp (T w) = reap pod_Meta (Vp w)"
    and "Vp w (pod_key sp q) = None \<Longrightarrow> claim_left sp (Vc w) (int q) = None \<Longrightarrow>
      \<exists>sp'. Vs (T w) = (Vs w)(sp_key sp \<mapsto> sp') \<and> pods_of sp' = take q (pods_of sp) \<and> pvcs_of sp' = take q (pvcs_of sp) \<and>
        same_shape sp sp' \<and> Vp (T w) = reap pod_Meta (Vp w) \<and> Vc (T w) = reap pvc_Meta (Vc w)"
proof -
  note g = gracefulD [OF assms(1)]
  note c = cooperativeD [OF g(1)] and e = reaperD [OF g(4)]
  have T: "T w = E (snd (run cl (StatefulPodCtrl_CoreCtrl env fuel sp) w))"
    by (simp add: assms(12) turn_def run_Reconcile [OF optimistic_reads [OF c(1)] c(2,4)] assms(2))
  have lt: "int_of_int32 sz < int (Suc q)" using assms(6) by simp
  note st = shrink_steps [OF g(1) assms(3,4) assms(5) [symmetric] lt assms(7,8,2,9), of env, simplified]
  show "Vs (T w) = Vs w \<and> keyed pod_Meta (Vp (T w)) \<and> Vp (T w) (pod_key sp q) = None \<and>
      spares pod_Meta {pod_key sp q} (Vp w) (Vp (T w)) \<and> Vc (T w) = reap pvc_Meta (Vc w)" if "Vp w (pod_key sp q) \<noteq> None"
  proof -
    from that obtain pod where pod: "Vp w (pod_key sp q) = Some pod" by blast
    obtain y w' where d: "pod_srv cl (Delete pod []) w = (Inr y, w')" "keyed pod_Meta (Vp w')" "going pod_Meta (Vp w' (pod_key sp q))"
      "\<And>m. m \<noteq> pod_key sp q \<Longrightarrow> Vp w' m = Vp w m"
      using deletes_Delete [OF g(2) assms(10) pod, of "[]"] by blast
    have Tw: "T w = E w'" using st pod d(1) by (simp add: T)
    have "spares pod_Meta {pod_key sp q} (Vp w) (Vp w')" by (rule spares_one [OF d(4)]) (use pod in auto)
    then show ?thesis
      unfolding Tw e using d c(6,7) [OF d(1)] spares_trans [OF _ spares_reap] by (simp add: reap_keyed reap_def)
  qed
  show "Vs (T w) = Vs w \<and> keyed pvc_Meta (Vc (T w)) \<and> claim_left sp (Vc (T w)) (int q) = None \<and>
      spares pvc_Meta (claim_keys sp {q}) (Vc w) (Vc (T w)) \<and> Vp (T w) = reap pod_Meta (Vp w)"
    if none: "Vp w (pod_key sp q) = None" and "claim_left sp (Vc w) (int q) \<noteq> None"
  proof -
    let ?k = "NN (Namespace (sp_Meta sp)) (claim_name sp (int q))"
    from that obtain pvc where pvc: "claim_left sp (Vc w) (int q) = Some pvc" by blast
    then have t: "PVCTemplate (Spec sp) \<noteq> None" "Vc w ?k = Some pvc" by (auto simp: claim_left_def split: if_splits)
    obtain y w' where d: "pvc_srv cl (Delete pvc []) w = (Inr y, w')" "keyed pvc_Meta (Vc w')" "going pvc_Meta (Vc w' ?k)"
      "\<And>m. m \<noteq> ?k \<Longrightarrow> Vc w' m = Vc w m"
      using deletes_Delete [OF g(3) assms(11) t(2), of "[]"] by blast
    have Tw: "T w = E w'" using st none pvc d(1) by (simp add: T)
    have "spares pvc_Meta (claim_keys sp {q}) (Vc w) (Vc w')"
      by (rule spares_one [OF d(4)]) (use t in \<open>auto simp: claim_keys_def\<close>)
    then show ?thesis
      unfolding Tw e using d c(8,9) [OF d(1)] spares_trans [OF _ spares_reap] by (auto simp: reap_keyed reap_def claim_left_def)
  qed
  show "\<exists>sp'. Vs (T w) = (Vs w)(sp_key sp \<mapsto> sp') \<and> pods_of sp' = take q (pods_of sp) \<and> pvcs_of sp' = take q (pvcs_of sp) \<and>
        same_shape sp sp' \<and> Vp (T w) = reap pod_Meta (Vp w) \<and> Vc (T w) = reap pvc_Meta (Vc w)"
    if "Vp w (pod_key sp q) = None" "claim_left sp (Vc w) (int q) = None"
    using st that by (auto simp: T e)
qed

lemma same_shape_keys: "same_shape sp0 sp \<Longrightarrow> claim_keys sp = claim_keys sp0"
  by (rule ext) (simp add: claim_keys_def same_shape_def)

text \<open>The ordinals that are to go: recorded, not timed out, their claims not pending.\<close>

definition removable :: "StatefulPod \<Rightarrow> nat \<Rightarrow> nat \<Rightarrow> bool" where
  "removable sp N m \<longleftrightarrow> (\<exists>sz. Size (Spec sp) = Some sz \<and> int_of_int32 sz = int N) \<and> m = length (pods_of sp) \<and>
     (PVCTemplate (Spec sp) \<noteq> None \<longrightarrow> claim_volume (Spec sp)) \<and>
     (\<forall>i. N \<le> i \<and> i < m \<longrightarrow> ps_Status (pods_of sp ! i) \<noteq> ''CreateTimeOut'' \<and> pvs_Status (pvcs_of sp ! i) \<noteq> ''Pending'')"

lemma shedding_view:
  assumes "shedding Vs Vp Vc sp0 N m w0 (Suc q) w" "removable sp0 N m" "N \<le> q" "q < m"
  obtains sp sz where "Vs w (sp_key sp) = Some sp" "wf_sp sp" "Size (Spec sp) = Some sz"
    "settled (int_of_int32 sz) (phases_of sp) = int (Suc q)" "int_of_int32 sz \<le> int q" "0 \<le> int_of_int32 sz"
    "PVCTemplate (Spec sp) \<noteq> None \<Longrightarrow> claim_volume (Spec sp)" "same_shape sp0 sp"
    "Vs w = (Vs w0)(sp_key sp0 \<mapsto> sp)" "pods_of sp = take (Suc q) (pods_of sp0)" "pvcs_of sp = take (Suc q) (pvcs_of sp0)"
proof -
  obtain sp where sp: "Vs w = (Vs w0)(sp_key sp0 \<mapsto> sp)" "wf_sp sp" "same_shape sp0 sp" "pods_of sp = take (Suc q) (pods_of sp0)"
     "pvcs_of sp = take (Suc q) (pvcs_of sp0)" using assms(1) unfolding shedding_def by blast
  obtain sz where sz: "Size (Spec sp) = Some sz" "int_of_int32 sz = int N"
    using assms(2) same_shape_names [OF sp(3)] by (auto simp: removable_def)
  have "settled (int_of_int32 sz) (phases_of sp) = int (Suc q)"
    by (rule settled_full [OF sp(2)]) (use assms(2-4) sz(2) in \<open>auto simp: sp(4,5) removable_def\<close>)
  then show thesis
    using assms(2,3) sp sz same_shape_names [OF sp(3)] by (intro that [of sp sz]) (auto simp: removable_def)
qed

lemma shedding_same:
  assumes "shedding Vs Vp Vc sp0 N m w0 n w" "Vs w' = Vs w" "keyed pod_Meta (Vp w')" "keyed pvc_Meta (Vc w')"
    "spares pod_Meta (pod_key sp0 ` {N..<m}) (Vp w) (Vp w')" "spares pvc_Meta (claim_keys sp0 {N..<m}) (Vc w) (Vc w')"
  shows "shedding Vs Vp Vc sp0 N m w0 n w'"
proof -
  have "Vp w' nn = None" if "Vp w nn = None" for nn by (rule spares_None [OF assms(5) that])
  moreover have "claim_left sp0 (Vc w') i = None" if "claim_left sp0 (Vc w) i = None" for i
    using that spares_None [OF assms(6)] by (auto simp: claim_left_def split: if_splits)
  ultimately show ?thesis
    using assms(1) unfolding shedding_def
    by (simp add: assms(2-4)) (use spares_trans [OF _ assms(5)] spares_trans [OF _ assms(6)] in blast)
qed

lemma shed_pod:
  assumes "graceful cl Vs Vp Vc E" "removable sp0 N m" "N \<le> q" "q < m" "2 \<le> fuel" "T = turn cl env fuel E (sp_key sp0)"
  shows "leads T 1 (shedding Vs Vp Vc sp0 N m w0 (Suc q)) (\<lambda>w. shedding Vs Vp Vc sp0 N m w0 (Suc q) w \<and> Vp w (pod_key sp0 q) = None)"
proof (rule leads_one)
  fix w assume sh: "shedding Vs Vp Vc sp0 N m w0 (Suc q) w" and "\<not> (shedding Vs Vp Vc sp0 N m w0 (Suc q) w \<and> Vp w (pod_key sp0 q) = None)"
  then have pod: "Vp w (pod_key sp0 q) \<noteq> None" by simp
  have k: "keyed pod_Meta (Vp w)" "keyed pvc_Meta (Vc w)" using sh by (simp_all add: shedding_def)
  obtain sp sz where v: "Vs w (sp_key sp) = Some sp" "wf_sp sp" "Size (Spec sp) = Some sz"
    "settled (int_of_int32 sz) (phases_of sp) = int (Suc q)" "int_of_int32 sz \<le> int q" "0 \<le> int_of_int32 sz"
    "PVCTemplate (Spec sp) \<noteq> None \<Longrightarrow> claim_volume (Spec sp)" and s: "same_shape sp0 sp"
    by (rule shedding_view [OF sh assms(2-4)]) metis
  note nm = same_shape_names [OF s] same_shape_keys [OF s]
  from turn_shrink(1) [OF assms(1) v assms(5) k assms(6) [folded nm(1)]] pod
  have t: "Vs (T w) = Vs w" "keyed pod_Meta (Vp (T w))" "Vp (T w) (pod_key sp0 q) = None"
    "spares pod_Meta {pod_key sp0 q} (Vp w) (Vp (T w))" "Vc (T w) = reap pvc_Meta (Vc w)" by (simp_all add: nm)
  have "shedding Vs Vp Vc sp0 N m w0 (Suc q) (T w)"
    by (rule shedding_same [OF sh t(1,2)]) (use assms(3,4) t(5) k(2) spares_mono [OF t(4)] in \<open>auto simp: reap_keyed spares_reap\<close>)
  with t(3) show "shedding Vs Vp Vc sp0 N m w0 (Suc q) (T w) \<and> Vp (T w) (pod_key sp0 q) = None" by simp
qed

lemma shed_claim:
  assumes "graceful cl Vs Vp Vc E" "removable sp0 N m" "N \<le> q" "q < m" "2 \<le> fuel" "T = turn cl env fuel E (sp_key sp0)"
  shows "leads T 1 (\<lambda>w. shedding Vs Vp Vc sp0 N m w0 (Suc q) w \<and> Vp w (pod_key sp0 q) = None)
      (\<lambda>w. shedding Vs Vp Vc sp0 N m w0 (Suc q) w \<and> Vp w (pod_key sp0 q) = None \<and> claim_left sp0 (Vc w) (int q) = None)"
proof (rule leads_one, elim conjE)
  fix w assume sh: "shedding Vs Vp Vc sp0 N m w0 (Suc q) w" and pod: "Vp w (pod_key sp0 q) = None"
    and "\<not> (shedding Vs Vp Vc sp0 N m w0 (Suc q) w \<and> Vp w (pod_key sp0 q) = None \<and> claim_left sp0 (Vc w) (int q) = None)"
  then have pvc: "claim_left sp0 (Vc w) (int q) \<noteq> None" by simp
  have k: "keyed pod_Meta (Vp w)" "keyed pvc_Meta (Vc w)" using sh by (simp_all add: shedding_def)
  obtain sp sz where v: "Vs w (sp_key sp) = Some sp" "wf_sp sp" "Size (Spec sp) = Some sz"
    "settled (int_of_int32 sz) (phases_of sp) = int (Suc q)" "int_of_int32 sz \<le> int q" "0 \<le> int_of_int32 sz"
    "PVCTemplate (Spec sp) \<noteq> None \<Longrightarrow> claim_volume (Spec sp)" and s: "same_shape sp0 sp"
    by (rule shedding_view [OF sh assms(2-4)]) metis
  note nm = same_shape_names [OF s] same_shape_keys [OF s]
  from turn_shrink(2) [OF assms(1) v assms(5) k assms(6) [folded nm(1)]] pod pvc
  have t: "Vs (T w) = Vs w" "keyed pvc_Meta (Vc (T w))" "claim_left sp0 (Vc (T w)) (int q) = None"
    "spares pvc_Meta (claim_keys sp0 {q}) (Vc w) (Vc (T w))" "Vp (T w) = reap pod_Meta (Vp w)" by (simp_all add: nm)
  have "claim_keys sp0 {q} \<subseteq> claim_keys sp0 {N..<m}" using assms(3,4) by (auto simp: claim_keys_def)
  with t(2,5) k(1) spares_mono [OF t(4)] have "shedding Vs Vp Vc sp0 N m w0 (Suc q) (T w)"
    by (intro shedding_same [OF sh t(1)]) (auto simp: reap_keyed spares_reap)
  moreover have "Vp (T w) (pod_key sp0 q) = None" using pod by (simp add: t(5) reap_def)
  ultimately show "shedding Vs Vp Vc sp0 N m w0 (Suc q) (T w) \<and> Vp (T w) (pod_key sp0 q) = None \<and>
      claim_left sp0 (Vc (T w)) (int q) = None" using t(3) by simp
qed

lemma shed_entry:
  assumes "graceful cl Vs Vp Vc E" "removable sp0 N m" "N \<le> q" "q < m" "2 \<le> fuel" "T = turn cl env fuel E (sp_key sp0)"
  shows "leads T 1 (\<lambda>w. shedding Vs Vp Vc sp0 N m w0 (Suc q) w \<and> Vp w (pod_key sp0 q) = None \<and> claim_left sp0 (Vc w) (int q) = None)
      (shedding Vs Vp Vc sp0 N m w0 q)"
proof (rule leads_one, elim conjE)
  fix w assume sh: "shedding Vs Vp Vc sp0 N m w0 (Suc q) w" and none: "Vp w (pod_key sp0 q) = None" "claim_left sp0 (Vc w) (int q) = None"
  have k: "keyed pod_Meta (Vp w)" "keyed pvc_Meta (Vc w)" using sh by (simp_all add: shedding_def)
  obtain sp sz where v: "Vs w (sp_key sp) = Some sp" "wf_sp sp" "Size (Spec sp) = Some sz"
    "settled (int_of_int32 sz) (phases_of sp) = int (Suc q)" "int_of_int32 sz \<le> int q" "0 \<le> int_of_int32 sz"
    "PVCTemplate (Spec sp) \<noteq> None \<Longrightarrow> claim_volume (Spec sp)" and s: "same_shape sp0 sp" "Vs w = (Vs w0)(sp_key sp0 \<mapsto> sp)"
      "pods_of sp = take (Suc q) (pods_of sp0)" "pvcs_of sp = take (Suc q) (pvcs_of sp0)"
    by (rule shedding_view [OF sh assms(2-4)]) metis
  note nm = same_shape_names [OF s(1)] same_shape_keys [OF s(1)]
  from turn_shrink(3) [OF assms(1) v assms(5) k assms(6) [folded nm(1)]] none
  obtain sp' where t: "Vs (T w) = (Vs w)(sp_key sp0 \<mapsto> sp')" "pods_of sp' = take q (pods_of sp)" "pvcs_of sp' = take q (pvcs_of sp)"
    "same_shape sp sp'" "Vp (T w) = reap pod_Meta (Vp w)" "Vc (T w) = reap pvc_Meta (Vc w)" by (auto simp: nm)
  have gone: "Vp (T w) nn = None" if "Vp w nn = None" for nn using that by (simp add: t(5) reap_def)
  have gonec: "claim_left sp0 (Vc (T w)) i = None" if "claim_left sp0 (Vc w) i = None" for i
    using that by (auto simp: t(6) reap_def claim_left_def)
  have "Vs (T w) = (Vs w0)(sp_key sp0 \<mapsto> sp')" by (simp add: t(1) s(2))
  moreover have "pods_of sp' = take q (pods_of sp0)" "pvcs_of sp' = take q (pvcs_of sp0)" by (simp_all add: t(2,3) s(3,4))
  moreover have "same_shape sp0 sp'" using s(1) t(4) by (simp add: same_shape_def)
  moreover have "wf_sp sp'" using v(2) wf_status_length [OF v(2)] t(2,3) by (auto simp: wf_status_def)
  moreover have "Vp (T w) (pod_key sp0 i) = None \<and> claim_left sp0 (Vc (T w)) (int i) = None" if "q \<le> i \<and> i < m" for i
    using that sh none gone gonec unfolding shedding_def by (cases "i = q") auto
  moreover have "spares pod_Meta (pod_key sp0 ` {N..<m}) (Vp w0) (Vp (T w))" "spares pvc_Meta (claim_keys sp0 {N..<m}) (Vc w0) (Vc (T w))"
    using sh spares_trans [OF _ spares_reap] unfolding shedding_def t(5,6) by blast+
  ultimately show "shedding Vs Vp Vc sp0 N m w0 q (T w)"
    unfolding shedding_def using k by (auto simp: t(5,6) reap_keyed)
qed

lemma shed_all:
  assumes "graceful cl Vs Vp Vc E" "removable sp0 N m" "N \<le> m" "2 \<le> fuel" "T = turn cl env fuel E (sp_key sp0)"
  shows "leads T (3 * (m - N)) (shedding Vs Vp Vc sp0 N m w0 m) (shedding Vs Vp Vc sp0 N m w0 N)"
proof (rule leads_count [OF _ assms(3)])
  fix q assume q: "N \<le> q" "q < m"
  have "leads T (1 + 1 + 1) (shedding Vs Vp Vc sp0 N m w0 (Suc q)) (shedding Vs Vp Vc sp0 N m w0 q)"
    by (rule leads_trans [OF leads_trans [OF shed_pod shed_claim] shed_entry]) (fact assms(1,2,4,5) q)+
  then show "leads T 3 (shedding Vs Vp Vc sp0 N m w0 (Suc q)) (shedding Vs Vp Vc sp0 N m w0 q)" by (simp add: numeral_3_eq_3)
qed


text \<open>C12: shrinking converges. Take a StatefulPod with \<open>m\<close> entries and a size \<open>N\<close> below, none of the entries to go timed out or
  with a pending claim, on a server that deletes gracefully. After at most three rounds per ordinal to go (the
  StatefulPod is reconciled, the rest of the cluster ends what is being deleted) the two status lists are cut to the first
  \<open>N\<close> entries and the pods and claims of the ordinals from \<open>N\<close> on are gone; the pods and claims of the
  ordinals below \<open>N\<close>, like every other pod and claim that is not being deleted, are as they were.\<close>

theorem shrink_converges:
  assumes "graceful cl Vs Vp Vc E" "Vs w (sp_key sp) = Some sp" "wf_sp sp" "Size (Spec sp) = Some sz" "int_of_int32 sz = int N"
    "length (pods_of sp) = m" "N \<le> m" "PVCTemplate (Spec sp) \<noteq> None \<Longrightarrow> claim_volume (Spec sp)"
    "\<And>i. N \<le> i \<Longrightarrow> i < m \<Longrightarrow> ps_Status (pods_of sp ! i) \<noteq> ''CreateTimeOut'' \<and> pvs_Status (pvcs_of sp ! i) \<noteq> ''Pending''"
    "keyed pod_Meta (Vp w)" "keyed pvc_Meta (Vc w)" "2 \<le> fuel"
  shows "\<exists>k \<le> 3 * (m - N). \<exists>w' sp'. w' = (turn cl env fuel E (sp_key sp) ^^ k) w \<and>
    Vs w' = (Vs w)(sp_key sp \<mapsto> sp') \<and> pods_of sp' = take N (pods_of sp) \<and> pvcs_of sp' = take N (pvcs_of sp) \<and>
    (\<forall>i. N \<le> i \<and> i < m \<longrightarrow> Vp w' (pod_key sp i) = None \<and> claim_left sp (Vc w') (int i) = None) \<and>
    spares pod_Meta (pod_key sp ` {N..<m}) (Vp w) (Vp w') \<and> spares pvc_Meta (claim_keys sp {N..<m}) (Vc w) (Vc w') \<and>
    (\<forall>i < N. \<not> going pod_Meta (Vp w (pod_key sp i)) \<longrightarrow> Vp w' (pod_key sp i) = Vp w (pod_key sp i)) \<and>
    (\<forall>i < N. \<not> going pvc_Meta (claim_left sp (Vc w) (int i)) \<longrightarrow> claim_left sp (Vc w') (int i) = claim_left sp (Vc w) (int i))"
proof -
  have rem: "removable sp N m" using assms(4-9) by (auto simp: removable_def)
  have "shedding Vs Vp Vc sp N m w m w"
    using assms(2,3,6,10,11) wf_status_length [OF assms(3)] unfolding shedding_def same_shape_def
    by (intro conjI exI [of _ sp]) (auto simp: fun_upd_idem)
  then obtain k where k: "k \<le> 3 * (m - N)" and sh: "shedding Vs Vp Vc sp N m w N ((turn cl env fuel E (sp_key sp) ^^ k) w)"
    using shed_all [OF assms(1) rem assms(7,12) refl] unfolding leads_def by blast
  define w' where "w' = (turn cl env fuel E (sp_key sp) ^^ k) w"
  have pods: "Vp w' (pod_key sp i) = Vp w (pod_key sp i)" if "i < N" "\<not> going pod_Meta (Vp w (pod_key sp i))" for i
  proof -
    have "pod_key sp i \<notin> pod_key sp ` {N..<m}" using that(1) by (auto simp: GetName_ordinal)
    with sh that(2) show ?thesis unfolding w'_def [symmetric] shedding_def spares_def by blast
  qed
  have claims: "claim_left sp (Vc w') (int i) = claim_left sp (Vc w) (int i)"
    if "i < N" "\<not> going pvc_Meta (claim_left sp (Vc w) (int i))" for i
  proof (cases "PVCTemplate (Spec sp) = None")
    case False
    let ?ck = "NN (Namespace (sp_Meta sp)) (claim_name sp (int i))"
    have "?ck \<notin> claim_keys sp {N..<m}" "\<not> going pvc_Meta (Vc w ?ck)"
      using that claim_name_ordinal [OF assms(8) [OF False]] by (auto simp: claim_keys_def claim_left_def split: if_splits)
    with sh have "Vc w' ?ck = Vc w ?ck" unfolding w'_def [symmetric] shedding_def spares_def by blast
    then show ?thesis by (simp add: claim_left_def)
  qed (simp add: claim_left_def)
  show ?thesis
    using k sh [folded w'_def] pods claims unfolding shedding_def
    by (intro exI [of _ k] conjI) (auto simp: w'_def [symmetric])
qed

text \<open>
  The rest of the cluster for the server in memory, which deletes at once: it ends what is being deleted, and a volume without a claim is
  available.
\<close>

definition mem_reaper :: "world \<Rightarrow> world" where
  "mem_reaper w = w\<lparr>pods := reap pod_Meta (pods w), claims := reap pvc_Meta (claims w),
     pvs := (\<lambda>nn. map_option (\<lambda>pv. if pv_ClaimRef pv = None then pv\<lparr>pv_Phase := ''Available''\<rparr> else pv) (pvs w nn))\<rparr>"

lemma mem_deletes: "deletes pod_Meta (pod_srv mem_client) pods" "deletes pvc_Meta (pvc_srv mem_client) claims"
  by (auto simp: deletes_def mem_client_def serve_obj_def Let_def)

lemma mem_graceful [simp]: "graceful mem_client sps pods claims mem_reaper"
  by (simp add: graceful_def mem_deletes reaper_def mem_reaper_def)

theorem shrink_converges_witness:
  "\<exists>k \<le> 6. \<exists>sp'. sps ((turn mem_client demo_env 2 mem_reaper (NN ''ns'' ''db'') ^^ k) (empty_world\<lparr>
        sps := (\<lambda>_. None)(NN ''ns'' ''db'' \<mapsto> shrinking_sp ''Bound''),
        pods := (\<lambda>_. None)(NN ''ns'' ''db-2'' \<mapsto> demo_pod ''db-2'' ''2'' ''Running''),
        claims := (\<lambda>_. None)(NN ''ns'' ''data-db-1'' \<mapsto> demo_pvc ''data-db-1'' ''1'' ''Bound'')\<rparr>)) (NN ''ns'' ''db'') = Some sp' \<and>
    length (pods_of sp') = 1"
proof -
  define sp where "sp = shrinking_sp ''Bound''"
  note sp = shrinking_sp_simps [of "''Bound''", folded sp_def]
  define w where "w = empty_world\<lparr>sps := (\<lambda>_. None)(NN ''ns'' ''db'' \<mapsto> sp),
        pods := (\<lambda>_. None)(NN ''ns'' ''db-2'' \<mapsto> demo_pod ''db-2'' ''2'' ''Running''),
        claims := (\<lambda>_. None)(NN ''ns'' ''data-db-1'' \<mapsto> demo_pvc ''data-db-1'' ''1'' ''Bound'')\<rparr>"
  have w: "sps w (sp_key sp) = Some sp" "keyed pod_Meta (pods w)" "keyed pvc_Meta (claims w)"
    unfolding sp(4) by (simp_all add: w_def keyed_def demo_pod_def demo_pvc_def demo_meta_def)
  have ph: "ps_Status (pods_of sp ! i) \<noteq> ''CreateTimeOut'' \<and> pvs_Status (pvcs_of sp ! i) \<noteq> ''Pending''" if "1 \<le> i" "i < 3" for i
    using that less_Suc_eq [of i 2] by (auto simp: sp_def shrinking_sp_def demo_sp_claims_def demo_sp_def Let_def less_Suc_eq numeral_3_eq_3)
  have "\<exists>k \<le> 3 * (3 - 1). \<exists>w' sp'. w' = (turn mem_client demo_env 2 mem_reaper (sp_key sp) ^^ k) w \<and>
      sps w' = (sps w)(sp_key sp \<mapsto> sp') \<and> pods_of sp' = take 1 (pods_of sp)"
    using shrink_converges [OF mem_graceful w(1) sp(1,2) _ sp(5) _ sp(3) ph w(2,3) order_refl, of 1 demo_env] shrinking_sp_settled(3)
    by (simp add: less_eq_Suc_le) blast
  then obtain k sp' where k: "k \<le> 6" "sps ((turn mem_client demo_env 2 mem_reaper (sp_key sp) ^^ k) w) = (sps w)(sp_key sp \<mapsto> sp')"
    "pods_of sp' = take 1 (pods_of sp)" by auto
  then have "sps ((turn mem_client demo_env 2 mem_reaper (NN ''ns'' ''db'') ^^ k) w) (NN ''ns'' ''db'') = Some sp'" "length (pods_of sp') = 1"
    unfolding sp(4) by (simp_all add: sp(5))
  with k(1) show ?thesis unfolding w_def sp_def by blast
qed

end
