(* ===== verification/Deletion.thy ===== *)
theory Deletion
  imports Teardown
begin

text \<open>
  The deletion of a StatefulPod comes to its end: its volumes are retained, its pods and claims deleted, the volumes made
  available, and then the finalizer goes.
\<close>

section \<open>The loops over pods and claims\<close>

context remover
begin

text \<open>On a server that deletes, one pass over the list leaves none of the children that is not gone or on its way out.\<close>

lemma loop_deletes:
  assumes "reads (srv cl) V" "deletes meta (srv cl) V" "\<And>r w. F (snd (srv cl r w)) = F w" "keyed meta (V w)"
  shows "\<exists>n w'. run cl (loop ns ss cnt) w = (Done (Some n), w') \<and> F w' = F w \<and> keyed meta (V w') \<and>
    (\<forall>s \<in> set ss. going meta (V w' (NN ns (name s)))) \<and> (\<forall>nn. nn \<notin> (\<lambda>s. NN ns (name s)) ` set ss \<longrightarrow> V w' nn = V w nn) \<and>
    (\<forall>nn. going meta (V w nn) \<longrightarrow> going meta (V w' nn)) \<and> (\<forall>nn. V w nn = None \<longrightarrow> V w' nn = None)"
  using assms(4)
proof (induction ss arbitrary: cnt w)
  case Nil
  then show ?case by (simp add: loop_Nil)
next
  case (Cons s ss)
  let ?k = "NN ns (name s)"
  show ?case
  proof (cases "V w ?k")
    case None
    then have "run cl (loop ns (s # ss) cnt) w = run cl (loop ns ss (cnt + 1)) w"
      by (simp add: loop_Cons IsExists_reads [OF assms(1)])
    with Cons.IH [OF Cons.prems, of "cnt + 1"] None show ?thesis by auto
  next
    case (Some x)
    obtain y w1 where d: "srv cl (Delete x []) w = (Inr y, w1)" "keyed meta (V w1)" "going meta (V w1 ?k)"
      "\<And>m. m \<noteq> ?k \<Longrightarrow> V w1 m = V w m"
      using deletes_Delete [OF assms(2) Cons.prems Some, of "[]"] by blast
    have F: "F w1 = F w" using assms(3) [of "Delete x []" w] d(1) by simp
    have run: "run cl (loop ns (s # ss) cnt) w = run cl (loop ns ss cnt) w1"
      using Some d(1) by (simp add: loop_Cons IsExists_reads [OF assms(1)] run_Remove)
    have step: "going meta (V w nn) \<longrightarrow> going meta (V w1 nn)" "V w nn = None \<longrightarrow> V w1 nn = None" for nn
      using d(3,4) Some by (cases "nn = ?k"; simp)+
    obtain n w' where "run cl (loop ns ss cnt) w1 = (Done (Some n), w')" "F w' = F w1" "keyed meta (V w')"
      "\<forall>s \<in> set ss. going meta (V w' (NN ns (name s)))" "\<forall>nn. nn \<notin> (\<lambda>s. NN ns (name s)) ` set ss \<longrightarrow> V w' nn = V w1 nn"
      "\<forall>nn. going meta (V w1 nn) \<longrightarrow> going meta (V w' nn)" "\<forall>nn. V w1 nn = None \<longrightarrow> V w' nn = None"
      using Cons.IH [OF d(2), of cnt] by blast
    with d F step run show ?thesis by (intro exI [of _ n] exI [of _ w']) auto
  qed
qed

end

text \<open>The two operations of the controllers, when some of the children are still there.\<close>

definition pod_keys :: "StatefulPod \<Rightarrow> NamespacedName set" where
  "pod_keys sp = (\<lambda>s. NN (Namespace (sp_Meta sp)) (PodName s)) ` set (pods_of sp)"

definition pvc_keys :: "StatefulPod \<Rightarrow> NamespacedName set" where
  "pvc_keys sp = (\<lambda>s. NN (Namespace (sp_Meta sp)) (PVCName s)) ` set (pvcs_of sp)"

lemma DeletePodAll_deletes:
  assumes "reads (pod_srv cl) Vp" "deletes pod_Meta (pod_srv cl) Vp" "\<And>r w. F (snd (pod_srv cl r w)) = F w"
    "keyed pod_Meta (Vp w)" "wf_sp sp" "\<exists>k \<in> pod_keys sp. Vp w k \<noteq> None"
  obtains w' where "run cl (PodCtrl_DeletePodAll sp) w = (Done False, w')" "F w' = F w" "keyed pod_Meta (Vp w')"
    "\<forall>k \<in> pod_keys sp. reap pod_Meta (Vp w') k = None" "spares pod_Meta (pod_keys sp) (Vp w) (Vp w')"
proof -
  obtain n w1 where l: "run cl (PodCtrl_DeletePodAll_loop (Namespace (sp_Meta sp)) (pods_of sp) 0) w = (Done (Some n), w1)"
    "F w1 = F w" "keyed pod_Meta (Vp w1)" "\<forall>s \<in> set (pods_of sp). going pod_Meta (Vp w1 (NN (Namespace (sp_Meta sp)) (PodName s)))"
    "\<forall>nn. nn \<notin> (\<lambda>s. NN (Namespace (sp_Meta sp)) (PodName s)) ` set (pods_of sp) \<longrightarrow> Vp w1 nn = Vp w nn"
    "\<forall>nn. Vp w nn = None \<longrightarrow> Vp w1 nn = None"
    using pod_remover.loop_deletes [where F = F, OF assms(1-4), of "Namespace (sp_Meta sp)" "pods_of sp" 0] by blast
  obtain b w' where r: "run cl (PodCtrl_DeletePodAll sp) w = (Done b, w')"
    "b \<longleftrightarrow> (\<forall>s \<in> set (pods_of sp). Vp w (NN (Namespace (sp_Meta sp)) (PodName s)) = None)"
    using run_DeletePodAll [where F = F, OF assms(1,5,3), of w] by blast
  have "w' = w1" using r(1) l(1) by (auto simp: PodCtrl_DeletePodAll_def split: if_splits)
  moreover have "\<not> b" using r(2) assms(6) by (auto simp: pod_keys_def)
  ultimately show thesis using r(1) l by (intro that [of w1]) (auto simp: pod_keys_def reap_def spares_def)
qed

lemma DeletePvcAll_deletes:
  assumes "reads (pvc_srv cl) Vc" "deletes pvc_Meta (pvc_srv cl) Vc" "\<And>r w. F (snd (pvc_srv cl r w)) = F w"
    "keyed pvc_Meta (Vc w)" "\<exists>k \<in> pvc_keys sp. Vc w k \<noteq> None"
  obtains w' where "run cl (PVCCtrl_DeletePvcAll sp) w = (Done False, w')" "F w' = F w" "keyed pvc_Meta (Vc w')"
    "\<forall>k \<in> pvc_keys sp. reap pvc_Meta (Vc w') k = None" "spares pvc_Meta (pvc_keys sp) (Vc w) (Vc w')"
proof -
  obtain n w1 where l: "run cl (PVCCtrl_DeletePvcAll_loop (Namespace (sp_Meta sp)) (pvcs_of sp) 0) w = (Done (Some n), w1)"
    "F w1 = F w" "keyed pvc_Meta (Vc w1)" "\<forall>s \<in> set (pvcs_of sp). going pvc_Meta (Vc w1 (NN (Namespace (sp_Meta sp)) (PVCName s)))"
    "\<forall>nn. nn \<notin> (\<lambda>s. NN (Namespace (sp_Meta sp)) (PVCName s)) ` set (pvcs_of sp) \<longrightarrow> Vc w1 nn = Vc w nn"
    "\<forall>nn. Vc w nn = None \<longrightarrow> Vc w1 nn = None"
    using pvc_remover.loop_deletes [where F = F, OF assms(1-4), of "Namespace (sp_Meta sp)" "pvcs_of sp" 0] by blast
  obtain b w' where r: "run cl (PVCCtrl_DeletePvcAll sp) w = (Done b, w')"
    "b \<longleftrightarrow> (\<forall>s \<in> set (pvcs_of sp). Vc w (NN (Namespace (sp_Meta sp)) (PVCName s)) = None)"
    using run_DeletePvcAll [where F = F, OF assms(1,3), of sp w] by blast
  have "w' = w1" using r(1) l(1) by (auto simp: PVCCtrl_DeletePvcAll_def split: if_splits)
  moreover have "\<not> b" using r(2) assms(5) by (auto simp: pvc_keys_def)
  ultimately show thesis using r(1) l by (intro that [of w1]) (auto simp: pvc_keys_def reap_def spares_def)
qed

section \<open>The loops over volumes\<close>

definition slave :: "PV \<Rightarrow> bool" where
  "slave pv \<longleftrightarrow> gomap_get (Annotations (pv_Meta pv)) ''redis-slave'' \<noteq> None"

text \<open>A volume a server has stored, as far as the program wrote it: the phase belongs to the server. A volume that is being deleted is
  let go when its finalizers are emptied.\<close>

definition stored_as :: "PV \<Rightarrow> PV \<Rightarrow> bool" where
  "stored_as pv p \<longleftrightarrow> Namespace (pv_Meta p) = Namespace (pv_Meta pv) \<and> Name (pv_Meta p) = Name (pv_Meta pv) \<and>
     Annotations (pv_Meta p) = Annotations (pv_Meta pv) \<and> pv_ReclaimPolicy p = pv_ReclaimPolicy pv \<and> pv_ClaimRef p = pv_ClaimRef pv"

definition stores_volumes :: "(PV req \<Rightarrow> 'w \<Rightarrow> PV resp \<times> 'w) \<Rightarrow> ('w \<Rightarrow> NamespacedName \<Rightarrow> PV option) \<Rightarrow> bool" where
  "stores_volumes f V \<longleftrightarrow> reads f V \<and> (\<forall>pv w cur. V w (NN (Namespace (pv_Meta pv)) (Name (pv_Meta pv))) = Some cur \<longrightarrow>
     ResourceVersion (pv_Meta cur) = ResourceVersion (pv_Meta pv) \<longrightarrow>
     (\<exists>p w'. f (Update pv) w = (Inr p, w') \<and> stored_as pv p \<and> V w' = (V w)(NN (Namespace (pv_Meta pv)) (Name (pv_Meta pv)) :=
        (if let_go (pv_Meta cur) (pv_Meta pv) then None else Some p))))"

text \<open>
  A loop that writes a volume which is not as wanted: if what it writes is as wanted (\<open>G\<close>), then after the loop every volume of
  the list is. \<open>J\<close> is what has to hold of the volumes for it to write at all.
\<close>

locale writer = counter srv loop ok
  for srv :: "'w client \<Rightarrow> PV req \<Rightarrow> 'w \<Rightarrow> PV resp \<times> 'w"
    and loop :: "PVCStatus list \<Rightarrow> nat \<Rightarrow> nat option prog" and ok :: "PV option \<Rightarrow> bool" +
  fixes change :: "PV \<Rightarrow> PV" and J :: "PV option \<Rightarrow> bool" and G :: "PV option \<Rightarrow> bool"
  assumes srv_pv: "srv cl = pv_srv cl"
    and loop_change: "reads (srv cl) V \<Longrightarrow> V w (volume_key v) = Some pv \<Longrightarrow> J (Some pv) \<Longrightarrow> \<not> ok (Some pv) \<Longrightarrow>
      run cl (loop (v # vs) cnt) w = run cl (bnd (PVService_Update (change pv)) (\<lambda>u. case u of Inl e \<Rightarrow> Ret None | Inr p \<Rightarrow> loop vs cnt)) w"
    and ok_None: "ok None" and J_None: "J None"
    and change_meta: "Namespace (pv_Meta (change pv)) = Namespace (pv_Meta pv)" "Name (pv_Meta (change pv)) = Name (pv_Meta pv)"
      "ResourceVersion (pv_Meta (change pv)) = ResourceVersion (pv_Meta pv)"
    and G_ok: "J x \<Longrightarrow> ok x \<Longrightarrow> G x"
    and G_change: "J (Some pv) \<Longrightarrow> \<not> ok (Some pv) \<Longrightarrow> stored_as (change pv) p \<Longrightarrow> J (Some p) \<and> G (Some p)"
begin

lemma loop_settles:
  assumes "stores_volumes (srv cl) V" "\<And>r w. F (snd (srv cl r w)) = F w" "keyed pv_Meta (V w)"
    "\<forall>v \<in> set vs. J (V w (volume_key v))"
  shows "\<exists>n w'. run cl (loop vs cnt) w = (Done (Some n), w') \<and> F w' = F w \<and> keyed pv_Meta (V w') \<and>
    (\<forall>v \<in> set vs. G (V w' (volume_key v))) \<and> (\<forall>nn. J (V w nn) \<longrightarrow> J (V w' nn)) \<and>
    (\<forall>nn. J (V w nn) \<and> G (V w nn) \<longrightarrow> G (V w' nn))"
  using assms(3,4)
proof (induction vs arbitrary: cnt w)
  case Nil
  then show ?case by (simp add: loop_Nil)
next
  case (Cons v vs)
  have rd: "reads (srv cl) V" using assms(1) by (simp add: stores_volumes_def)
  show ?case
  proof (cases "ok (V w (volume_key v))")
    case True
    have J: "\<forall>v \<in> set vs. J (V w (volume_key v))" using Cons.prems by simp
    obtain n w' where "run cl (loop vs (Suc cnt)) w = (Done (Some n), w')" "F w' = F w" "keyed pv_Meta (V w')"
      "\<forall>v \<in> set vs. G (V w' (volume_key v))" "\<forall>nn. J (V w nn) \<longrightarrow> J (V w' nn)" "\<forall>nn. J (V w nn) \<and> G (V w nn) \<longrightarrow> G (V w' nn)"
      using Cons.IH [OF Cons.prems(1) J, of "Suc cnt"] by blast
    moreover have "G (V w (volume_key v))" using G_ok True Cons.prems by simp
    ultimately show ?thesis
      using loop_ok [OF rd True, of vs cnt] Cons.prems(2) by (intro exI [of _ n] exI [of _ w']) auto
  next
    case False
    then obtain pv where pv: "V w (volume_key v) = Some pv" using ok_None by (cases "V w (volume_key v)") auto
    have Jpv: "J (Some pv)" "\<not> ok (Some pv)" using Cons.prems(2) False pv by simp_all
    have k: "NN (Namespace (pv_Meta pv)) (Name (pv_Meta pv)) = volume_key v"
      using Cons.prems(1) pv by (simp add: keyed_def)
    then obtain p w1 where u: "srv cl (Update (change pv)) w = (Inr p, w1)" "stored_as (change pv) p"
      "V w1 = (V w)(volume_key v := (if let_go (pv_Meta pv) (pv_Meta (change pv)) then None else Some p))"
      using assms(1) pv change_meta [of pv] unfolding stores_volumes_def by metis
    define q where "q = (if let_go (pv_Meta pv) (pv_Meta (change pv)) then None else Some p)"
    have Vq: "V w1 = (V w)(volume_key v := q)" using u(3) by (simp add: q_def)
    have upd: "run cl (PVService_Update (change pv)) w = (Done (Inr p), w1)"
      using pv_versioned.Write_current [OF rd [unfolded srv_pv], of w "change pv" pv] pv k u(1) by (simp add: change_meta srv_pv)
    have F: "F w1 = F w" using assms(2) [of "Update (change pv)" w] u(1) by simp
    have JG: "J q" "G q" using G_change [OF Jpv u(2)] J_None G_ok [OF J_None ok_None] by (simp_all add: q_def)
    have k1: "keyed pv_Meta (V w1)"
      using Cons.prems(1) u(2) k unfolding Vq by (auto simp: keyed_def stored_as_def change_meta q_def split: if_splits)
    have J1: "\<forall>v \<in> set vs. J (V w1 (volume_key v))" using Cons.prems(2) JG(1) by (simp add: Vq)
    obtain n w' where l: "run cl (loop vs cnt) w1 = (Done (Some n), w')" "F w' = F w1" "keyed pv_Meta (V w')"
      "\<forall>v \<in> set vs. G (V w' (volume_key v))" "\<forall>nn. J (V w1 nn) \<longrightarrow> J (V w' nn)" "\<forall>nn. J (V w1 nn) \<and> G (V w1 nn) \<longrightarrow> G (V w' nn)"
      using Cons.IH [OF k1 J1, of cnt] by blast
    have "run cl (loop (v # vs) cnt) w = (Done (Some n), w')"
      using loop_change [OF rd pv Jpv, of vs cnt] l(1) upd by simp
    moreover have "J (V w1 nn)" if "J (V w nn)" for nn using that JG(1) by (simp add: Vq)
    moreover have "G (V w1 nn)" if "G (V w nn)" for nn using that JG(2) by (simp add: Vq)
    moreover have "J (V w1 (volume_key v)) \<and> G (V w1 (volume_key v))" using JG by (simp add: Vq)
    ultimately show ?thesis
      using l F by (intro exI [of _ n] exI [of _ w']) auto
  qed
qed

end

text \<open>Volumes that are no slave's, that are retained as well, and that have no claim any more.\<close>

definition ours :: "PV option \<Rightarrow> bool" where
  "ours x = (case x of None \<Rightarrow> True | Some pv \<Rightarrow> \<not> slave pv)"

definition kept :: "PV option \<Rightarrow> bool" where
  "kept x \<longleftrightarrow> ours x \<and> retained x"

definition released :: "PV option \<Rightarrow> bool" where
  "released x \<longleftrightarrow> kept x \<and> (case x of None \<Rightarrow> True | Some pv \<Rightarrow> pv_ClaimRef pv = None \<or> pv_Phase pv = ''Available'')"

interpretation retain_writer: writer pv_srv PVCtrl_SetPVRetain_loop retained
  "\<lambda>pv. pv\<lparr>pv_ReclaimPolicy := ''Retain'', pv_StorageClassName := ''''\<rparr>" ours kept
proof
  fix cl :: "'a client" and V w v pv vs cnt
  assume "reads (pv_srv cl) V" "V w (volume_key v) = Some pv" "\<not> retained (Some pv)"
  then show "run cl (PVCtrl_SetPVRetain_loop (v # vs) cnt) w = run cl (bnd (PVService_Update
      (pv\<lparr>pv_ReclaimPolicy := ''Retain'', pv_StorageClassName := ''''\<rparr>)) (\<lambda>u. case u of Inl e \<Rightarrow> Ret None
        | Inr p \<Rightarrow> PVCtrl_SetPVRetain_loop vs cnt)) w"
    by (simp add: PVService_Get_reads volume_key_def retained_def)
qed (auto simp: ours_def kept_def retained_def stored_as_def slave_def split: option.splits)

interpretation available_writer: writer pv_srv PVCtrl_SetPVAvailable_loop available
  "\<lambda>pv. pv\<lparr>pv_Meta := (pv_Meta pv)\<lparr>Finalizers := []\<rparr>, pv_ClaimRef := None, pv_Phase := ''Available''\<rparr>" kept released
proof
  fix cl :: "'a client" and V w v pv vs cnt
  assume "reads (pv_srv cl) V" "V w (volume_key v) = Some pv" "\<not> available (Some pv)" "kept (Some pv)"
  then show "run cl (PVCtrl_SetPVAvailable_loop (v # vs) cnt) w = run cl (bnd (PVService_Update
      (pv\<lparr>pv_Meta := (pv_Meta pv)\<lparr>Finalizers := []\<rparr>, pv_ClaimRef := None, pv_Phase := ''Available''\<rparr>)) (\<lambda>u. case u of Inl e \<Rightarrow> Ret None
        | Inr p \<Rightarrow> PVCtrl_SetPVAvailable_loop vs cnt)) w"
    by (simp add: PVService_Get_reads volume_key_def available_def kept_def ours_def slave_def)
qed (auto simp: ours_def kept_def released_def retained_def available_def stored_as_def slave_def split: option.splits)

section \<open>Stage by stage\<close>

text \<open>
  What the rest of the cluster has to do with volumes: a volume stays retained, no volume becomes a slave's, and one that is
  released (no claim refers to it) is available after a step.
\<close>

definition keeps_volumes :: "'w client \<Rightarrow> ('w \<Rightarrow> NamespacedName \<Rightarrow> StatefulPod option) \<Rightarrow> ('w \<Rightarrow> NamespacedName \<Rightarrow> Pod option) \<Rightarrow>
    ('w \<Rightarrow> NamespacedName \<Rightarrow> PVC option) \<Rightarrow> ('w \<Rightarrow> NamespacedName \<Rightarrow> PV option) \<Rightarrow> ('w \<Rightarrow> 'w) \<Rightarrow> bool" where
  "keeps_volumes cl Vs Vp Vc Vv E \<longleftrightarrow> stores_volumes (pv_srv cl) Vv \<and>
     (\<forall>r w. Vs (snd (pv_srv cl r w)) = Vs w \<and> Vp (snd (pv_srv cl r w)) = Vp w \<and> Vc (snd (pv_srv cl r w)) = Vc w) \<and>
     (\<forall>r w. Vv (snd (pod_srv cl r w)) = Vv w) \<and> (\<forall>r w. Vv (snd (pvc_srv cl r w)) = Vv w) \<and> (\<forall>r w. Vv (snd (sp_srv cl r w)) = Vv w) \<and>
     (\<forall>w. keyed pv_Meta (Vv w) \<longrightarrow> keyed pv_Meta (Vv (E w))) \<and>
     (\<forall>w nn. (ours (Vv w nn) \<longrightarrow> ours (Vv (E w) nn)) \<and> (kept (Vv w nn) \<longrightarrow> kept (Vv (E w) nn)) \<and>
        (released (Vv w nn) \<longrightarrow> available (Vv (E w) nn)))"

lemma keeps_volumesD:
  assumes "keeps_volumes cl Vs Vp Vc Vv E"
  shows "stores_volumes (pv_srv cl) Vv" "reads (pv_srv cl) Vv"
    "Vs (snd (pv_srv cl r w)) = Vs w" "Vp (snd (pv_srv cl r w)) = Vp w" "Vc (snd (pv_srv cl r w)) = Vc w"
    "Vv (snd (pod_srv cl p w)) = Vv w" "Vv (snd (pvc_srv cl c w)) = Vv w"
    "keyed pv_Meta (Vv w) \<Longrightarrow> keyed pv_Meta (Vv (E w))" "ours (Vv w nn) \<Longrightarrow> ours (Vv (E w) nn)" "kept (Vv w nn) \<Longrightarrow> kept (Vv (E w) nn)"
    "released (Vv w nn) \<Longrightarrow> available (Vv (E w) nn)" "Vv (snd (sp_srv cl s w)) = Vv w"
  using assms unfolding keeps_volumes_def stores_volumes_def by blast+

abbreviation retains :: "StatefulPod \<Rightarrow> bool" where
  "retains sp \<equiv> PVRecyclePolicy (Spec sp) = ''Retain''"

text \<open>
  How far the removal has come: the volumes are retained (from stage 1 on), the pods gone (2), the claims gone (3), the
  volumes available (4). The StatefulPod itself and what is not its own are as they were at the start \<open>w0\<close>.
\<close>

definition pruned :: "('w \<Rightarrow> NamespacedName \<Rightarrow> StatefulPod option) \<Rightarrow> ('w \<Rightarrow> NamespacedName \<Rightarrow> Pod option) \<Rightarrow>
    ('w \<Rightarrow> NamespacedName \<Rightarrow> PVC option) \<Rightarrow> ('w \<Rightarrow> NamespacedName \<Rightarrow> PV option) \<Rightarrow> StatefulPod \<Rightarrow> 'w \<Rightarrow> nat \<Rightarrow> 'w \<Rightarrow> bool" where
  "pruned Vs Vp Vc Vv sp w0 j w \<longleftrightarrow> Vs w = Vs w0 \<and> keyed pod_Meta (Vp w) \<and> keyed pvc_Meta (Vc w) \<and>
     spares pod_Meta (pod_keys sp) (Vp w0) (Vp w) \<and> spares pvc_Meta (pvc_keys sp) (Vc w0) (Vc w) \<and>
     (retains sp \<longrightarrow> keyed pv_Meta (Vv w) \<and>
        (\<forall>v \<in> set (pvcs_of sp). (if j = 0 then ours (Vv w (volume_key v)) else kept (Vv w (volume_key v))))) \<and>
     (2 \<le> j \<longrightarrow> (\<forall>k \<in> pod_keys sp. Vp w k = None)) \<and> (3 \<le> j \<longrightarrow> (\<forall>k \<in> pvc_keys sp. Vc w k = None)) \<and>
     (4 \<le> j \<and> retains sp \<longrightarrow> (\<forall>v \<in> set (pvcs_of sp). available (Vv w (volume_key v))))"

text \<open>The StatefulPod of a removal: it is being deleted, has reached its size and still has its finalizer.\<close>

definition doomed :: "StatefulPod \<Rightarrow> bool" where
  "doomed sp \<longleftrightarrow> wf_sp sp \<and> \<not> IsZero (DeletionTimestamp (sp_Meta sp)) \<and> GroupVersion_String \<in> set (Finalizers (sp_Meta sp)) \<and>
     (\<exists>sz. Size (Spec sp) = Some sz \<and> settled (int_of_int32 sz) (phases_of sp) = int_of_int32 sz)"

lemma turn_delete:
  assumes "cooperative cl Vs Vp Vc" "Vs w (sp_key sp) = Some sp" "doomed sp"
  shows "turn cl env fuel E (sp_key sp) w = E (snd (run cl (StatefulPodCtrl_deleteStatefulPod fuel sp) w))"
proof -
  note c = cooperativeD [OF assms(1)]
  obtain sz where sz: "Size (Spec sp) = Some sz" "settled (int_of_int32 sz) (phases_of sp) = int_of_int32 sz" "wf_sp sp"
    "\<not> IsZero (DeletionTimestamp (sp_Meta sp))" using assms(3) by (auto simp: doomed_def)
  have "StatefulPodCtrl_CoreCtrl env fuel sp = StatefulPodCtrl_deleteStatefulPod fuel sp"
    using sz(2,4) unfolding CoreCtrl_plan [OF sz(3,1)] by (simp add: plan_of_def carry_out_def)
  then show ?thesis by (simp add: turn_def run_Reconcile [OF optimistic_reads [OF c(1)] c(2,4)] assms(2))
qed

text \<open>The body of the removal, with what its four parts answer.\<close>

lemma run_delete_parts:
  assumes "doomed sp" "run cl (PVCtrl_SetPVRetain sp) w = (Done b1, w1)" "b1 \<Longrightarrow> run cl (PodCtrl_DeletePodAll sp) w1 = (Done b2, w2)"
    "b1 \<Longrightarrow> b2 \<Longrightarrow> run cl (PVCCtrl_DeletePvcAll sp) w2 = (Done b3, w3)"
    "b1 \<Longrightarrow> b2 \<Longrightarrow> b3 \<Longrightarrow> run cl (PVCtrl_SetPVAvailable sp) w3 = (Done b4, w4)"
  shows "run cl (StatefulPodCtrl_deleteStatefulPod fuel sp) w =
    (if \<not> b1 then (Done (requeue_wait, None), w1) else if \<not> b2 then (Done (requeue_wait, None), w2)
     else if \<not> b3 then (Done (requeue_wait, None), w3) else if \<not> b4 then (Done (requeue_wait, None), w4)
     else run cl (bnd (StatefulPodService_Update fuel (sp\<lparr>sp_Meta := (sp_Meta sp)\<lparr>Finalizers :=
              remove1 GroupVersion_String (Finalizers (sp_Meta sp))\<rparr>\<rparr>)) (\<lambda>r. case r of
            Inl err \<Rightarrow> Ret (requeue_wait, None) | Inr s \<Rightarrow> Ret (result0, None))) w4)"
  using assms by (cases b1; cases b2; cases b3; cases b4)
    (simp_all add: StatefulPodCtrl_deleteStatefulPod_def doomed_def Let_def del: GroupVersion_String_simp)

lemma SetPVRetain_settles:
  assumes "keeps_volumes cl Vs Vp Vc Vv E" "retains sp" "keyed pv_Meta (Vv w)" "\<forall>v \<in> set (pvcs_of sp). ours (Vv w (volume_key v))"
    "\<exists>v \<in> set (pvcs_of sp). \<not> kept (Vv w (volume_key v))"
  obtains w' where "run cl (PVCtrl_SetPVRetain sp) w = (Done False, w')" "Vs w' = Vs w" "Vp w' = Vp w" "Vc w' = Vc w"
    "keyed pv_Meta (Vv w')" "\<forall>v \<in> set (pvcs_of sp). kept (Vv w' (volume_key v))"
proof -
  note v = keeps_volumesD [OF assms(1)]
  obtain n w' where l: "run cl (PVCtrl_SetPVRetain_loop (pvcs_of sp) 0) w = (Done (Some n), w')"
    "(Vs w', Vp w', Vc w') = (Vs w, Vp w, Vc w)" "keyed pv_Meta (Vv w')" "\<forall>v \<in> set (pvcs_of sp). kept (Vv w' (volume_key v))"
    using retain_writer.loop_settles [where F = "\<lambda>w. (Vs w, Vp w, Vc w)", OF v(1) _ assms(3,4), of 0] v(3-5) by auto
  have "\<not> (\<forall>v \<in> set (pvcs_of sp). retained (Vv w (NN '''' (PVName v))))"
    using assms(4,5) by (auto simp: kept_def volume_key_def)
  with run_SetPV [OF v(2), of sp w] assms(2) obtain w'' where r: "run cl (PVCtrl_SetPVRetain sp) w = (Done False, w'')" by auto
  moreover have "w'' = w'" using r assms(2) l(1) by (simp add: PVCtrl_SetPVRetain_def split: if_splits)
  ultimately show thesis using that l by simp
qed

lemma SetPVAvailable_settles:
  assumes "keeps_volumes cl Vs Vp Vc Vv E" "retains sp" "keyed pv_Meta (Vv w)" "\<forall>v \<in> set (pvcs_of sp). kept (Vv w (volume_key v))"
    "\<exists>v \<in> set (pvcs_of sp). \<not> available (Vv w (volume_key v))"
  obtains w' where "run cl (PVCtrl_SetPVAvailable sp) w = (Done False, w')" "Vs w' = Vs w" "Vp w' = Vp w" "Vc w' = Vc w"
    "keyed pv_Meta (Vv w')" "\<forall>v \<in> set (pvcs_of sp). released (Vv w' (volume_key v))"
proof -
  note v = keeps_volumesD [OF assms(1)]
  obtain n w' where l: "run cl (PVCtrl_SetPVAvailable_loop (pvcs_of sp) 0) w = (Done (Some n), w')"
    "(Vs w', Vp w', Vc w') = (Vs w, Vp w, Vc w)" "keyed pv_Meta (Vv w')" "\<forall>v \<in> set (pvcs_of sp). released (Vv w' (volume_key v))"
    using available_writer.loop_settles [where F = "\<lambda>w. (Vs w, Vp w, Vc w)", OF v(1) _ assms(3,4), of 0] v(3-5) by auto
  have "\<not> (\<forall>v \<in> set (pvcs_of sp). available (Vv w (NN '''' (PVName v))))"
    using assms(5) by (auto simp: volume_key_def)
  with run_SetPV [OF v(2), of sp w] assms(2) obtain w'' where r: "run cl (PVCtrl_SetPVAvailable sp) w = (Done False, w'')" by auto
  moreover have "w'' = w'" using r assms(2) l(1) by (simp add: PVCtrl_SetPVAvailable_def split: if_splits)
  ultimately show thesis using that l by simp
qed

text \<open>From stage 1 on the volumes are no obstacle, and with all volumes available they are none at the end.\<close>

lemma volumes_done:
  assumes "retains sp \<Longrightarrow> keeps_volumes cl Vs Vp Vc Vv E"
  shows "retains sp \<longrightarrow> (\<forall>v \<in> set (pvcs_of sp). kept (Vv w (volume_key v))) \<Longrightarrow> run cl (PVCtrl_SetPVRetain sp) w = (Done True, w)"
    and "retains sp \<longrightarrow> (\<forall>v \<in> set (pvcs_of sp). available (Vv w (volume_key v))) \<Longrightarrow> run cl (PVCtrl_SetPVAvailable sp) w = (Done True, w)"
proof -
  have "run cl (PVCtrl_SetPVRetain sp) w = (Done True, w)" "run cl (PVCtrl_SetPVAvailable sp) w = (Done True, w)" if "\<not> retains sp"
    using that by (simp_all add: PVCtrl_SetPVRetain_def PVCtrl_SetPVAvailable_def)
  then show "retains sp \<longrightarrow> (\<forall>v \<in> set (pvcs_of sp). kept (Vv w (volume_key v))) \<Longrightarrow> run cl (PVCtrl_SetPVRetain sp) w = (Done True, w)"
    and "retains sp \<longrightarrow> (\<forall>v \<in> set (pvcs_of sp). available (Vv w (volume_key v))) \<Longrightarrow> run cl (PVCtrl_SetPVAvailable sp) w = (Done True, w)"
    using run_SetPV [OF keeps_volumesD(2) [OF assms], of sp w] by (auto simp: kept_def volume_key_def)
qed

lemma pruned_env:
  assumes "pruned Vs Vp Vc Vv sp w0 j w" "Vs w' = Vs w" "keyed pod_Meta (Vp w')" "keyed pvc_Meta (Vc w')"
    "spares pod_Meta (pod_keys sp) (Vp w) (Vp w')" "spares pvc_Meta (pvc_keys sp) (Vc w) (Vc w')"
    "retains sp \<longrightarrow> keyed pv_Meta (Vv w') \<and> (\<forall>v \<in> set (pvcs_of sp). (if j = 0 then ours (Vv w' (volume_key v)) else kept (Vv w' (volume_key v))))"
    "j < 4"
  shows "pruned Vs Vp Vc Vv sp w0 j w'"
proof -
  have "Vp w' nn = None" if "Vp w nn = None" for nn by (rule spares_None [OF assms(5) that])
  moreover have "Vc w' nn = None" if "Vc w nn = None" for nn by (rule spares_None [OF assms(6) that])
  ultimately show ?thesis
    using assms(1,7,8) unfolding pruned_def
    by (simp add: assms(2-4)) (use spares_trans [OF _ assms(5)] spares_trans [OF _ assms(6)] in blast)
qed

lemma DeletePodAll_gone:
  assumes "reads (pod_srv cl) Vp" "wf_sp sp" "\<forall>k \<in> pod_keys sp. Vp w k = None"
  shows "run cl (PodCtrl_DeletePodAll sp) w = (Done True, w)"
  using run_DeletePodAll [where F = "\<lambda>_. ()", OF assms(1,2), of w] assms(3) by (auto simp: pod_keys_def)

lemma DeletePvcAll_gone:
  assumes "reads (pvc_srv cl) Vc" "\<forall>k \<in> pvc_keys sp. Vc w k = None"
  shows "run cl (PVCCtrl_DeletePvcAll sp) w = (Done True, w)"
  using run_DeletePvcAll [where F = "\<lambda>_. ()", OF assms(1), of sp w] assms(2) by (auto simp: pvc_keys_def)

lemma pruned_E:
  assumes "pruned Vs Vp Vc Vv sp w0 j w" "graceful cl Vs Vp Vc E" "retains sp \<Longrightarrow> keeps_volumes cl Vs Vp Vc Vv E" "j < 4"
  shows "pruned Vs Vp Vc Vv sp w0 j (E w)"
proof (rule pruned_env [OF assms(1) _ _ _ _ _ _ assms(4)])
  note e = reaperD [OF gracefulD(4) [OF assms(2)]]
  show "Vs (E w) = Vs w" "spares pod_Meta (pod_keys sp) (Vp w) (Vp (E w))" "spares pvc_Meta (pvc_keys sp) (Vc w) (Vc (E w))"
    by (simp_all add: e spares_reap)
  show "keyed pod_Meta (Vp (E w))" "keyed pvc_Meta (Vc (E w))" using assms(1) by (simp_all add: e reap_keyed pruned_def)
  show "retains sp \<longrightarrow> keyed pv_Meta (Vv (E w)) \<and>
      (\<forall>v \<in> set (pvcs_of sp). if j = 0 then ours (Vv (E w) (volume_key v)) else kept (Vv (E w) (volume_key v)))"
    using assms(1) keeps_volumesD(8-10) [OF assms(3)] by (auto simp: pruned_def)
qed

lemma pruned_pods: "pruned Vs Vp Vc Vv sp w0 1 w \<Longrightarrow> \<forall>k \<in> pod_keys sp. Vp w k = None \<Longrightarrow> pruned Vs Vp Vc Vv sp w0 2 w"
  by (simp add: pruned_def)

lemma pruned_claims: "pruned Vs Vp Vc Vv sp w0 2 w \<Longrightarrow> \<forall>k \<in> pvc_keys sp. Vc w k = None \<Longrightarrow> pruned Vs Vp Vc Vv sp w0 3 w"
  by (simp add: pruned_def)

lemma pruned_available:
  "pruned Vs Vp Vc Vv sp w0 3 w \<Longrightarrow> retains sp \<longrightarrow> (\<forall>v \<in> set (pvcs_of sp). available (Vv w (volume_key v))) \<Longrightarrow> pruned Vs Vp Vc Vv sp w0 4 w"
  by (simp add: pruned_def)

lemma prune_volumes:
  assumes "graceful cl Vs Vp Vc E" "retains sp" "keeps_volumes cl Vs Vp Vc Vv E" "doomed sp" "Vs w0 (sp_key sp) = Some sp"
    "T = turn cl env fuel E (sp_key sp)"
  shows "leads T 1 (pruned Vs Vp Vc Vv sp w0 0) (pruned Vs Vp Vc Vv sp w0 1)"
proof (rule leads_one)
  fix w assume p: "pruned Vs Vp Vc Vv sp w0 0 w" and np: "\<not> pruned Vs Vp Vc Vv sp w0 1 w"
  note g = gracefulD [OF assms(1)]
  have "Vs w (sp_key sp) = Some sp" using p assms(5) by (simp add: pruned_def)
  note T = turn_delete [OF g(1) this assms(4), of env fuel E, folded assms(6)]
  have "keyed pv_Meta (Vv w)" "\<forall>v \<in> set (pvcs_of sp). ours (Vv w (volume_key v))" using p assms(2) by (auto simp: pruned_def)
  moreover have "\<exists>v \<in> set (pvcs_of sp). \<not> kept (Vv w (volume_key v))" using p np by (auto simp: pruned_def)
  ultimately obtain w' where w': "run cl (PVCtrl_SetPVRetain sp) w = (Done False, w')" "Vs w' = Vs w" "Vp w' = Vp w" "Vc w' = Vc w"
    "keyed pv_Meta (Vv w')" "\<forall>v \<in> set (pvcs_of sp). kept (Vv w' (volume_key v))"
    by (rule SetPVRetain_settles [OF assms(3,2)])
  have "run cl (StatefulPodCtrl_deleteStatefulPod fuel sp) w = (Done (requeue_wait, None), w')"
    using run_delete_parts [OF assms(4) w'(1)] by simp
  moreover have "pruned Vs Vp Vc Vv sp w0 1 w'" using p w' by (simp add: pruned_def)
  ultimately show "pruned Vs Vp Vc Vv sp w0 1 (T w)" using pruned_E [OF _ assms(1,3), where j = 1] by (simp add: T)
qed

lemma prune_pods:
  assumes "graceful cl Vs Vp Vc E" "retains sp \<Longrightarrow> keeps_volumes cl Vs Vp Vc Vv E" "doomed sp" "Vs w0 (sp_key sp) = Some sp"
    "T = turn cl env fuel E (sp_key sp)"
  shows "leads T 1 (pruned Vs Vp Vc Vv sp w0 1) (pruned Vs Vp Vc Vv sp w0 2)"
proof (rule leads_one)
  fix w assume p: "pruned Vs Vp Vc Vv sp w0 1 w" and np: "\<not> pruned Vs Vp Vc Vv sp w0 2 w"
  note g = gracefulD [OF assms(1)]
  note c = cooperativeD [OF g(1)]
  have "Vs w (sp_key sp) = Some sp" using p assms(4) by (simp add: pruned_def)
  note T = turn_delete [OF g(1) this assms(3), of env fuel E, folded assms(5)]
  have k: "keyed pod_Meta (Vp w)" "wf_sp sp" using p assms(3) by (simp_all add: pruned_def doomed_def)
  have left: "\<exists>k \<in> pod_keys sp. Vp w k \<noteq> None" using p np by (auto simp: pruned_def)
  let ?F = "\<lambda>w. (Vs w, Vc w, if retains sp then Some (Vv w) else None)"
  have F: "?F (snd (pod_srv cl r w)) = ?F w" for r w
    using c(6,7) [of r w] keeps_volumesD(6) [OF assms(2), of r w] by (simp add: prod_eq_iff)
  obtain w' where w': "run cl (PodCtrl_DeletePodAll sp) w = (Done False, w')" "?F w' = ?F w" "keyed pod_Meta (Vp w')"
    "\<forall>k \<in> pod_keys sp. reap pod_Meta (Vp w') k = None" "spares pod_Meta (pod_keys sp) (Vp w) (Vp w')"
    by (rule DeletePodAll_deletes [where F = ?F, OF c(2) g(2) F k left])
  have "run cl (PVCtrl_SetPVRetain sp) w = (Done True, w)"
    by (rule volumes_done(1) [where Vv = Vv, OF assms(2)]) (use p in \<open>auto simp: pruned_def\<close>)
  from run_delete_parts [OF assms(3) this w'(1), of _ _ _ _ fuel]
  have "run cl (StatefulPodCtrl_deleteStatefulPod fuel sp) w = (Done (requeue_wait, None), w')" by simp
  moreover have "pruned Vs Vp Vc Vv sp w0 1 w'"
    by (rule pruned_env [OF p _ w'(3) _ w'(5)]) (use p w'(2) in \<open>auto simp: pruned_def split: if_splits\<close>)
  ultimately show "pruned Vs Vp Vc Vv sp w0 2 (T w)"
    using pruned_pods [OF pruned_E [OF _ assms(1,2), where j = 1]] w'(4) by (simp add: T reaperD [OF g(4)])
qed

lemma prune_claims:
  assumes "graceful cl Vs Vp Vc E" "retains sp \<Longrightarrow> keeps_volumes cl Vs Vp Vc Vv E" "doomed sp" "Vs w0 (sp_key sp) = Some sp"
    "T = turn cl env fuel E (sp_key sp)"
  shows "leads T 1 (pruned Vs Vp Vc Vv sp w0 2) (pruned Vs Vp Vc Vv sp w0 3)"
proof (rule leads_one)
  fix w assume p: "pruned Vs Vp Vc Vv sp w0 2 w" and np: "\<not> pruned Vs Vp Vc Vv sp w0 3 w"
  note g = gracefulD [OF assms(1)]
  note c = cooperativeD [OF g(1)]
  have "Vs w (sp_key sp) = Some sp" using p assms(4) by (simp add: pruned_def)
  note T = turn_delete [OF g(1) this assms(3), of env fuel E, folded assms(5)]
  have k: "keyed pvc_Meta (Vc w)" "wf_sp sp" using p assms(3) by (simp_all add: pruned_def doomed_def)
  have left: "\<exists>k \<in> pvc_keys sp. Vc w k \<noteq> None" using p np by (auto simp: pruned_def)
  let ?F = "\<lambda>w. (Vs w, Vp w, if retains sp then Some (Vv w) else None)"
  have F: "?F (snd (pvc_srv cl r w)) = ?F w" for r w
    using c(8,9) [of r w] keeps_volumesD(7) [OF assms(2), of r w] by (simp add: prod_eq_iff)
  obtain w' where w': "run cl (PVCCtrl_DeletePvcAll sp) w = (Done False, w')" "?F w' = ?F w" "keyed pvc_Meta (Vc w')"
    "\<forall>k \<in> pvc_keys sp. reap pvc_Meta (Vc w') k = None" "spares pvc_Meta (pvc_keys sp) (Vc w) (Vc w')"
    by (rule DeletePvcAll_deletes [where F = ?F, OF c(4) g(3) F k(1) left])
  have "run cl (PVCtrl_SetPVRetain sp) w = (Done True, w)"
    by (rule volumes_done(1) [where Vv = Vv, OF assms(2)]) (use p in \<open>auto simp: pruned_def\<close>)
  moreover have "run cl (PodCtrl_DeletePodAll sp) w = (Done True, w)" by (rule DeletePodAll_gone [OF c(2) k(2)]) (use p in \<open>simp add: pruned_def\<close>)
  ultimately have "run cl (StatefulPodCtrl_deleteStatefulPod fuel sp) w = (Done (requeue_wait, None), w')"
    using run_delete_parts [OF assms(3), of cl w True w True w False w' _ _ fuel] w'(1) by simp
  moreover have "pruned Vs Vp Vc Vv sp w0 2 w'"
    by (rule pruned_env [OF p _ _ w'(3) _ w'(5)]) (use p w'(2) in \<open>auto simp: pruned_def split: if_splits\<close>)
  ultimately show "pruned Vs Vp Vc Vv sp w0 3 (T w)"
    using pruned_claims [OF pruned_E [OF _ assms(1,2), where j = 2]] w'(4) by (simp add: T reaperD [OF g(4)])
qed

lemma prune_release:
  assumes "graceful cl Vs Vp Vc E" "retains sp" "keeps_volumes cl Vs Vp Vc Vv E" "doomed sp" "Vs w0 (sp_key sp) = Some sp"
    "T = turn cl env fuel E (sp_key sp)"
  shows "leads T 1 (pruned Vs Vp Vc Vv sp w0 3) (pruned Vs Vp Vc Vv sp w0 4)"
proof (rule leads_one)
  fix w assume p: "pruned Vs Vp Vc Vv sp w0 3 w" and np: "\<not> pruned Vs Vp Vc Vv sp w0 4 w"
  note g = gracefulD [OF assms(1)]
  note c = cooperativeD [OF g(1)]
  have "Vs w (sp_key sp) = Some sp" using p assms(5) by (simp add: pruned_def)
  note T = turn_delete [OF g(1) this assms(4), of env fuel E, folded assms(6)]
  have "keyed pv_Meta (Vv w)" "\<forall>v \<in> set (pvcs_of sp). kept (Vv w (volume_key v))" using p assms(2) by (auto simp: pruned_def)
  moreover have "\<exists>v \<in> set (pvcs_of sp). \<not> available (Vv w (volume_key v))" using p np by (auto simp: pruned_def)
  ultimately obtain w' where w': "run cl (PVCtrl_SetPVAvailable sp) w = (Done False, w')" "Vs w' = Vs w" "Vp w' = Vp w" "Vc w' = Vc w"
    "keyed pv_Meta (Vv w')" "\<forall>v \<in> set (pvcs_of sp). released (Vv w' (volume_key v))"
    by (rule SetPVAvailable_settles [OF assms(3,2)])
  have "run cl (PVCtrl_SetPVRetain sp) w = (Done True, w)"
    by (rule volumes_done(1) [where Vv = Vv, OF assms(3)]) (use p in \<open>auto simp: pruned_def\<close>)
  moreover have "run cl (PodCtrl_DeletePodAll sp) w = (Done True, w)" by (rule DeletePodAll_gone [OF c(2)]) (use p assms(4) in \<open>simp_all add: pruned_def doomed_def\<close>)
  moreover have "run cl (PVCCtrl_DeletePvcAll sp) w = (Done True, w)" by (rule DeletePvcAll_gone [OF c(4)]) (use p in \<open>simp add: pruned_def\<close>)
  ultimately have "run cl (StatefulPodCtrl_deleteStatefulPod fuel sp) w = (Done (requeue_wait, None), w')"
    using run_delete_parts [OF assms(4), of cl w True w True w True w False w' fuel] w'(1) by simp
  moreover have "pruned Vs Vp Vc Vv sp w0 3 w'" using p w' by (auto simp: pruned_def released_def)
  ultimately show "pruned Vs Vp Vc Vv sp w0 4 (T w)"
    using pruned_available [OF pruned_E [OF _ assms(1,3), where j = 3]] w'(6) keeps_volumesD(11) [OF assms(3)] by (simp add: T)
qed

text \<open>The last round: the finalizer goes.\<close>

definition freed :: "('w \<Rightarrow> NamespacedName \<Rightarrow> StatefulPod option) \<Rightarrow> ('w \<Rightarrow> NamespacedName \<Rightarrow> Pod option) \<Rightarrow>
    ('w \<Rightarrow> NamespacedName \<Rightarrow> PVC option) \<Rightarrow> ('w \<Rightarrow> NamespacedName \<Rightarrow> PV option) \<Rightarrow> StatefulPod \<Rightarrow> 'w \<Rightarrow> 'w \<Rightarrow> bool" where
  "freed Vs Vp Vc Vv sp w0 w \<longleftrightarrow>
     (\<exists>sp'. Vs w = (Vs w0)(sp_key sp := (if remove1 GroupVersion_String (Finalizers (sp_Meta sp)) = [] then None else Some sp')) \<and>
        Finalizers (sp_Meta sp') = remove1 GroupVersion_String (Finalizers (sp_Meta sp))) \<and>
     (\<forall>k \<in> pod_keys sp. Vp w k = None) \<and> (\<forall>k \<in> pvc_keys sp. Vc w k = None) \<and>
     spares pod_Meta (pod_keys sp) (Vp w0) (Vp w) \<and> spares pvc_Meta (pvc_keys sp) (Vc w0) (Vc w) \<and>
     (retains sp \<longrightarrow> (\<forall>v \<in> set (pvcs_of sp). retained (Vv w (volume_key v)) \<and> available (Vv w (volume_key v))))"

lemma kept_available: "kept x \<Longrightarrow> available x \<Longrightarrow> released x"
  by (auto simp: released_def available_def split: option.splits)

lemma prune_finalizer:
  assumes "graceful cl Vs Vp Vc E" "retains sp \<Longrightarrow> keeps_volumes cl Vs Vp Vc Vv E" "doomed sp" "Vs w0 (sp_key sp) = Some sp"
    "T = turn cl env fuel E (sp_key sp)" "2 \<le> fuel"
  shows "leads T 1 (pruned Vs Vp Vc Vv sp w0 4) (freed Vs Vp Vc Vv sp w0)"
proof (rule leads_one)
  fix w assume p: "pruned Vs Vp Vc Vv sp w0 4 w"
  note g = gracefulD [OF assms(1)]
  note c = cooperativeD [OF g(1)] and e = reaperD [OF g(4)]
  have cur: "Vs w (sp_key sp) = Some sp" using p assms(4) by (simp add: pruned_def)
  note T = turn_delete [OF g(1) cur assms(3), of env fuel E, folded assms(5)]
  define sp1 where "sp1 = sp\<lparr>sp_Meta := (sp_Meta sp)\<lparr>Finalizers := remove1 GroupVersion_String (Finalizers (sp_Meta sp))\<rparr>\<rparr>"
  have k1: "sp_key sp1 = sp_key sp" by (simp add: sp1_def)
  then have "Vs w (sp_key sp1) = Some sp" using cur by simp
  then obtain sp2 w' where u: "run cl (StatefulPodService_Update fuel sp1) w = (Done (Inr sp2), w')"
    "Vs w' = (Vs w)(sp_key sp1 := written (sp_Meta sp) sp2)" "accepted sp sp1 sp2"
    by (rule run_Update_write [OF c(1) _ assms(6)])
  have frame: "Vp w' = Vp w" "Vc w' = Vc w"
    using run_Update_frame [OF c(10) u(1)] run_Update_frame [OF c(11) u(1)] by simp_all
  have "run cl (PVCtrl_SetPVRetain sp) w = (Done True, w)" "run cl (PVCtrl_SetPVAvailable sp) w = (Done True, w)"
    by (rule volumes_done(1) [where Vv = Vv, OF assms(2)] volumes_done(2) [where Vv = Vv, OF assms(2)],
        use p in \<open>auto simp: pruned_def\<close>)+
  moreover have "run cl (PodCtrl_DeletePodAll sp) w = (Done True, w)" by (rule DeletePodAll_gone [OF c(2)]) (use p assms(3) in \<open>simp_all add: pruned_def doomed_def\<close>)
  moreover have "run cl (PVCCtrl_DeletePvcAll sp) w = (Done True, w)" by (rule DeletePvcAll_gone [OF c(4)]) (use p in \<open>simp add: pruned_def\<close>)
  ultimately have "run cl (StatefulPodCtrl_deleteStatefulPod fuel sp) w = (Done (result0, None), w')"
    using run_delete_parts [OF assms(3), of cl w True w True w True w True w fuel] u(1) [unfolded sp1_def] by simp
  then have Tw: "T w = E w'" by (simp add: T)
  have fin: "Finalizers (sp_Meta sp2) = remove1 GroupVersion_String (Finalizers (sp_Meta sp))"
    using u(3) by (simp add: accepted_def sp1_def)
  moreover have "Vs (T w) = (Vs w0)(sp_key sp := (if remove1 GroupVersion_String (Finalizers (sp_Meta sp)) = [] then None else Some sp2))"
    using p u(2) fin assms(3) k1 by (auto simp: Tw e pruned_def written_def let_go_def doomed_def)
  moreover have "kept (Vv (T w) (volume_key v)) \<and> available (Vv (T w) (volume_key v))" if "retains sp" "v \<in> set (pvcs_of sp)" for v
  proof -
    have v: "kept (Vv w (volume_key v))" "available (Vv w (volume_key v))" using p that by (auto simp: pruned_def)
    have "Vv w' = Vv w" using run_Update_frame [OF keeps_volumesD(12) [OF assms(2) [OF that(1)]] u(1)] by simp
    then show ?thesis
      using v keeps_volumesD(10,11) [OF assms(2) [OF that(1)], of w' "volume_key v"] kept_available by (simp add: Tw)
  qed
  moreover have "(\<forall>k \<in> pod_keys sp. Vp w k = None) \<and> (\<forall>k \<in> pvc_keys sp. Vc w k = None) \<and>
     spares pod_Meta (pod_keys sp) (Vp w0) (Vp w) \<and> spares pvc_Meta (pvc_keys sp) (Vc w0) (Vc w)" using p by (simp add: pruned_def)
  ultimately show "freed Vs Vp Vc Vv sp w0 (T w)"
    unfolding freed_def by (auto simp: Tw e frame reap_def spares_reaped kept_def)
qed

text \<open>C13: deletion converges. Take a StatefulPod that is being deleted, has reached its size and has its finalizer, on a server
  that deletes gracefully and removes an object that is being deleted once an update has emptied its finalizers; with the policy \<open>Retain\<close> also no
  volume of a redis slave, and a server that accepts updates of
  volumes and makes one without a claim available. After at most three rounds (five with \<open>Retain\<close>) the StatefulPod is
  gone - or, if others have put finalizers on it too, stored with theirs only -, the pods and claims of its status lists are gone, with \<open>Retain\<close> its volumes are retained and
  available or gone, and every other pod and claim that is not being deleted is as it was.\<close>

theorem deletion_converges:
  assumes "graceful cl Vs Vp Vc E" "doomed sp" "Vs w (sp_key sp) = Some sp" "keyed pod_Meta (Vp w)" "keyed pvc_Meta (Vc w)" "2 \<le> fuel"
    "retains sp \<Longrightarrow> keeps_volumes cl Vs Vp Vc Vv E \<and> keyed pv_Meta (Vv w) \<and> (\<forall>v \<in> set (pvcs_of sp). ours (Vv w (volume_key v)))"
  shows "\<exists>k \<le> (if retains sp then 5 else 3). freed Vs Vp Vc Vv sp w ((turn cl env fuel E (sp_key sp) ^^ k) w)"
proof -
  define T where "T = turn cl env fuel E (sp_key sp)"
  define P where "P = pruned Vs Vp Vc Vv sp w"
  define F where "F = freed Vs Vp Vc Vv sp w"
  have vol: "retains sp \<Longrightarrow> keeps_volumes cl Vs Vp Vc Vv E" using assms(7) by blast
  have P0: "P 0 w" using assms(4,5,7) by (simp add: P_def pruned_def)
  have steps: "leads T 1 (P 1) (P 2)" "leads T 1 (P 2) (P 3)" "leads T 1 (P 4) F"
    unfolding P_def F_def
    using prune_pods [OF assms(1) vol assms(2,3) T_def] prune_claims [OF assms(1) vol assms(2,3) T_def]
      prune_finalizer [OF assms(1) vol assms(2,3) T_def assms(6)] by blast+
  have all: "leads T (a + 1 + 1 + a + 1) (P 0) F" if "leads T a (P 0) (P 1)" "leads T a (P 3) (P 4)" for a
    by (rule leads_trans [OF leads_trans [OF leads_trans [OF leads_trans [OF that(1) steps(1)] steps(2)] that(2)] steps(3)])
  have "leads T (if retains sp then 5 else 3) (P 0) F"
  proof (cases "retains sp")
    case True
    have "leads T 1 (P 0) (P 1)" "leads T 1 (P 3) (P 4)"
      unfolding P_def using prune_volumes [OF assms(1) True vol assms(2,3) T_def] prune_release [OF assms(1) True vol assms(2,3) T_def] True
      by blast+
    from all [OF this] True show ?thesis by (simp add: eval_nat_numeral)
  next
    case False
    have "leads T 0 (P 0) (P 1)" "leads T 0 (P 3) (P 4)"
      by (rule leads_refl, use False in \<open>simp add: P_def pruned_def\<close>)+
    from all [OF this] False show ?thesis by (simp add: eval_nat_numeral)
  qed
  with P0 show ?thesis unfolding leads_def F_def T_def by blast
qed

text \<open>The concrete case: one ordinal with its pod, its claim and a volume that is to be retained.\<close>

definition doomed_sp :: StatefulPod where
  "doomed_sp = (let sp = demo_sp_claims 1 [(''Running'', ''Bound'')] in sp\<lparr>
     sp_Meta := demo_meta\<lparr>Finalizers := [''iapetos.foundary-cloud.io/v1''], DeletionTimestamp := Some 5\<rparr>,
     Spec := (Spec sp)\<lparr>PVRecyclePolicy := ''Retain''\<rparr>\<rparr>)"

definition doomed_world :: world where
  "doomed_world = empty_world\<lparr>sps := (\<lambda>_. None)(NN ''ns'' ''db'' \<mapsto> doomed_sp),
     pods := (\<lambda>_. None)(NN ''ns'' ''db-0'' \<mapsto> demo_pod ''db-0'' ''0'' ''Running''),
     claims := (\<lambda>_. None)(NN ''ns'' ''data-db-0'' \<mapsto> demo_pvc ''data-db-0'' ''0'' ''Bound''),
     pvs := (\<lambda>_. None)(NN '''' ''pv-0'' \<mapsto> \<lparr>pv_Meta = ObjectMeta_zero\<lparr>Name := ''pv-0''\<rparr>, pv_ReclaimPolicy = ''Delete'',
       pv_StorageClassName = ''local'', pv_ClaimRef = Some ''data-db-0'', pv_Phase = ''Bound'', pv_rest = ''''\<rparr>)\<rparr>"

lemma doomed_sp_simps:
  "doomed doomed_sp" "sp_key doomed_sp = NN ''ns'' ''db''" "retains doomed_sp" "length (pvcs_of doomed_sp) = 1" "PVName (pvcs_of doomed_sp ! 0) = ''pv-0''"
  "pod_keys doomed_sp = {NN ''ns'' ''db-0''}"
proof -
  have i: "Itoa 0 = ''0''" by code_simp
  show "doomed doomed_sp" "sp_key doomed_sp = NN ''ns'' ''db''" "retains doomed_sp" "length (pvcs_of doomed_sp) = 1" "PVName (pvcs_of doomed_sp ! 0) = ''pv-0''"
    "pod_keys doomed_sp = {NN ''ns'' ''db-0''}"
    by (simp_all add: doomed_sp_def doomed_def demo_defs Let_def wf_status_def settled_def phases_of_def int_of_int32_of pod_keys_def i)
qed

lemma mem_keeps_volumes: "keeps_volumes mem_client sps pods claims pvs mem_reaper"
proof -
  have "reads (pv_srv mem_client) pvs" by (rule mem_reads(5))
  moreover have "\<exists>p w'. pv_srv mem_client (Update pv) w = (Inr p, w') \<and> stored_as pv p \<and>
      pvs w' = (pvs w)(NN (Namespace (pv_Meta pv)) (Name (pv_Meta pv)) := (if let_go (pv_Meta cur) (pv_Meta pv) then None else Some p))"
    if "pvs w (NN (Namespace (pv_Meta pv)) (Name (pv_Meta pv))) = Some cur" "ResourceVersion (pv_Meta cur) = ResourceVersion (pv_Meta pv)"
    for pv w cur using that by (simp add: mem_client_def serve_obj_def Let_def stored_as_def let_go_def)
  ultimately have "stores_volumes (pv_srv mem_client) pvs" unfolding stores_volumes_def by blast
  moreover have "sps (snd (pv_srv mem_client r w)) = sps w" "pods (snd (pv_srv mem_client r w)) = pods w"
    "claims (snd (pv_srv mem_client r w)) = claims w" "pvs (snd (pod_srv mem_client p w)) = pvs w"
    "pvs (snd (pvc_srv mem_client c w)) = pvs w" "pvs (snd (sp_srv mem_client s w)) = pvs w" for r p c s w
    by (simp_all add: mem_client_def split: prod.split)
  moreover have "keyed pv_Meta (pvs w) \<longrightarrow> keyed pv_Meta (pvs (mem_reaper w))" for w
    by (auto simp: keyed_def mem_reaper_def)
  moreover have "(ours (pvs w nn) \<longrightarrow> ours (pvs (mem_reaper w) nn)) \<and> (kept (pvs w nn) \<longrightarrow> kept (pvs (mem_reaper w) nn)) \<and>
      (released (pvs w nn) \<longrightarrow> available (pvs (mem_reaper w) nn))" for w nn
    by (cases "pvs w nn")
      (auto simp: mem_reaper_def ours_def kept_def released_def retained_def available_def slave_def)
  ultimately show ?thesis unfolding keeps_volumes_def by simp
qed

theorem deletion_converges_witness:
  "\<exists>k \<le> 5. \<exists>w'. w' = (turn mem_client demo_env 2 mem_reaper (NN ''ns'' ''db'') ^^ k) doomed_world \<and>
    pods w' (NN ''ns'' ''db-0'') = None \<and> available (pvs w' (NN '''' ''pv-0'')) \<and> sps w' (NN ''ns'' ''db'') = None"
proof -
  note sp = doomed_sp_simps
  have set: "set (pvcs_of doomed_sp) = {pvcs_of doomed_sp ! 0}" using sp(4) by (cases "pvcs_of doomed_sp") auto
  have w: "sps doomed_world (sp_key doomed_sp) = Some doomed_sp" "keyed pod_Meta (pods doomed_world)" "keyed pvc_Meta (claims doomed_world)"
    unfolding sp(2) by (simp_all add: doomed_world_def keyed_def demo_pod_def demo_pvc_def demo_meta_def)
  have v: "keyed pv_Meta (pvs doomed_world)" "\<forall>v \<in> set (pvcs_of doomed_sp). ours (pvs doomed_world (volume_key v))"
    using sp(5) unfolding set by (simp_all add: doomed_world_def keyed_def ours_def slave_def volume_key_def ObjectMeta_zero_def gomap_get_None)
  obtain k where k: "k \<le> 5" "freed sps pods claims pvs doomed_sp doomed_world
      ((turn mem_client demo_env 2 mem_reaper (NN ''ns'' ''db'') ^^ k) doomed_world)"
    using deletion_converges [OF mem_graceful sp(1) w order_refl, where Vv = pvs and env = demo_env] mem_keeps_volumes v sp(3) unfolding sp(2) by auto
  have "remove1 GroupVersion_String (Finalizers (sp_Meta doomed_sp)) = []" by (simp add: doomed_sp_def Let_def)
  with k show ?thesis unfolding freed_def sp(2,6) set by (auto simp: sp(3,5) volume_key_def)
qed

end
