(* ===== verification/Sequential.thy ===== *)
theory Sequential
  imports Interleaving GrowthCases
begin

text \<open>
  Sequential runs are interleavings: a worker that runs alone against the server in memory takes the
  cluster through steps of the relation of Interleaving.
\<close>

lemma sp_key_version [simp]: "sp_key (sp_Meta_update (\<lambda>m. m\<lparr>ResourceVersion := f m\<rparr>) sp) = sp_key sp"
  by simp

text \<open>The StatefulPods of the server in memory, after a call on one of them.\<close>

lemma mem_sp_cases:
  assumes "sp_srv mem_client r w = (x, w')"
  obtains (same) "w' = w" "\<exists>e. x = Inl e"
    | (got) nn sp where "r = Get nn" "sps w nn = Some sp" "x = Inr sp" "w' = w"
    | (created) sp f where "r = Create sp" "sps w (sp_key sp) = None"
        "x = Inr (sp_Meta_update (\<lambda>m. m\<lparr>ResourceVersion := f m\<rparr>) sp)"
        "w' = w\<lparr>sps := (sps w)(sp_key sp \<mapsto> sp_Meta_update (\<lambda>m. m\<lparr>ResourceVersion := f m\<rparr>) sp)\<rparr>"
    | (updated) sp cur f where "r = Update sp" "sps w (sp_key sp) = Some cur"
        "ResourceVersion (sp_Meta cur) = ResourceVersion (sp_Meta sp)" "\<not> let_go (sp_Meta cur) (sp_Meta sp)"
        "x = Inr (sp_Meta_update (\<lambda>m. m\<lparr>ResourceVersion := f m, DeletionTimestamp := DeletionTimestamp (sp_Meta cur)\<rparr>) sp)"
        "w' = w\<lparr>sps := (sps w)(sp_key sp \<mapsto> sp_Meta_update
          (\<lambda>m. m\<lparr>ResourceVersion := f m, DeletionTimestamp := DeletionTimestamp (sp_Meta cur)\<rparr>) sp)\<rparr>"
    | (freed) sp cur f where "r = Update sp" "sps w (sp_key sp) = Some cur"
        "ResourceVersion (sp_Meta cur) = ResourceVersion (sp_Meta sp)" "let_go (sp_Meta cur) (sp_Meta sp)"
        "x = Inr (sp_Meta_update (\<lambda>m. m\<lparr>ResourceVersion := f m, DeletionTimestamp := DeletionTimestamp (sp_Meta cur)\<rparr>) sp)"
        "w' = w\<lparr>sps := (sps w)(sp_key sp := None)\<rparr>"
    | (deleted) sp opts where "r = Delete sp opts" "x = Inr sp" "w' = w\<lparr>sps := (sps w)(sp_key sp := None)\<rparr>"
proof -
  note [simp] = mem_client_def serve_obj_def Let_def
  show ?thesis
  proof (cases r)
    case (Get nn)
    show ?thesis by (cases "sps w nn") (use assms Get in \<open>auto intro: same got\<close>)
  next
    case (Create sp)
    show ?thesis
    proof (cases "sps w (sp_key sp)")
      case None
      with assms Create created [of sp "\<lambda>_. ''1''"] show ?thesis by simp
    next
      case (Some cur)
      with assms Create same show ?thesis by auto
    qed
  next
    case (Update sp)
    show ?thesis
    proof (cases "sps w (sp_key sp)")
      case None
      with assms Update same show ?thesis by auto
    next
      case (Some cur)
      show ?thesis
      proof (cases "ResourceVersion (sp_Meta cur) = ResourceVersion (sp_Meta sp)")
        case True
        with Some assms Update updated [of sp cur "\<lambda>m. CHR ''+'' # ResourceVersion m"]
          freed [of sp cur "\<lambda>m. CHR ''+'' # ResourceVersion m"]
        show ?thesis by (cases "let_go (sp_Meta cur) (sp_Meta sp)") simp_all
      next
        case False
        with Some assms Update same show ?thesis by auto
      qed
    qed
  next
    case (Delete sp opts)
    show ?thesis
    proof (cases "sps w (sp_key sp)")
      case None
      with assms Delete same show ?thesis by auto
    next
      case (Some cur)
      with assms Delete deleted show ?thesis by simp
    qed
  qed
qed

text \<open>The cluster \<open>c\<close> stores what the server \<open>w\<close> stores.\<close>

definition holds_sps :: "cluster \<Rightarrow> world \<Rightarrow> bool" where
  "holds_sps c w \<longleftrightarrow> store c = sps w \<and> (\<forall>nn sp. sps w nn = Some sp \<longrightarrow> sp \<in> versions c \<and> sp_key sp = nn)"

lemma holds_sps_side: "sps w' = sps w \<Longrightarrow> holds_sps c w' = holds_sps c w"
  by (simp add: holds_sps_def)

lemma holds_sps_workers [simp]: "holds_sps (c\<lparr>workers := ws\<rparr>) w = holds_sps c w"
  by (simp add: holds_sps_def)

lemma mem_serve:
  assumes "sp_srv mem_client r w = (x, w')" "holds_sps c w"
  shows "\<exists>c'. serve c r x c' \<and> holds_sps c' w'"
  using assms(1)
proof (cases rule: mem_sp_cases)
  case same
  then show ?thesis using assms(2) serve.fails by blast
next
  case (got nn sp)
  then show ?thesis using assms(2) by (auto simp: holds_sps_def intro!: exI [of _ c] serve.gets [of sp])
next
  case (created sp f)
  let ?y = "sp_Meta_update (\<lambda>m. m\<lparr>ResourceVersion := f m\<rparr>) sp"
  have "serve c r x (store_sp ?y c)"
    unfolding created(1,3) by (rule serve.creates) (use created assms(2) in \<open>simp_all add: holds_sps_def\<close>)
  moreover have "holds_sps (store_sp ?y c) w'"
    using created assms(2) by (simp add: holds_sps_def store_sp_def)
  ultimately show ?thesis by blast
next
  case (updated sp cur f)
  let ?y = "sp_Meta_update (\<lambda>m. m\<lparr>ResourceVersion := f m, DeletionTimestamp := DeletionTimestamp (sp_Meta cur)\<rparr>) sp"
  have "serve c r x (store_sp ?y c)"
    unfolding updated(1,5) by (rule serve.updates [of _ _ cur]) (use updated assms(2) in \<open>simp_all add: holds_sps_def\<close>)
  moreover have "holds_sps (store_sp ?y c) w'"
    using updated assms(2) by (simp add: holds_sps_def store_sp_def)
  ultimately show ?thesis by blast
next
  case (freed sp cur f)
  have "serve c r x (c\<lparr>store := (store c)(sp_key sp := None)\<rparr>)"
    unfolding freed(1,5) by (rule serve.frees [of _ _ cur]) (use freed assms(2) in \<open>simp_all add: holds_sps_def\<close>)
  moreover have "holds_sps (c\<lparr>store := (store c)(sp_key sp := None)\<rparr>) w'"
    using freed assms(2) by (simp add: holds_sps_def)
  ultimately show ?thesis by blast
next
  case (deleted sp opts)
  then have "serve c r x (c\<lparr>store := (store c)(sp_key sp := None)\<rparr>)" by (simp add: serve.deletes)
  moreover have "holds_sps (c\<lparr>store := (store c)(sp_key sp := None)\<rparr>) w'"
    using deleted assms(2) by (simp add: holds_sps_def)
  ultimately show ?thesis by blast
qed

lemma mem_side:
  "pod_srv mem_client rp w = (xp, w') \<Longrightarrow> sps w' = sps w"
  "pvc_srv mem_client rc w = (xc, w') \<Longrightarrow> sps w' = sps w"
  "svc_srv mem_client rs w = (xs, w') \<Longrightarrow> sps w' = sps w"
  "pv_srv mem_client rv w = (xv, w') \<Longrightarrow> sps w' = sps w"
  "node_srv mem_client rn w = (xn, w') \<Longrightarrow> sps w' = sps w"
  "clock mem_client w = (t, w') \<Longrightarrow> sps w' = sps w"
  by (auto simp: mem_client_def split: prod.splits)

text \<open>The first call of a worker's program is a step, whatever the call.\<close>

lemma first_call:
  assumes "call False c m m' c'" "workers c = m # ws"
  shows "step env False c (c'\<lparr>workers := m' # ws\<rparr>)"
  using step.worker [of c "[]" m ws] assms by simp

text \<open>A run of one worker against the server in memory is one of the interleavings.\<close>

lemma run_steps:
  assumes "run mem_client m w = (Done a, w')" "holds_sps c w" "workers c = m # ws"
  shows "\<exists>c'. (step env False)\<^sup>*\<^sup>* c c' \<and> holds_sps c' w'"
  using assms
proof (induction m arbitrary: w c)
  case (CallSP r k)
  obtain x w1 where x: "sp_srv mem_client r w = (x, w1)" by fastforce
  obtain c1 where c1: "serve c r x c1" "holds_sps c1 w1" using mem_serve [OF x CallSP.prems(2)] by blast
  have "step env False c (c1\<lparr>workers := k x # ws\<rparr>)"
    by (rule first_call [OF call.call_sp [OF c1(1)] CallSP.prems(3)])
  moreover have "\<exists>c'. (step env False)\<^sup>*\<^sup>* (c1\<lparr>workers := k x # ws\<rparr>) c' \<and> holds_sps c' w'"
    using CallSP.IH [of "k x" w1 "c1\<lparr>workers := k x # ws\<rparr>"] CallSP.prems(1) c1 x by simp
  ultimately show ?case by (meson converse_rtranclp_into_rtranclp)
next
  case (CallPod r k)
  obtain x w1 where x: "pod_srv mem_client r w = (x, w1)" by fastforce
  have "call False c (CallPod r k) (k x) c" by (rule call.call_pod) (simp add: get_side_def)
  note one = first_call [OF this CallPod.prems(3)]
  have "holds_sps (c\<lparr>workers := k x # ws\<rparr>) w1"
    using CallPod.prems(2) holds_sps_side [OF mem_side(1) [OF x]] by simp
  with CallPod.IH [of "k x" w1 "c\<lparr>workers := k x # ws\<rparr>"] CallPod.prems(1) x
  have "\<exists>c'. (step env False)\<^sup>*\<^sup>* (c\<lparr>workers := k x # ws\<rparr>) c' \<and> holds_sps c' w'" by simp
  with one show ?case by (meson converse_rtranclp_into_rtranclp)
next
  case (CallPVC r k)
  obtain x w1 where x: "pvc_srv mem_client r w = (x, w1)" by fastforce
  have "call False c (CallPVC r k) (k x) c" by (rule call.call_pvc) (simp add: get_side_def)
  note one = first_call [OF this CallPVC.prems(3)]
  have "holds_sps (c\<lparr>workers := k x # ws\<rparr>) w1"
    using CallPVC.prems(2) holds_sps_side [OF mem_side(2) [OF x]] by simp
  with CallPVC.IH [of "k x" w1 "c\<lparr>workers := k x # ws\<rparr>"] CallPVC.prems(1) x
  have "\<exists>c'. (step env False)\<^sup>*\<^sup>* (c\<lparr>workers := k x # ws\<rparr>) c' \<and> holds_sps c' w'" by simp
  with one show ?case by (meson converse_rtranclp_into_rtranclp)
next
  case (CallSvc r k)
  obtain x w1 where x: "svc_srv mem_client r w = (x, w1)" by fastforce
  have "call False c (CallSvc r k) (k x) c" by (rule call.call_svc) (simp add: get_side_def)
  note one = first_call [OF this CallSvc.prems(3)]
  have "holds_sps (c\<lparr>workers := k x # ws\<rparr>) w1"
    using CallSvc.prems(2) holds_sps_side [OF mem_side(3) [OF x]] by simp
  with CallSvc.IH [of "k x" w1 "c\<lparr>workers := k x # ws\<rparr>"] CallSvc.prems(1) x
  have "\<exists>c'. (step env False)\<^sup>*\<^sup>* (c\<lparr>workers := k x # ws\<rparr>) c' \<and> holds_sps c' w'" by simp
  with one show ?case by (meson converse_rtranclp_into_rtranclp)
next
  case (CallPV r k)
  obtain x w1 where x: "pv_srv mem_client r w = (x, w1)" by fastforce
  have "call False c (CallPV r k) (k x) c" by (rule call.call_pv) (simp add: get_side_def)
  note one = first_call [OF this CallPV.prems(3)]
  have "holds_sps (c\<lparr>workers := k x # ws\<rparr>) w1"
    using CallPV.prems(2) holds_sps_side [OF mem_side(4) [OF x]] by simp
  with CallPV.IH [of "k x" w1 "c\<lparr>workers := k x # ws\<rparr>"] CallPV.prems(1) x
  have "\<exists>c'. (step env False)\<^sup>*\<^sup>* (c\<lparr>workers := k x # ws\<rparr>) c' \<and> holds_sps c' w'" by simp
  with one show ?case by (meson converse_rtranclp_into_rtranclp)
next
  case (CallNode r k)
  obtain x w1 where x: "node_srv mem_client r w = (x, w1)" by fastforce
  have "call False c (CallNode r k) (k x) c" by (rule call.call_node) (simp add: get_side_def)
  note one = first_call [OF this CallNode.prems(3)]
  have "holds_sps (c\<lparr>workers := k x # ws\<rparr>) w1"
    using CallNode.prems(2) holds_sps_side [OF mem_side(5) [OF x]] by simp
  with CallNode.IH [of "k x" w1 "c\<lparr>workers := k x # ws\<rparr>"] CallNode.prems(1) x
  have "\<exists>c'. (step env False)\<^sup>*\<^sup>* (c\<lparr>workers := k x # ws\<rparr>) c' \<and> holds_sps c' w'" by simp
  with one show ?case by (meson converse_rtranclp_into_rtranclp)
next
  case (Now k)
  obtain t w1 where x: "clock mem_client w = (t, w1)" by fastforce
  have "call False c (Now k) (k t) c" by (rule call.call_now)
  note one = first_call [OF this Now.prems(3)]
  have "holds_sps (c\<lparr>workers := k t # ws\<rparr>) w1"
    using Now.prems(2) holds_sps_side [OF mem_side(6) [OF x]] by simp
  with Now.IH [of "k t" w1 "c\<lparr>workers := k t # ws\<rparr>"] Now.prems(1) x
  have "\<exists>c'. (step env False)\<^sup>*\<^sup>* (c\<lparr>workers := k t # ws\<rparr>) c' \<and> holds_sps c' w'" by simp
  with one show ?case by (meson converse_rtranclp_into_rtranclp)
next
  case (Ret b)
  then show ?case by auto
qed simp_all

section \<open>A concrete history\<close>

text \<open>The concrete history: a user creates a StatefulPod, one worker reconciles it against the server in memory.\<close>

definition fresh_sp :: StatefulPod where
  "fresh_sp = demo_sp_claims 1 []"

lemma fresh_sp_simps:
  "wf_sp fresh_sp" "Size (Spec fresh_sp) = Some (int32_of 1)" "ServiceTemplate (Spec fresh_sp) = None"
  "PVNames (Spec fresh_sp) = []" "PVCTemplate (Spec fresh_sp) = Some demo_claim" "claim_volume (Spec fresh_sp)"
  "sp_key fresh_sp = NN ''ns'' ''db''" "pods_of fresh_sp = []" "pvcs_of fresh_sp = []"
  by (simp_all add: fresh_sp_def claim_volume_def) (simp_all add: demo_defs Let_def)

lemma fresh_sp_settled: "0 = settled (int_of_int32 (int32_of 1)) (phases_of fresh_sp)" "0 < int_of_int32 (int32_of 1)"
  by (simp_all add: fresh_sp_simps phases_of_def settled_def int_of_int32_of)

lemma fresh_sp_reconciled:
  "\<exists>c sp. reachable demo_env False c \<and> store c (NN ''ns'' ''db'') = Some sp \<and> length (pods_of sp) = 1"
proof -
  define w0 where "w0 = empty_world\<lparr>sps := (\<lambda>_. None)(NN ''ns'' ''db'' \<mapsto> fresh_sp)\<rparr>"
  define c0 where "c0 = (store_sp fresh_sp start_cluster)\<lparr>workers := [Reconcile demo_env 2 (NN ''ns'' ''db'')]\<rparr>"
  have w0: "sps w0 (sp_key fresh_sp) = Some fresh_sp" "pods w0 nn = None" "claims w0 nn = None" for nn
    unfolding fresh_sp_simps(7) by (simp_all add: w0_def empty_world_def)
  obtain sp' pod w' where grown: "run mem_client (StatefulPodCtrl_CoreCtrl demo_env 2 fresh_sp) w0 = (Done (result0, None), w')"
    "sps w' = (sps w0)(sp_key fresh_sp \<mapsto> sp')"
    "pods_of sp' = put 0 \<lparr>PodName = PodService_GetName fresh_sp 0, ps_Status = ''Preparing'', ps_Index = Some (int32_of 0),
      NodeName = ''''\<rparr> (pods_of fresh_sp)"
    using run_growth [OF mem_cooperative fresh_sp_simps(1,2) fresh_sp_settled run_expansionSvc [OF mem_reads(4)], of w0 2 demo_env]
      fresh_sp_simps w0 by (auto simp: demo_claim_def)
  have rec: "run mem_client (Reconcile demo_env 2 (NN ''ns'' ''db'')) w0 = (Done (result0, None), w')"
    using w0(1) grown(1) reads_Get [OF mem_reads(1)] unfolding fresh_sp_simps(7)
    by (simp add: Reconcile_def getType_def)
  have holds: "holds_sps c0 w0"
    using fresh_sp_simps(7) by (simp add: holds_sps_def c0_def w0_def store_sp_def start_cluster_def empty_world_def)
  have "reachable demo_env False c0"
  proof -
    have "step demo_env False start_cluster (store_sp fresh_sp start_cluster)"
      by (rule step.user_create) (simp_all add: start_cluster_def fresh_sp_simps)
    moreover have "step demo_env False (store_sp fresh_sp start_cluster) c0"
      using step.start [of demo_env False "store_sp fresh_sp start_cluster" 2 "NN ''ns'' ''db''"]
      by (simp add: c0_def start_cluster_def)
    ultimately show ?thesis using reachable_start reachable_step by blast
  qed
  moreover obtain c' where "(step demo_env False)\<^sup>*\<^sup>* c0 c'" "holds_sps c' w'"
    using run_steps [OF rec holds, of "[]" demo_env] by (auto simp: c0_def)
  ultimately have "reachable demo_env False c'" "store c' (NN ''ns'' ''db'') = Some sp'"
    using grown(2) fresh_sp_simps(7) by (auto simp: reachable_def holds_sps_def)
  moreover have "length (pods_of sp') = 1" using grown(3) by (simp add: put_def fresh_sp_simps)
  ultimately show ?thesis by blast
qed

end
