(* ===== verification/DeepCopy.thy ===== *)
theory DeepCopy
  imports ApiV1
begin

text \<open>
  \<open>api/v1/zz\_generated.deepcopy.go\<close>: the deep copies of the API types, which the client's cache
  makes of every StatefulPod it hands out. The other theories treat a StatefulPod as a value; here it
  is the Go struct, whose pointers and slices are addresses of a memory, because what matters about a copy is
  which memory it shares with the original. The types of \<open>api/v1\<close> have grown since the file
  was generated, so some pointers are copied and not what they point to.

  A struct of another package that the code copies by its own \<open>DeepCopyInto\<close> (\<open>ObjectMeta\<close>,
  \<open>ListMeta\<close>, \<open>PodSpec\<close>) is a value, and its copy a parameter. What a copied pointer shares
  as a whole (\<open>ServiceSpec\<close>, \<open>PersistentVolumeClaimSpec\<close>, \<open>LabelSelector\<close>) is one cell.
\<close>

section \<open>Memory\<close>

text \<open>A slice is nil, or the address of its array and its length; the program only cuts slices at the end.\<close>

type_synonym slice = "(nat \<times> nat) option"

record gPodStatus =
  g_PodName :: string
  g_Status :: PodPhase
  g_Index :: "nat option"
  g_NodeName :: string

record gPVCStatus =
  gv_Index :: "nat option"
  gv_PVCName :: string
  gv_Status :: PVCPhase
  gv_Capacity :: string
  gv_AccessModes :: slice
  gv_StorageClass :: string
  gv_PVName :: string

record gStatefulPodSpec =
  g_Size :: "nat option"
  g_Selector :: "nat option"
  g_PVRecyclePolicy :: string
  g_ServiceTemplate :: "nat option"
  g_PodTemplate :: PodSpec
  g_PVCTemplate :: "nat option"
  g_PVNames :: slice

record gStatefulPodStatus =
  g_PodStatusMes :: slice
  g_PVCStatusMes :: slice

record gStatefulPod =
  g_TypeMeta :: TypeMeta
  g_Meta :: ObjectMeta
  g_Spec :: gStatefulPodSpec
  g_State :: gStatefulPodStatus

record 'l gStatefulPodList =
  gl_TypeMeta :: TypeMeta
  gl_ListMeta :: 'l
  gl_Items :: slice

text \<open>The cells of each type; addresses from \<open>lim\<close> on are free.\<close>

record mem =
  lim :: nat
  ints :: "nat \<Rightarrow> int32"
  strs :: "nat \<Rightarrow> string list"
  pod_arr :: "nat \<Rightarrow> gPodStatus list"
  pvc_arr :: "nat \<Rightarrow> gPVCStatus list"
  sp_arr :: "nat \<Rightarrow> gStatefulPod list"
  selectors :: "nat \<Rightarrow> LabelSelector"
  services :: "nat \<Rightarrow> ServiceSpec"
  templates :: "nat \<Rightarrow> PVCSpec"

definition slice_of :: "(nat \<Rightarrow> 'a list) \<Rightarrow> slice \<Rightarrow> 'a list" where
  "slice_of arr s = (case s of None \<Rightarrow> [] | Some (a, n) \<Rightarrow> take n (arr a))"

text \<open>\<open>new(int32)\<close> with its value, \<open>make([]PodStatus, n)\<close> and \<open>make([]StatefulPod, n)\<close> with their elements.\<close>

definition new_int :: "int32 \<Rightarrow> mem \<Rightarrow> nat \<times> mem" where
  "new_int v h = (lim h, h\<lparr>ints := (ints h)(lim h := v), lim := lim h + 1\<rparr>)"

definition new_pods :: "gPodStatus list \<Rightarrow> mem \<Rightarrow> nat \<times> mem" where
  "new_pods xs h = (lim h, h\<lparr>pod_arr := (pod_arr h)(lim h := xs), lim := lim h + 1\<rparr>)"

definition new_sps :: "gStatefulPod list \<Rightarrow> mem \<Rightarrow> nat \<times> mem" where
  "new_sps xs h = (lim h, h\<lparr>sp_arr := (sp_arr h)(lim h := xs), lim := lim h + 1\<rparr>)"

section \<open>The generated functions\<close>

text \<open>The copies of the other packages.\<close>

record 'l copiers =
  copy_Meta :: "ObjectMeta \<Rightarrow> ObjectMeta"
  copy_PodSpec :: "PodSpec \<Rightarrow> PodSpec"
  copy_ListMeta :: "'l \<Rightarrow> 'l"

definition exact :: "'l copiers \<Rightarrow> bool" where
  "exact cp \<longleftrightarrow> copy_Meta cp = id \<and> copy_PodSpec cp = id \<and> copy_ListMeta cp = id"

text \<open>Each \<open>DeepCopyInto\<close> gives the struct it writes to \<open>out\<close>, which starts as a plain copy of \<open>in\<close>.\<close>

definition PodStatus_DeepCopyInto :: "gPodStatus \<Rightarrow> mem \<Rightarrow> gPodStatus \<times> mem" where
  "PodStatus_DeepCopyInto x h = (case g_Index x of
      None \<Rightarrow> (x, h)
    | Some a \<Rightarrow> (case new_int (ints h a) h of (b, h') \<Rightarrow> (x\<lparr>g_Index := Some b\<rparr>, h')))"

fun each_copied :: "('a \<Rightarrow> mem \<Rightarrow> 'a \<times> mem) \<Rightarrow> 'a list \<Rightarrow> mem \<Rightarrow> 'a list \<times> mem" where
  "each_copied f [] h = ([], h)"
| "each_copied f (x # xs) h =
     (case f x h of (y, h1) \<Rightarrow> (case each_copied f xs h1 of (ys, h2) \<Rightarrow> (y # ys, h2)))"

definition StatefulPodStatus_DeepCopyInto :: "gStatefulPodStatus \<Rightarrow> mem \<Rightarrow> gStatefulPodStatus \<times> mem" where
  "StatefulPodStatus_DeepCopyInto st h = (case g_PodStatusMes st of
      None \<Rightarrow> (st, h)
    | Some (a, n) \<Rightarrow>
        (case each_copied PodStatus_DeepCopyInto (slice_of (pod_arr h) (Some (a, n))) h of (xs, h1) \<Rightarrow>
        (case new_pods xs h1 of (b, h2) \<Rightarrow> (st\<lparr>g_PodStatusMes := Some (b, length xs)\<rparr>, h2))))"

definition StatefulPodSpec_DeepCopyInto :: "'l copiers \<Rightarrow> gStatefulPodSpec \<Rightarrow> mem \<Rightarrow> gStatefulPodSpec \<times> mem" where
  "StatefulPodSpec_DeepCopyInto cp s h =
     (let (s1, h1) = (case g_Size s of
            None \<Rightarrow> (s, h)
          | Some a \<Rightarrow> (case new_int (ints h a) h of (b, h') \<Rightarrow> (s\<lparr>g_Size := Some b\<rparr>, h')))
      in (s1\<lparr>g_PodTemplate := copy_PodSpec cp (g_PodTemplate s)\<rparr>, h1))"

definition StatefulPod_DeepCopyInto :: "'l copiers \<Rightarrow> gStatefulPod \<Rightarrow> mem \<Rightarrow> gStatefulPod \<times> mem" where
  "StatefulPod_DeepCopyInto cp g h =
     (case StatefulPodSpec_DeepCopyInto cp (g_Spec g) h of (s, h1) \<Rightarrow>
     (case StatefulPodStatus_DeepCopyInto (g_State g) h1 of (st, h2) \<Rightarrow>
     (g\<lparr>g_Meta := copy_Meta cp (g_Meta g), g_Spec := s, g_State := st\<rparr>, h2)))"

definition StatefulPodList_DeepCopyInto ::
    "'l copiers \<Rightarrow> 'l gStatefulPodList \<Rightarrow> mem \<Rightarrow> 'l gStatefulPodList \<times> mem" where
  "StatefulPodList_DeepCopyInto cp l h =
     (let l1 = l\<lparr>gl_ListMeta := copy_ListMeta cp (gl_ListMeta l)\<rparr>
      in case gl_Items l of
        None \<Rightarrow> (l1, h)
      | Some (a, n) \<Rightarrow>
          (case each_copied (StatefulPod_DeepCopyInto cp) (slice_of (sp_arr h) (Some (a, n))) h of (xs, h1) \<Rightarrow>
          (case new_sps xs h1 of (b, h2) \<Rightarrow> (l1\<lparr>gl_Items := Some (b, length xs)\<rparr>, h2))))"

text \<open>The copies behind pointers: nil stays nil.\<close>

definition deep_copy :: "('a \<Rightarrow> mem \<Rightarrow> 'a \<times> mem) \<Rightarrow> 'a option \<Rightarrow> mem \<Rightarrow> 'a option \<times> mem" where
  "deep_copy into p h = (case p of None \<Rightarrow> (None, h) | Some x \<Rightarrow> (case into x h of (y, h') \<Rightarrow> (Some y, h')))"

definition PodStatus_DeepCopy :: "gPodStatus option \<Rightarrow> mem \<Rightarrow> gPodStatus option \<times> mem" where
  "PodStatus_DeepCopy = deep_copy PodStatus_DeepCopyInto"

definition StatefulPodStatus_DeepCopy :: "gStatefulPodStatus option \<Rightarrow> mem \<Rightarrow> gStatefulPodStatus option \<times> mem" where
  "StatefulPodStatus_DeepCopy = deep_copy StatefulPodStatus_DeepCopyInto"

definition StatefulPodSpec_DeepCopy :: "'l copiers \<Rightarrow> gStatefulPodSpec option \<Rightarrow> mem \<Rightarrow> gStatefulPodSpec option \<times> mem" where
  "StatefulPodSpec_DeepCopy cp = deep_copy (StatefulPodSpec_DeepCopyInto cp)"

definition StatefulPod_DeepCopy :: "'l copiers \<Rightarrow> gStatefulPod option \<Rightarrow> mem \<Rightarrow> gStatefulPod option \<times> mem" where
  "StatefulPod_DeepCopy cp = deep_copy (StatefulPod_DeepCopyInto cp)"

definition StatefulPodList_DeepCopy ::
    "'l copiers \<Rightarrow> 'l gStatefulPodList option \<Rightarrow> mem \<Rightarrow> 'l gStatefulPodList option \<times> mem" where
  "StatefulPodList_DeepCopy cp = deep_copy (StatefulPodList_DeepCopyInto cp)"

text \<open>\<open>DeepCopyObject\<close> passes the copy on as an interface value, nil for a nil pointer.\<close>

definition StatefulPod_DeepCopyObject :: "'l copiers \<Rightarrow> gStatefulPod option \<Rightarrow> mem \<Rightarrow> gStatefulPod option \<times> mem" where
  "StatefulPod_DeepCopyObject cp p h = (case StatefulPod_DeepCopy cp p h of (c, h') \<Rightarrow>
     (case c of Some x \<Rightarrow> (Some x, h') | None \<Rightarrow> (None, h')))"

definition StatefulPodList_DeepCopyObject ::
    "'l copiers \<Rightarrow> 'l gStatefulPodList option \<Rightarrow> mem \<Rightarrow> 'l gStatefulPodList option \<times> mem" where
  "StatefulPodList_DeepCopyObject cp p h = (case StatefulPodList_DeepCopy cp p h of (c, h') \<Rightarrow>
     (case c of Some x \<Rightarrow> (Some x, h') | None \<Rightarrow> (None, h')))"

section \<open>Reading a struct back as a value\<close>

definition read_pod :: "mem \<Rightarrow> gPodStatus \<Rightarrow> PodStatus" where
  "read_pod h x = \<lparr>PodName = g_PodName x, ps_Status = g_Status x, ps_Index = map_option (ints h) (g_Index x),
     NodeName = g_NodeName x\<rparr>"

definition read_pvc :: "mem \<Rightarrow> gPVCStatus \<Rightarrow> PVCStatus" where
  "read_pvc h x = \<lparr>pvs_Index = map_option (ints h) (gv_Index x), PVCName = gv_PVCName x, pvs_Status = gv_Status x,
     Capacity = gv_Capacity x, pvs_AccessModes = slice_of (strs h) (gv_AccessModes x),
     StorageClass = gv_StorageClass x, PVName = gv_PVName x\<rparr>"

definition read_spec :: "mem \<Rightarrow> gStatefulPodSpec \<Rightarrow> StatefulPodSpec" where
  "read_spec h s = \<lparr>Size = map_option (ints h) (g_Size s), Selector = map_option (selectors h) (g_Selector s),
     PVRecyclePolicy = g_PVRecyclePolicy s, ServiceTemplate = map_option (services h) (g_ServiceTemplate s),
     PodTemplate = g_PodTemplate s, PVCTemplate = map_option (templates h) (g_PVCTemplate s),
     PVNames = slice_of (strs h) (g_PVNames s)\<rparr>"

definition read_status :: "mem \<Rightarrow> gStatefulPodStatus \<Rightarrow> StatefulPodStatus" where
  "read_status h st = \<lparr>PodStatusMes = map (read_pod h) (slice_of (pod_arr h) (g_PodStatusMes st)),
     PVCStatusMes = map (read_pvc h) (slice_of (pvc_arr h) (g_PVCStatusMes st))\<rparr>"

definition read_sp :: "mem \<Rightarrow> gStatefulPod \<Rightarrow> StatefulPod" where
  "read_sp h g = \<lparr>sp_TypeMeta = g_TypeMeta g, sp_Meta = g_Meta g, Spec = read_spec h (g_Spec g),
     Status = read_status h (g_State g)\<rparr>"

end
