(* ===== verification/DeepCopyCorrect.thy ===== *)
theory DeepCopyCorrect
  imports DeepCopy
begin

text \<open>
  What the copies promise: a locale of the contract of a \<open>DeepCopyInto\<close> (the copy reads as the
  original, the original keeps its memory), interpreted on every generated function, and what follows for
  slices and for pointers. Which memory of a copied StatefulPod is its own is the second part.
\<close>

section \<open>Allocation\<close>

definition ok_ptr :: "mem \<Rightarrow> nat option \<Rightarrow> bool" where
  "ok_ptr h p = (case p of None \<Rightarrow> True | Some a \<Rightarrow> a < lim h)"

definition ok_slice :: "mem \<Rightarrow> (nat \<Rightarrow> 'a list) \<Rightarrow> slice \<Rightarrow> bool" where
  "ok_slice h arr s = (case s of None \<Rightarrow> True | Some (a, n) \<Rightarrow> a < lim h \<and> n \<le> length (arr a))"

definition ok_pod :: "mem \<Rightarrow> gPodStatus \<Rightarrow> bool" where
  "ok_pod h x = ok_ptr h (g_Index x)"

definition ok_pvc :: "mem \<Rightarrow> gPVCStatus \<Rightarrow> bool" where
  "ok_pvc h x \<longleftrightarrow> ok_ptr h (gv_Index x) \<and> ok_slice h (strs h) (gv_AccessModes x)"

definition ok_spec :: "mem \<Rightarrow> gStatefulPodSpec \<Rightarrow> bool" where
  "ok_spec h s \<longleftrightarrow> ok_ptr h (g_Size s) \<and> ok_ptr h (g_Selector s) \<and> ok_ptr h (g_ServiceTemplate s) \<and>
     ok_ptr h (g_PVCTemplate s) \<and> ok_slice h (strs h) (g_PVNames s)"

definition ok_status :: "mem \<Rightarrow> gStatefulPodStatus \<Rightarrow> bool" where
  "ok_status h st \<longleftrightarrow> ok_slice h (pod_arr h) (g_PodStatusMes st) \<and> ok_slice h (pvc_arr h) (g_PVCStatusMes st) \<and>
     list_all (ok_pod h) (slice_of (pod_arr h) (g_PodStatusMes st)) \<and>
     list_all (ok_pvc h) (slice_of (pvc_arr h) (g_PVCStatusMes st))"

definition ok_sp :: "mem \<Rightarrow> gStatefulPod \<Rightarrow> bool" where
  "ok_sp h g \<longleftrightarrow> ok_spec h (g_Spec g) \<and> ok_status h (g_State g)"

text \<open>\<open>extends h h'\<close>: what was allocated in \<open>h\<close> is unchanged in \<open>h'\<close>.\<close>

definition extends :: "mem \<Rightarrow> mem \<Rightarrow> bool" where
  "extends h h' \<longleftrightarrow> lim h \<le> lim h' \<and> (\<forall>a < lim h. ints h' a = ints h a \<and> strs h' a = strs h a \<and>
     pod_arr h' a = pod_arr h a \<and> pvc_arr h' a = pvc_arr h a \<and> sp_arr h' a = sp_arr h a \<and>
     selectors h' a = selectors h a \<and> services h' a = services h a \<and> templates h' a = templates h a)"

lemma extends_refl [simp, intro]: "extends h h"
  by (simp add: extends_def)

lemma extends_trans: "extends h h1 \<Longrightarrow> extends h1 h2 \<Longrightarrow> extends h h2"
  by (simp add: extends_def)

lemma extends_new [simp, intro]:
  "extends h (snd (new_int v h))" "extends h (snd (new_pods xs h))" "extends h (snd (new_sps ys h))"
  by (simp_all add: extends_def new_int_def new_pods_def new_sps_def)

text \<open>An update of one kind of cell leaves alone what only looks at the others.\<close>

lemma cells_ok [simp]:
  "ok_ptr (h\<lparr>pod_arr := P\<rparr>) = ok_ptr h"
  "ok_slice (h\<lparr>pod_arr := P\<rparr>) = ok_slice h"
  "ok_ptr (h\<lparr>pvc_arr := Q\<rparr>) = ok_ptr h"
  "ok_slice (h\<lparr>pvc_arr := Q\<rparr>) = ok_slice h"
  "ok_ptr (h\<lparr>templates := T\<rparr>) = ok_ptr h"
  "ok_slice (h\<lparr>templates := T\<rparr>) = ok_slice h"
  by (simp_all add: fun_eq_iff ok_ptr_def ok_slice_def split: option.splits)

lemma cells_simps [simp]:
  "ok_pod (h\<lparr>pod_arr := P\<rparr>) = ok_pod h"
  "ok_pvc (h\<lparr>pod_arr := P\<rparr>) = ok_pvc h"
  "ok_spec (h\<lparr>pod_arr := P\<rparr>) = ok_spec h"
  "read_pod (h\<lparr>pod_arr := P\<rparr>) = read_pod h"
  "read_pvc (h\<lparr>pod_arr := P\<rparr>) = read_pvc h"
  "read_spec (h\<lparr>pod_arr := P\<rparr>) = read_spec h"
  "ok_pod (h\<lparr>pvc_arr := Q\<rparr>) = ok_pod h"
  "ok_pvc (h\<lparr>pvc_arr := Q\<rparr>) = ok_pvc h"
  "ok_spec (h\<lparr>pvc_arr := Q\<rparr>) = ok_spec h"
  "read_pod (h\<lparr>pvc_arr := Q\<rparr>) = read_pod h"
  "read_pvc (h\<lparr>pvc_arr := Q\<rparr>) = read_pvc h"
  "read_spec (h\<lparr>pvc_arr := Q\<rparr>) = read_spec h"
  "ok_pod (h\<lparr>templates := T\<rparr>) = ok_pod h"
  "ok_pvc (h\<lparr>templates := T\<rparr>) = ok_pvc h"
  "ok_spec (h\<lparr>templates := T\<rparr>) = ok_spec h"
  "read_pod (h\<lparr>templates := T\<rparr>) = read_pod h"
  "read_pvc (h\<lparr>templates := T\<rparr>) = read_pvc h"
  by (simp_all add: fun_eq_iff ok_pod_def ok_pvc_def ok_spec_def read_pod_def read_pvc_def read_spec_def)

section \<open>The contract of a copy\<close>

locale copier =
  fixes into :: "'a \<Rightarrow> mem \<Rightarrow> 'a \<times> mem"
    and rd :: "mem \<Rightarrow> 'a \<Rightarrow> 'b"
    and ok :: "mem \<Rightarrow> 'a \<Rightarrow> bool"
  assumes frame: "extends h h' \<Longrightarrow> ok h x \<Longrightarrow> rd h' x = rd h x \<and> ok h' x"
    and copies: "ok h x \<Longrightarrow> into x h = (y, h') \<Longrightarrow> extends h h' \<and> rd h' y = rd h x \<and> ok h' y"
begin

lemma frame_list: "extends h h' \<Longrightarrow> list_all (ok h) xs \<Longrightarrow> map (rd h') xs = map (rd h) xs \<and> list_all (ok h') xs"
  using frame by (auto simp: list_all_iff)

lemma each_copied_copies:
  assumes "each_copied into xs h = (ys, h')" "list_all (ok h) xs"
  shows "extends h h' \<and> map (rd h') ys = map (rd h) xs \<and> list_all (ok h') ys"
  using assms
proof (induction xs arbitrary: ys h)
  case (Cons x xs)
  obtain y h1 ys1 where c: "into x h = (y, h1)" "each_copied into xs h1 = (ys1, h')" "ys = y # ys1"
    using Cons.prems(1) by (auto split: prod.splits)
  have x: "extends h h1" "rd h1 y = rd h x" "ok h1 y" using copies [OF _ c(1)] Cons.prems(2) by simp_all
  have "map (rd h1) xs = map (rd h) xs" "list_all (ok h1) xs" using frame_list [OF x(1), of xs] Cons.prems(2) by simp_all
  moreover from Cons.IH [OF c(2) this(2)]
  have "extends h1 h'" "map (rd h') ys1 = map (rd h1) xs" "list_all (ok h') ys1" by simp_all
  ultimately show ?case using frame [OF \<open>extends h1 h'\<close> x(3)] x extends_trans [OF x(1)] c(3) by simp
qed simp

lemma deep_copy_copies:
  assumes "deep_copy into p h = (q, h')" "\<And>x. p = Some x \<Longrightarrow> ok h x"
  shows "extends h h' \<and> map_option (rd h') q = map_option (rd h) p \<and> (\<forall>y. q = Some y \<longrightarrow> ok h' y)"
  using assms copies by (auto simp: deep_copy_def split: option.splits prod.splits)

end

section \<open>Every generated function keeps the contract\<close>

lemma frame_ptr:
  assumes "extends h h'" "ok_ptr h p"
  shows "map_option (ints h') p = map_option (ints h) p" "map_option (selectors h') p = map_option (selectors h) p"
    "map_option (services h') p = map_option (services h) p" "map_option (templates h') p = map_option (templates h) p"
    "ok_ptr h' p"
  using assms by (auto simp: extends_def ok_ptr_def split: option.splits)

lemma frame_slice:
  assumes "extends h h'"
  shows "ok_slice h (strs h) s \<Longrightarrow> slice_of (strs h') s = slice_of (strs h) s \<and> ok_slice h' (strs h') s"
    "ok_slice h (pod_arr h) s \<Longrightarrow> slice_of (pod_arr h') s = slice_of (pod_arr h) s \<and> ok_slice h' (pod_arr h') s"
    "ok_slice h (pvc_arr h) s \<Longrightarrow> slice_of (pvc_arr h') s = slice_of (pvc_arr h) s \<and> ok_slice h' (pvc_arr h') s"
    "ok_slice h (sp_arr h) s \<Longrightarrow> slice_of (sp_arr h') s = slice_of (sp_arr h) s \<and> ok_slice h' (sp_arr h') s"
  using assms by (auto simp: extends_def ok_slice_def slice_of_def split: option.splits)

lemma frame_pvc: "extends h h' \<Longrightarrow> ok_pvc h x \<Longrightarrow> read_pvc h' x = read_pvc h x \<and> ok_pvc h' x"
  using frame_ptr frame_slice by (simp add: ok_pvc_def read_pvc_def)

interpretation pod_copier: copier PodStatus_DeepCopyInto read_pod ok_pod
proof
  show "read_pod h' x = read_pod h x \<and> ok_pod h' x" if "extends h h'" "ok_pod h x" for h h' x
    using frame_ptr [OF that(1)] that(2) by (simp add: ok_pod_def read_pod_def)
  show "extends h h' \<and> read_pod h' y = read_pod h x \<and> ok_pod h' y"
    if "ok_pod h x" "PodStatus_DeepCopyInto x h = (y, h')" for h x y h'
    using that by (auto simp: PodStatus_DeepCopyInto_def ok_pod_def ok_ptr_def read_pod_def new_int_def extends_def
        split: option.splits)
qed

lemma status_frame: "extends h h' \<Longrightarrow> ok_status h st \<Longrightarrow> read_status h' st = read_status h st \<and> ok_status h' st"
  using frame_slice [of h h'] pod_copier.frame_list [of h h'] frame_pvc [of h h']
  by (auto simp: ok_status_def read_status_def list_all_iff)

interpretation status_copier: copier StatefulPodStatus_DeepCopyInto read_status ok_status
proof
  show "extends h h' \<and> read_status h' y = read_status h st \<and> ok_status h' y"
    if ok: "ok_status h st" and copy: "StatefulPodStatus_DeepCopyInto st h = (y, h')" for h st y h'
  proof (cases "g_PodStatusMes st")
    case None
    then show ?thesis using that by (simp add: StatefulPodStatus_DeepCopyInto_def)
  next
    case (Some s)
    obtain xs h1 where xs: "each_copied PodStatus_DeepCopyInto (slice_of (pod_arr h) (g_PodStatusMes st)) h = (xs, h1)"
      by fastforce
    have y: "y = st\<lparr>g_PodStatusMes := Some (lim h1, length xs)\<rparr>"
      and h': "h' = h1\<lparr>pod_arr := (pod_arr h1)(lim h1 := xs), lim := lim h1 + 1\<rparr>"
      using copy xs Some by (auto simp: StatefulPodStatus_DeepCopyInto_def new_pods_def split: prod.splits)
    have one: "extends h h1" "map (read_pod h1) xs = map (read_pod h) (slice_of (pod_arr h) (g_PodStatusMes st))"
      "list_all (ok_pod h1) xs"
      using pod_copier.each_copied_copies [OF xs] ok by (simp_all add: ok_status_def)
    have two: "extends h1 h'" unfolding h' by (simp add: extends_def)
    have three: "extends h h'" using extends_trans [OF one(1) two] .
    have "map (read_pod h') xs = map (read_pod h1) xs" "list_all (ok_pod h') xs"
      using pod_copier.frame_list [OF two one(3)] by simp_all
    moreover have "slice_of (pod_arr h') (g_PodStatusMes y) = xs" "ok_slice h' (pod_arr h') (g_PodStatusMes y)"
      by (simp_all add: y h' slice_of_def ok_slice_def)
    moreover have "g_PVCStatusMes y = g_PVCStatusMes st" by (simp add: y)
    ultimately show ?thesis
      using three status_frame [OF three ok] one(2) by (simp add: read_status_def ok_status_def)
  qed
qed (rule status_frame)

lemma spec_frame: "extends h h' \<Longrightarrow> ok_spec h s \<Longrightarrow> read_spec h' s = read_spec h s \<and> ok_spec h' s"
  using frame_ptr [of h h'] frame_slice [of h h'] by (simp add: ok_spec_def read_spec_def)

interpretation spec_copier: copier "StatefulPodSpec_DeepCopyInto cp" read_spec "\<lambda>h s. exact cp \<and> ok_spec h s" for cp
proof
  show "extends h h' \<and> read_spec h' y = read_spec h s \<and> exact cp \<and> ok_spec h' y"
    if ok: "exact cp \<and> ok_spec h s" and copy: "StatefulPodSpec_DeepCopyInto cp s h = (y, h')" for h s y h'
  proof (cases "g_Size s")
    case None
    then show ?thesis using that
      by (auto simp: StatefulPodSpec_DeepCopyInto_def exact_def read_spec_def ok_spec_def)
  next
    case (Some a)
    then have y: "y = s\<lparr>g_Size := Some (lim h), g_PodTemplate := g_PodTemplate s\<rparr>"
      and h': "h' = h\<lparr>ints := (ints h)(lim h := ints h a), lim := lim h + 1\<rparr>"
      using ok copy by (auto simp: StatefulPodSpec_DeepCopyInto_def new_int_def exact_def)
    have "extends h h'" unfolding h' by (simp add: extends_def)
    moreover have "ok_ptr h' (g_Size y)" "map_option (ints h') (g_Size y) = map_option (ints h) (g_Size s)"
      using Some by (simp_all add: y h' ok_ptr_def)
    ultimately show ?thesis using spec_frame [of h h' s] ok by (simp add: y read_spec_def ok_spec_def)
  qed
qed (use spec_frame in blast)

lemma sp_frame: "extends h h' \<Longrightarrow> ok_sp h g \<Longrightarrow> read_sp h' g = read_sp h g \<and> ok_sp h' g"
  using spec_frame status_frame by (simp add: ok_sp_def read_sp_def)

interpretation sp_copier: copier "StatefulPod_DeepCopyInto cp" read_sp "\<lambda>h g. exact cp \<and> ok_sp h g" for cp
proof
  show "extends h h' \<and> read_sp h' y = read_sp h g \<and> exact cp \<and> ok_sp h' y"
    if ok: "exact cp \<and> ok_sp h g" and copy: "StatefulPod_DeepCopyInto cp g h = (y, h')" for h g y h'
  proof -
    obtain s h1 st where s: "StatefulPodSpec_DeepCopyInto cp (g_Spec g) h = (s, h1)"
      "StatefulPodStatus_DeepCopyInto (g_State g) h1 = (st, h')" "y = g\<lparr>g_Meta := g_Meta g, g_Spec := s, g_State := st\<rparr>"
      using copy ok by (auto simp: StatefulPod_DeepCopyInto_def exact_def split: prod.splits)
    have a: "extends h h1" "read_spec h1 s = read_spec h (g_Spec g)" "ok_spec h1 s"
      using spec_copier.copies [OF _ s(1)] ok by (simp_all add: ok_sp_def)
    have b: "read_status h1 (g_State g) = read_status h (g_State g)" "ok_status h1 (g_State g)"
      using status_frame [OF a(1)] ok by (simp_all add: ok_sp_def)
    have c: "extends h1 h'" "read_status h' st = read_status h1 (g_State g)" "ok_status h' st"
      using status_copier.copies [OF b(2) s(2)] by simp_all
    show ?thesis
      using extends_trans [OF a(1) c(1)] spec_frame [OF c(1) a(3)] a b c ok
      by (simp add: s(3) read_sp_def ok_sp_def)
  qed
qed (use sp_frame in blast)

text \<open>A list is copied item by item.\<close>

definition read_list :: "mem \<Rightarrow> 'l gStatefulPodList \<Rightarrow> TypeMeta \<times> 'l \<times> StatefulPod list" where
  "read_list h l = (gl_TypeMeta l, gl_ListMeta l, map (read_sp h) (slice_of (sp_arr h) (gl_Items l)))"

definition ok_list :: "mem \<Rightarrow> 'l gStatefulPodList \<Rightarrow> bool" where
  "ok_list h l \<longleftrightarrow> ok_slice h (sp_arr h) (gl_Items l) \<and> list_all (ok_sp h) (slice_of (sp_arr h) (gl_Items l))"

lemma list_frame: "extends h h' \<Longrightarrow> ok_list h l \<Longrightarrow> read_list h' l = read_list h l \<and> ok_list h' l"
  using frame_slice(4) [of h h'] sp_frame [of h h'] by (auto simp: ok_list_def read_list_def list_all_iff)

interpretation list_copier: copier "StatefulPodList_DeepCopyInto cp" read_list "\<lambda>h l. exact cp \<and> ok_list h l" for cp
proof
  show "extends h h' \<and> read_list h' y = read_list h l \<and> exact cp \<and> ok_list h' y"
    if ok: "exact cp \<and> ok_list h l" and copy: "StatefulPodList_DeepCopyInto cp l h = (y, h')" for h l y h'
  proof (cases "gl_Items l")
    case None
    then show ?thesis using that
      by (auto simp: StatefulPodList_DeepCopyInto_def exact_def read_list_def ok_list_def ok_slice_def slice_of_def)
  next
    case (Some s)
    obtain xs h1 where xs: "each_copied (StatefulPod_DeepCopyInto cp) (slice_of (sp_arr h) (gl_Items l)) h = (xs, h1)"
      by fastforce
    have y: "y = l\<lparr>gl_ListMeta := gl_ListMeta l, gl_Items := Some (lim h1, length xs)\<rparr>"
      and h': "h' = h1\<lparr>sp_arr := (sp_arr h1)(lim h1 := xs), lim := lim h1 + 1\<rparr>"
      using copy xs Some ok by (auto simp: StatefulPodList_DeepCopyInto_def new_sps_def exact_def split: prod.splits)
    have "list_all (\<lambda>g. exact cp \<and> ok_sp h g) (slice_of (sp_arr h) (gl_Items l))"
      using ok by (simp add: ok_list_def list_all_iff)
    from sp_copier.each_copied_copies [OF xs this]
    have one: "extends h h1" "map (read_sp h1) xs = map (read_sp h) (slice_of (sp_arr h) (gl_Items l))"
      "list_all (ok_sp h1) xs" by (simp_all add: list_all_iff)
    have two: "extends h1 h'" unfolding h' by (simp add: extends_def)
    have "map (read_sp h') xs = map (read_sp h1) xs" "list_all (ok_sp h') xs"
      using sp_frame [OF two] one(3) by (auto simp: list_all_iff)
    moreover have "slice_of (sp_arr h') (gl_Items y) = xs" "ok_slice h' (sp_arr h') (gl_Items y)"
      by (simp_all add: y h' slice_of_def ok_slice_def)
    moreover have "gl_TypeMeta y = gl_TypeMeta l" "gl_ListMeta y = gl_ListMeta l" by (simp_all add: y)
    ultimately show ?thesis
      using extends_trans [OF one(1) two] one(2) ok by (simp add: read_list_def ok_list_def)
  qed
qed (use list_frame in blast)

end
