(* ===== verification/CacheSharing.thy ===== *)
theory CacheSharing
  imports DeepCopyCorrect Interleaving
begin

text \<open>
  What the cache and a worker share. The cache keeps a StatefulPod \<open>g\<close> and hands out a copy \<open>g'\<close>; the
  worker then assigns through \<open>g'\<close> as the controllers do. Entries of pods are the worker's own; the entries
  of claims and the claim template are the cache's. The relation \<open>cache\_drift\<close> of the theory
  Interleaving, by which a read there may differ from the stored version, is what such assignments can do:
  \<open>cache\_use\<close> hands out copies made by the generated function and writes what the controllers' operations leave.
\<close>

section \<open>Assignments through a StatefulPod\<close>

text \<open>
  \<open>statefulPod.Status.PodStatusMes[i] = f(...)\<close> (and assignments to its fields), the same for
  claim entries, and assignments to the fields of \<open>*statefulPod.Spec.PVCTemplate\<close>.
\<close>

definition write_pod :: "gStatefulPod \<Rightarrow> nat \<Rightarrow> (gPodStatus \<Rightarrow> gPodStatus) \<Rightarrow> mem \<Rightarrow> mem" where
  "write_pod g i f h = (case g_PodStatusMes (g_State g) of None \<Rightarrow> h
     | Some (a, n) \<Rightarrow> h\<lparr>pod_arr := (pod_arr h)(a := (pod_arr h a)[i := f (pod_arr h a ! i)])\<rparr>)"

definition write_pvc :: "gStatefulPod \<Rightarrow> nat \<Rightarrow> (gPVCStatus \<Rightarrow> gPVCStatus) \<Rightarrow> mem \<Rightarrow> mem" where
  "write_pvc g i f h = (case g_PVCStatusMes (g_State g) of None \<Rightarrow> h
     | Some (a, n) \<Rightarrow> h\<lparr>pvc_arr := (pvc_arr h)(a := (pvc_arr h a)[i := f (pvc_arr h a ! i)])\<rparr>)"

definition write_template :: "gStatefulPod \<Rightarrow> (PVCSpec \<Rightarrow> PVCSpec) \<Rightarrow> mem \<Rightarrow> mem" where
  "write_template g f h = (case g_PVCTemplate (g_Spec g) of None \<Rightarrow> h
     | Some a \<Rightarrow> h\<lparr>templates := (templates h)(a := f (templates h a))\<rparr>)"

section \<open>What a copy owns and what it shares\<close>

text \<open>The pod entries and the size are new memory; the claim entries and the claim template are the original's.\<close>

definition copy_of :: "mem \<Rightarrow> gStatefulPod \<Rightarrow> gStatefulPod \<Rightarrow> bool" where
  "copy_of h g g' \<longleftrightarrow> (case g_PodStatusMes (g_State g') of None \<Rightarrow> True | Some (a, n) \<Rightarrow> lim h \<le> a) \<and>
     g_PVCStatusMes (g_State g') = g_PVCStatusMes (g_State g) \<and> g_PVCTemplate (g_Spec g') = g_PVCTemplate (g_Spec g)"

lemma each_copied_lim: "each_copied PodStatus_DeepCopyInto xs h = (ys, h') \<Longrightarrow> lim h \<le> lim h'"
proof (induction xs arbitrary: ys h)
  case (Cons x xs)
  obtain y h1 where y: "PodStatus_DeepCopyInto x h = (y, h1)" by fastforce
  obtain zs where "each_copied PodStatus_DeepCopyInto xs h1 = (zs, h')"
    using Cons.prems y by (auto split: prod.splits)
  then have "lim h1 \<le> lim h'" by (rule Cons.IH)
  moreover have "lim h \<le> lim h1"
    using y by (auto simp: PodStatus_DeepCopyInto_def new_int_def split: option.splits)
  ultimately show ?case by simp
qed simp

lemma DeepCopyInto_copy_of:
  assumes "StatefulPod_DeepCopyInto cp g h = (g', h')"
  shows "copy_of h g g'"
proof -
  obtain s h1 st where s: "StatefulPodSpec_DeepCopyInto cp (g_Spec g) h = (s, h1)"
    "StatefulPodStatus_DeepCopyInto (g_State g) h1 = (st, h')" "g_Spec g' = s" "g_State g' = st"
    using assms by (auto simp: StatefulPod_DeepCopyInto_def split: prod.splits)
  have "lim h \<le> lim h1" "g_PVCTemplate s = g_PVCTemplate (g_Spec g)"
    using s(1) by (auto simp: StatefulPodSpec_DeepCopyInto_def new_int_def split: option.splits)
  moreover have "g_PVCStatusMes st = g_PVCStatusMes (g_State g)"
    "case g_PodStatusMes st of None \<Rightarrow> True | Some (a, n) \<Rightarrow> lim h1 \<le> a"
    using s(2) by (auto simp: StatefulPodStatus_DeepCopyInto_def new_pods_def split: option.splits prod.splits
        dest: each_copied_lim)
  ultimately show ?thesis using s(3,4) by (auto simp: copy_of_def split: option.splits)
qed

lemma write_pod_private:
  assumes "copy_of h g g'" "extends h h'"
  shows "extends h (write_pod g' i f h')"
  using assms by (auto simp: copy_of_def write_pod_def extends_def split: option.splits)

lemma read_write_pvc:
  assumes "g_PVCStatusMes (g_State g') = g_PVCStatusMes (g_State g)" "i < length (pvcs_of (read_sp h g))"
  shows "read_sp (write_pvc g' i f h) g =
    set_pvcs ((pvcs_of (read_sp h g))[i := read_pvc h (f (slice_of (pvc_arr h) (g_PVCStatusMes (g_State g)) ! i))]) (read_sp h g)"
proof -
  obtain a n where s: "g_PVCStatusMes (g_State g) = Some (a, n)" "i < n" "i < length (pvc_arr h a)"
    using assms(2) by (auto simp: read_sp_def read_status_def slice_of_def split: option.splits)
  then show ?thesis using assms(1)
    by (simp add: read_sp_def read_status_def write_pvc_def slice_of_def take_update_swap map_update)
qed

lemma read_write_template:
  assumes "g_PVCTemplate (g_Spec g') = g_PVCTemplate (g_Spec g)"
  shows "read_sp (write_template g' f h) g =
    (read_sp h g)\<lparr>Spec := (Spec (read_sp h g))\<lparr>PVCTemplate := map_option f (PVCTemplate (Spec (read_sp h g)))\<rparr>\<rparr>"
  using assms by (simp add: read_sp_def read_status_def read_spec_def write_template_def split: option.splits)

section \<open>The copies\<close>

text \<open>C40: a copy of a StatefulPod reads as the original, and making it changes nothing the original reads: if the copies of the
  Kubernetes types are exact, a StatefulPod whose pointers and slices are all allocated is copied to one with the same
  value, allocated again, and nil is copied to nil.\<close>

theorem deep_copy_equal:
  assumes "exact cp" "ok_sp h g"
  shows "\<exists>g' h'. StatefulPod_DeepCopyObject cp (Some g) h = (Some g', h') \<and> read_sp h' g' = read_sp h g \<and>
      read_sp h' g = read_sp h g \<and> ok_sp h' g' \<and> ok_sp h' g \<and>
    StatefulPod_DeepCopyObject cp None h = (None, h)"
proof -
  obtain g' h' where c: "StatefulPod_DeepCopyInto cp g h = (g', h')" by fastforce
  then have "extends h h'" "read_sp h' g' = read_sp h g" "ok_sp h' g'" using sp_copier.copies [OF _ c] assms by simp_all
  with c sp_frame [OF this(1) assms(2)] show ?thesis
    by (simp add: StatefulPod_DeepCopyObject_def StatefulPod_DeepCopy_def deep_copy_def)
qed

text \<open>A small memory: one StatefulPod of size 1 with one pod and one pending claim, and a claim template.\<close>

definition demo_mem :: mem where
  "demo_mem = \<lparr>lim = 3, ints = (\<lambda>a. if a = 0 then int32_of 1 else int32_of 0), strs = (\<lambda>_. []),
     pod_arr = (\<lambda>_. [\<lparr>g_PodName = ''db-0'', g_Status = ''Running'', g_Index = Some 1, g_NodeName = ''n1''\<rparr>]),
     pvc_arr = (\<lambda>_. [\<lparr>gv_Index = Some 2, gv_PVCName = ''data-db-0'', gv_Status = ''Pending'', gv_Capacity = '''',
       gv_AccessModes = None, gv_StorageClass = ''local'', gv_PVName = ''''\<rparr>]),
     sp_arr = (\<lambda>_. []), selectors = (\<lambda>_. \<lparr>MatchLabels = [], LabelSelector_rest = ''''\<rparr>),
     services = (\<lambda>_. \<lparr>svc_Selector = [], ServiceSpec_rest = ''''\<rparr>),
     templates = (\<lambda>_. \<lparr>AccessModes = [], StorageClassName = Some ''local'', VolumeName = '''', Requests = [],
       PVCSpec_rest = ''''\<rparr>)\<rparr>"

definition demo_g :: gStatefulPod where
  "demo_g = \<lparr>g_TypeMeta = \<lparr>tm_Kind = ''StatefulPod'', tm_APIVersion = ''v1''\<rparr>, g_Meta = ObjectMeta_zero,
     g_Spec = \<lparr>g_Size = Some 0, g_Selector = None, g_PVRecyclePolicy = ''Delete'', g_ServiceTemplate = None,
       g_PodTemplate = \<lparr>Volumes = [], pod_NodeName = '''', Hostname = '''', Subdomain = '''', PodSpec_rest = ''''\<rparr>,
       g_PVCTemplate = Some 0, g_PVNames = None\<rparr>,
     g_State = \<lparr>g_PodStatusMes = Some (0, 1), g_PVCStatusMes = Some (0, 1)\<rparr>\<rparr>"

definition demo_copiers :: "unit copiers" where
  "demo_copiers = \<lparr>copy_Meta = id, copy_PodSpec = id, copy_ListMeta = id\<rparr>"

lemma demo_copy [simp]: "exact demo_copiers" "ok_sp demo_mem demo_g"
  by (simp_all add: exact_def demo_copiers_def demo_mem_def demo_g_def ok_sp_def ok_spec_def ok_status_def ok_ptr_def
      ok_slice_def slice_of_def ok_pod_def ok_pvc_def)

lemma demo_pvcs: "map pvs_Status (pvcs_of (read_sp demo_mem demo_g)) = [''Pending'']"
  by (simp add: demo_mem_def demo_g_def read_sp_def read_status_def read_pvc_def slice_of_def)

theorem deep_copy_equal_witness:
  "\<exists>g' h'. StatefulPod_DeepCopyObject demo_copiers (Some demo_g) demo_mem = (Some g', h') \<and>
    map pvs_Status (pvcs_of (read_sp h' g')) = [''Pending'']"
proof -
  obtain g' h' where "StatefulPod_DeepCopyObject demo_copiers (Some demo_g) demo_mem = (Some g', h')"
    "read_sp h' g' = read_sp demo_mem demo_g"
    using deep_copy_equal [of demo_copiers demo_mem demo_g] by auto
  then show ?thesis using demo_pvcs by metis
qed

text \<open>C24: the copy is not deep: an assignment to a pod entry of the copy leaves the original alone, but an assignment to a claim
  entry of the copy changes the same claim entry of the original, and an assignment through the copy's claim template changes the
  original's claim template, because the generated file predates these fields.\<close>

theorem deep_copy_ownership:
  assumes "exact cp" "ok_sp h g" "StatefulPod_DeepCopyInto cp g h = (g', h')"
  shows "read_sp (write_pod g' i f h') g = read_sp h g \<and>
    (i < length (pvcs_of (read_sp h g)) \<longrightarrow>
      pvcs_of (read_sp (write_pvc g' i (\<lambda>v. v\<lparr>gv_Status := st\<rparr>) h') g) =
        (pvcs_of (read_sp h g))[i := (pvcs_of (read_sp h g) ! i)\<lparr>pvs_Status := st\<rparr>]) \<and>
    PVCTemplate (Spec (read_sp (write_template g' F h') g)) = map_option F (PVCTemplate (Spec (read_sp h g)))"
proof -
  have c: "copy_of h g g'" by (rule DeepCopyInto_copy_of [OF assms(3)])
  have e: "extends h h'" using sp_copier.copies [OF _ assms(3)] assms(1,2) by simp
  have g: "read_sp h' g = read_sp h g" using sp_frame [OF e assms(2)] by simp
  have "read_pvc h' ((slice_of (pvc_arr h') (g_PVCStatusMes (g_State g)) ! i)\<lparr>gv_Status := st\<rparr>) =
      (pvcs_of (read_sp h' g) ! i)\<lparr>pvs_Status := st\<rparr>" if "i < length (pvcs_of (read_sp h' g))"
    using that by (simp add: read_sp_def read_status_def read_pvc_def)
  with c g have "i < length (pvcs_of (read_sp h g)) \<longrightarrow>
      pvcs_of (read_sp (write_pvc g' i (\<lambda>v. v\<lparr>gv_Status := st\<rparr>) h') g) =
        (pvcs_of (read_sp h g))[i := (pvcs_of (read_sp h g) ! i)\<lparr>pvs_Status := st\<rparr>]"
    using read_write_pvc [of g' g i h'] by (simp add: copy_of_def)
  moreover have "read_sp (write_pod g' i f h') g = read_sp h g"
    using sp_frame [OF write_pod_private [OF c e] assms(2)] by simp
  moreover have "PVCTemplate (Spec (read_sp (write_template g' F h') g)) = map_option F (PVCTemplate (Spec (read_sp h g)))"
    using read_write_template [of g' g F h'] c g by (simp add: copy_of_def)
  ultimately show ?thesis by blast
qed

theorem deep_copy_ownership_witness:
  "\<exists>g' h'. StatefulPod_DeepCopyInto demo_copiers demo_g demo_mem = (g', h') \<and>
    map pvs_Status (pvcs_of (read_sp (write_pvc g' 0 (\<lambda>v. v\<lparr>gv_Status := ''Bound''\<rparr>) h') demo_g)) = [''Bound'']"
proof -
  obtain g' h' where c: "StatefulPod_DeepCopyInto demo_copiers demo_g demo_mem = (g', h')" by fastforce
  have len: "0 < length (pvcs_of (read_sp demo_mem demo_g))" using demo_pvcs by (metis length_map length_Cons zero_less_Suc)
  have "pvcs_of (read_sp (write_pvc g' 0 (\<lambda>v. v\<lparr>gv_Status := ''Bound''\<rparr>) h') demo_g) =
      (pvcs_of (read_sp demo_mem demo_g))[0 := (pvcs_of (read_sp demo_mem demo_g) ! 0)\<lparr>pvs_Status := ''Bound''\<rparr>]"
    using deep_copy_ownership [OF demo_copy c, of 0 undefined "''Bound''" undefined] len by blast
  then have "map pvs_Status (pvcs_of (read_sp (write_pvc g' 0 (\<lambda>v. v\<lparr>gv_Status := ''Bound''\<rparr>) h') demo_g)) =
      (map pvs_Status (pvcs_of (read_sp demo_mem demo_g)))[0 := ''Bound'']" by (simp add: map_update)
  then show ?thesis using c demo_pvcs by simp
qed

section \<open>What the cache's object may become\<close>

text \<open>
  The use of the cached \<open>g\<close>: it is copied by the generated function for every worker that asks (\<open>gs\<close> are the copies handed
  out so far), and the workers run the operations on their copies, which write through the copy's slices and pointer what they
  leave in the value. These are the operations that assign: those on pod entries (anything), the two events that mark
  or bind a claim entry, the record of a repaired ordinal, and the reservation. A list that is appended to or cut is the worker's own.
\<close>

inductive cache_use :: "'l copiers \<Rightarrow> 'w client \<Rightarrow> Env \<Rightarrow> gStatefulPod \<Rightarrow> gStatefulPod list \<times> mem \<Rightarrow> gStatefulPod list \<times> mem \<Rightarrow> bool"
  for cp cl env g where
  hands_out: "StatefulPod_DeepCopyInto cp g h = (g', h') \<Longrightarrow> cache_use cp cl env g (gs, h) (g' # gs, h')"
| allocates: "extends h h' \<Longrightarrow> cache_use cp cl env g (gs, h) (gs, h')"
| pod: "g' \<in> set gs \<Longrightarrow> cache_use cp cl env g (gs, h) (gs, write_pod g' i f h)"
| monitors: "g' \<in> set gs \<Longrightarrow> PVCCtrl_MonitorPVCStatus env (read_sp h g') pvc (int i) = Ret (True, sp) \<Longrightarrow>
    ok_pvc h v \<Longrightarrow> read_pvc h v = pvcs_of sp ! i \<Longrightarrow> cache_use cp cl env g (gs, h) (gs, write_pvc g' i (\<lambda>_. v) h)"
| marks: "g' \<in> set gs \<Longrightarrow> mark_deleting (read_sp h g') (int i) = Ret sp \<Longrightarrow>
    ok_pvc h v \<Longrightarrow> read_pvc h v = pvcs_of sp ! i \<Longrightarrow> cache_use cp cl env g (gs, h) (gs, write_pvc g' i (\<lambda>_. v) h)"
| records: "g' \<in> set gs \<Longrightarrow> i \<noteq> length (pods_of (read_sp h g')) \<Longrightarrow>
    run cl (StatefulPodCtrl_expansionPVC env (read_sp h g') (int i)) w = (Done (Inr e, sp1), w') \<Longrightarrow>
    StatefulPodCtrl_record (read_sp h g') (int i) p e = Ret sp \<Longrightarrow>
    ok_pvc h v \<Longrightarrow> read_pvc h v = pvcs_of sp ! i \<Longrightarrow> cache_use cp cl env g (gs, h) (gs, write_pvc g' i (\<lambda>_. v) h)"
| reserves: "g' \<in> set gs \<Longrightarrow> run cl (PVCService_reserve env (read_sp h g') (int i)) w = (Done sp, w') \<Longrightarrow>
    PVCTemplate (Spec sp) = Some t \<Longrightarrow> cache_use cp cl env g (gs, h) (gs, write_template g' (\<lambda>_. t) h)"

text \<open>What these operations leave in a claim entry and in the claim template, whatever the server answers.\<close>

lemma free_sides [simp]:
  "guar (c_sp free_contract) r1" "guar (c_pod free_contract) r2" "guar (c_pvc free_contract) r3" "guar (c_svc free_contract) r4"
  "guar (c_pv free_contract) r5" "guar (c_node free_contract) r6"
  by (simp_all add: free_contract_def)

lemma meets_free: "meets free_contract (\<lambda>_. True) (\<lambda>_. True) m"
  by (induction m) (simp_all add: free_contract_def)

lemma run_free:
  assumes "meets free_contract Q (\<lambda>_. True) m" "run cl m w = (Done x, w')"
  shows "Q x"
  using meets_run [OF _ assms(1), of cl w] assms(2) by (simp add: answers_def free_contract_def)

lemma MonitorPVCStatus_entry:
  assumes "PVCCtrl_MonitorPVCStatus env sp pvc (int i) = Ret (True, sp')"
  shows "i < length (pvcs_of sp) \<and> pvs_Index (pvcs_of sp' ! i) = pvs_Index (pvcs_of sp ! i) \<and> pvs_Status (pvcs_of sp' ! i) \<in> claim_phases"
  using assms by (auto simp: PVCCtrl_MonitorPVCStatus_def Let_def go_index_def split: if_splits)

lemma mark_deleting_entry:
  assumes "mark_deleting sp (int i) = Ret sp'"
  shows "i < length (pvcs_of sp) \<and> pvs_Index (pvcs_of sp' ! i) = pvs_Index (pvcs_of sp ! i) \<and> pvs_Status (pvcs_of sp' ! i) \<in> claim_phases"
  using assms by (auto simp: mark_deleting_def go_assign_def split: if_splits)

lemma record_entry:
  assumes "StatefulPodCtrl_record sp (int i) p e = Ret sp'" "i \<noteq> length (pods_of sp)"
  shows "i < length (pvcs_of sp) \<and> pvcs_of sp' ! i = e"
  using assms by (auto simp: StatefulPodCtrl_record_def go_assign_def split: if_splits)

lemma free_SetPVCName: "meets free_contract (\<lambda>(nm, sp'). Status sp' = Status sp) (\<lambda>_. True) (SetPVCName sp i)"
  by (auto simp: SetPVCName_def Let_def go_index_def go_deref_def split: option.split)

lemma free_createClaim:
  "meets free_contract (\<lambda>(r, sp'). \<forall>e. r = Inr e \<longrightarrow> pvs_Index e = Some (int32_of i) \<and> pvs_Status e \<in> claim_phases) (\<lambda>_. True)
     (PVCCtrl_createClaim env sp nm i)"
  unfolding PVCCtrl_createClaim_def
  by (rule meets_bndI [OF meets_free])
    (auto simp: PVCService_Create_def IntToIntr32_def go_deref_def split: sum.split option.split)

lemma free_expansionPVC:
  "meets free_contract (\<lambda>(r, sp'). \<forall>e. r = Inr e \<longrightarrow> pvs_Index e = Some (int32_of i) \<and> pvs_Status e \<in> claim_phases \<or>
     0 \<le> i \<and> nat i < length (pvcs_of sp) \<and> e = pvcs_of sp ! nat i) (\<lambda>_. True) (StatefulPodCtrl_expansionPVC env sp i)"
proof -
  have "meets free_contract (\<lambda>(r, sp'). \<forall>e. r = Inr e \<longrightarrow> pvs_Index e = Some (int32_of i) \<and> pvs_Status e \<in> claim_phases \<or>
     0 \<le> i \<and> nat i < length (pvcs_of sp) \<and> e = pvcs_of sp ! nat i) (\<lambda>_. True) (PVCCtrl_ExpansionPVC env sp i)"
    unfolding PVCCtrl_ExpansionPVC_def PVCService_GetName_def
    by (rule meets_bndI [OF free_SetPVCName])
      (auto simp: PVCService_IsExists_def go_index_def nat_less_iff simp del: meets_bnd
        intro!: meets_bndI [OF meets_free] meets_mono [OF free_createClaim] split: option.split)
  then show ?thesis by (simp add: StatefulPodCtrl_expansionPVC_def IntToIntr32_def)
qed

lemma free_reserve:
  "meets free_contract (\<lambda>sp'. PVCTemplate (Spec sp') = PVCTemplate (Spec sp) \<or>
     (\<exists>t. PVCTemplate (Spec sp') = Some t \<and> StorageClassName t \<noteq> None)) (\<lambda>_. True) (PVCService_reserve env sp i)"
  by (auto simp: PVCService_reserve_def go_index_def go_deref_def simp del: meets_bnd
      intro!: meets_bndI [OF meets_free] split: option.split)

definition drifted :: "mem \<Rightarrow> gStatefulPod \<Rightarrow> mem \<Rightarrow> bool" where
  "drifted h0 g h \<longleftrightarrow> lim h0 \<le> lim h \<and> ok_sp h g \<and> cache_drift (read_sp h0 g) (read_sp h g)"

lemma read_sp_drift_simps:
  "sp_Meta (read_sp h g) = g_Meta g" "Spec (read_sp h g) = read_spec h (g_Spec g)"
  "Status (read_sp h g) = read_status h (g_State g)"
  by (simp_all add: read_sp_def)

lemma drifted_write_pod:
  assumes "drifted h0 g h" "ok_sp h0 g" "copy_of h0 g g'"
  shows "drifted h0 g (write_pod g' i f h)"
proof (cases "g_PodStatusMes (g_State g')")
  case None
  then show ?thesis using assms(1) by (simp add: write_pod_def)
next
  case (Some s)
  obtain a n where s: "s = (a, n)" by fastforce
  have "lim h0 \<le> a" using assms(3) Some s by (simp add: copy_of_def)
  then have own: "slice_of ((pod_arr h)(a := ys)) (g_PodStatusMes (g_State g)) = slice_of (pod_arr h) (g_PodStatusMes (g_State g))"
    "ok_slice h ((pod_arr h)(a := ys)) (g_PodStatusMes (g_State g)) = ok_slice h (pod_arr h) (g_PodStatusMes (g_State g))" for ys
    using assms(2) by (auto simp: ok_sp_def ok_status_def slice_of_def ok_slice_def split: option.splits)
  from own have "read_sp (write_pod g' i f h) g = read_sp h g" "ok_sp (write_pod g' i f h) g = ok_sp h g"
    "lim (write_pod g' i f h) = lim h"
    by (simp_all add: write_pod_def Some s read_sp_def read_status_def ok_sp_def ok_status_def)
  then show ?thesis using assms(1) by (simp add: drifted_def)
qed

lemma drifted_write_template:
  assumes "drifted h0 g h" "copy_of h0 g g'"
    "\<And>t. PVCTemplate (Spec (read_sp h g)) = Some t \<Longrightarrow> StorageClassName t \<noteq> None \<Longrightarrow> StorageClassName (F t) \<noteq> None"
  shows "drifted h0 g (write_template g' F h)"
proof -
  have "read_sp (write_template g' F h) g =
      (read_sp h g)\<lparr>Spec := (Spec (read_sp h g))\<lparr>PVCTemplate := map_option F (PVCTemplate (Spec (read_sp h g)))\<rparr>\<rparr>"
    by (rule read_write_template) (use assms(2) in \<open>simp add: copy_of_def\<close>)
  then have "cache_drift (read_sp h0 g) (read_sp (write_template g' F h) g)"
    using assms(1,3) by (auto simp: drifted_def cache_drift_def split: option.splits)
  moreover have "ok_sp (write_template g' F h) g = ok_sp h g" "lim (write_template g' F h) = lim h"
    by (simp_all add: ok_sp_def ok_status_def write_template_def ok_slice_def split: option.splits)
  ultimately show ?thesis using assms(1) by (simp add: drifted_def)
qed

lemma drifted_write_pvc:
  assumes "drifted h0 g h" "copy_of h0 g g'" "slice_of (pvc_arr h) (g_PVCStatusMes (g_State g')) = xs" "i < length xs"
    "ok_pvc h (f (xs ! i))" "map_option (ints h) (gv_Index (f (xs ! i))) = map_option (ints h) (gv_Index (xs ! i))"
    "gv_Status (f (xs ! i)) \<in> gv_Status ` set xs \<union> claim_phases"
  shows "drifted h0 g (write_pvc g' i f h)"
proof -
  have sl: "g_PVCStatusMes (g_State g') = g_PVCStatusMes (g_State g)" using assms(2) by (simp add: copy_of_def)
  have pvcs: "pvcs_of (read_sp h g) = map (read_pvc h) xs" using assms(3) sl by (simp add: read_sp_def read_status_def)
  have "read_sp (write_pvc g' i f h) g = set_pvcs ((map (read_pvc h) xs)[i := read_pvc h (f (xs ! i))]) (read_sp h g)"
    using read_write_pvc [OF sl, of i h f] assms(3,4) sl unfolding pvcs by simp
  moreover have "map pvs_Index ((map (read_pvc h) xs)[i := read_pvc h (f (xs ! i))]) = map pvs_Index (map (read_pvc h) xs)"
    using assms(4,6) by (simp add: map_update list_update_same_conv read_pvc_def)
  moreover have "pvs_Status ` set ((map (read_pvc h) xs)[i := read_pvc h (f (xs ! i))]) \<subseteq>
      pvs_Status ` set (pvcs_of (read_sp h0 g)) \<union> claim_phases"
  proof -
    have "pvs_Status ` set ((map (read_pvc h) xs)[i := read_pvc h (f (xs ! i))]) \<subseteq> pvs_Status ` set (pvcs_of (read_sp h g)) \<union> claim_phases"
    proof -
      have "pvs_Status ` set (map (read_pvc h) xs) = gv_Status ` set xs" by (force simp: read_pvc_def)
      then show ?thesis unfolding pvcs using assms(7)
        by (auto simp: read_pvc_def dest!: set_update_subset_insert [THEN subsetD])
    qed
    moreover have "pvs_Status ` set (pvcs_of (read_sp h g)) \<subseteq> pvs_Status ` set (pvcs_of (read_sp h0 g)) \<union> claim_phases"
      using assms(1) by (simp add: drifted_def cache_drift_def)
    ultimately show ?thesis by blast
  qed
  ultimately have "cache_drift (read_sp h0 g) (read_sp (write_pvc g' i f h) g)"
    using assms(1) pvcs by (simp add: drifted_def cache_drift_def split: option.splits)
  moreover have "ok_sp (write_pvc g' i f h) g"
  proof -
    obtain a n where s: "g_PVCStatusMes (g_State g) = Some (a, n)" "i < n" "xs = take n (pvc_arr h a)" "i < length (pvc_arr h a)"
      using assms(3,4) sl by (auto simp: slice_of_def split: option.splits)
    have "list_all (ok_pvc h) (xs[i := f (xs ! i)])"
      using assms(1,5) s by (auto simp: drifted_def ok_sp_def ok_status_def slice_of_def list_all_iff dest!: set_update_subset_insert [THEN subsetD])
    then show ?thesis using assms(1) s sl
      by (simp add: drifted_def ok_sp_def ok_status_def write_pvc_def slice_of_def ok_slice_def take_update_swap)
  qed
  moreover have "lim (write_pvc g' i f h) = lim h" by (simp add: write_pvc_def split: option.splits)
  ultimately show ?thesis using assms(1) by (simp add: drifted_def)
qed

text \<open>The same for a whole new entry, in terms of what is read.\<close>

lemma drifted_entry:
  assumes "drifted h0 g h" "copy_of h0 g g'" "ok_pvc h v" "i < length (pvcs_of (read_sp h g'))"
    "pvs_Index (read_pvc h v) = pvs_Index (pvcs_of (read_sp h g') ! i)"
    "pvs_Status (read_pvc h v) \<in> claim_phases \<or> read_pvc h v = pvcs_of (read_sp h g') ! i"
  shows "drifted h0 g (write_pvc g' i (\<lambda>_. v) h)"
proof (rule drifted_write_pvc [OF assms(1,2) refl])
  let ?xs = "slice_of (pvc_arr h) (g_PVCStatusMes (g_State g'))"
  have r: "pvcs_of (read_sp h g') = map (read_pvc h) ?xs" by (simp add: read_sp_def read_status_def)
  show i: "i < length ?xs" using assms(4) by (simp add: r)
  show "map_option (ints h) (gv_Index v) = map_option (ints h) (gv_Index (?xs ! i))"
    using assms(5) i by (simp add: r) (simp add: read_pvc_def)
  show "gv_Status v \<in> gv_Status ` set ?xs \<union> claim_phases"
    using assms(6) i by (auto simp: r) (auto simp: read_pvc_def)
qed (rule assms(3))

text \<open>The copies handed out are copies of the cached object, and it has only drifted; a copy's claim entries and template are then the cached ones.\<close>

definition cache_inv :: "mem \<Rightarrow> gStatefulPod \<Rightarrow> gStatefulPod list \<times> mem \<Rightarrow> bool" where
  "cache_inv h0 g s \<longleftrightarrow> drifted h0 g (snd s) \<and> (\<forall>g' \<in> set (fst s). copy_of h0 g g')"

lemma copy_of_later: "copy_of h g g' \<Longrightarrow> lim h0 \<le> lim h \<Longrightarrow> copy_of h0 g g'"
  by (auto simp: copy_of_def split: option.splits)

lemma copy_of_reads:
  assumes "copy_of h0 g g'"
  shows "pvcs_of (read_sp h g') = pvcs_of (read_sp h g)" "PVCTemplate (Spec (read_sp h g')) = PVCTemplate (Spec (read_sp h g))"
  using assms by (simp_all add: copy_of_def read_sp_def read_status_def read_spec_def)

lemma drifted_index:
  assumes "drifted h0 g h" "wf_sp (read_sp h0 g)" "i < length (pvcs_of (read_sp h g))"
  shows "pvs_Index (pvcs_of (read_sp h g) ! i) = Some (int32_of (int i))"
proof -
  have m: "map pvs_Index (pvcs_of (read_sp h g)) = map pvs_Index (pvcs_of (read_sp h0 g))"
    using assms(1) by (simp add: drifted_def cache_drift_def)
  then have "length (pvcs_of (read_sp h g)) = length (pvcs_of (read_sp h0 g))" by (rule map_eq_imp_length_eq)
  then show ?thesis using arg_cong [OF m, of "\<lambda>xs. xs ! i"] assms(2,3) by (simp add: wf_status_def)
qed

lemma cache_use_inv:
  assumes "cache_use cp cl env g s s'" "exact cp" "ok_sp h0 g" "wf_sp (read_sp h0 g)" "cache_inv h0 g s"
  shows "cache_inv h0 g s'"
  using assms(1,5)
proof (induction rule: cache_use.induct)
  case (hands_out h g' h' gs)
  have e: "extends h h'" using sp_copier.copies [OF _ hands_out(1)] assms(2) hands_out(2) by (simp add: cache_inv_def drifted_def)
  have "copy_of h0 g g'" using copy_of_later [OF DeepCopyInto_copy_of [OF hands_out(1)]] hands_out(2) by (simp add: cache_inv_def drifted_def)
  moreover have "drifted h0 g h'" using sp_frame [OF e, of g] e hands_out(2) by (auto simp: cache_inv_def drifted_def extends_def)
  ultimately show ?case using hands_out(2) by (simp add: cache_inv_def)
next
  case (allocates h h' gs)
  then show ?case using sp_frame [OF allocates(1), of g] by (auto simp: cache_inv_def drifted_def extends_def)
next
  case (pod g' gs h i f)
  then show ?case using drifted_write_pod [OF _ assms(3)] by (simp add: cache_inv_def)
next
  case (monitors g' gs h pvc i sp v)
  have c: "copy_of h0 g g'" "drifted h0 g h" using monitors(1,5) by (simp_all add: cache_inv_def)
  then show ?case using drifted_entry [OF c(2,1) monitors(3), of i] MonitorPVCStatus_entry [OF monitors(2)] monitors(4,5) by (simp add: cache_inv_def)
next
  case (marks g' gs h i sp v)
  have c: "copy_of h0 g g'" "drifted h0 g h" using marks(1,5) by (simp_all add: cache_inv_def)
  then show ?case using drifted_entry [OF c(2,1) marks(3), of i] mark_deleting_entry [OF marks(2)] marks(4,5) by (simp add: cache_inv_def)
next
  case (records g' gs i h w e sp1 w' p sp v)
  have c: "copy_of h0 g g'" "drifted h0 g h" using records(1,7) by (simp_all add: cache_inv_def)
  have r: "i < length (pvcs_of (read_sp h g'))" "read_pvc h v = e" using record_entry [OF records(4,2)] records(6) by simp_all
  then have "pvs_Index (pvcs_of (read_sp h g') ! i) = Some (int32_of (int i))"
    using drifted_index [OF c(2) assms(4), of i] copy_of_reads [OF c(1), of h] by simp
  then show ?case using drifted_entry [OF c(2,1) records(5) r(1)] run_free [OF free_expansionPVC records(3)] r(2) records(7)
    by (auto simp: cache_inv_def)
next
  case (reserves g' gs h i w sp w' t)
  have c: "copy_of h0 g g'" "drifted h0 g h" using reserves(1,4) by (simp_all add: cache_inv_def)
  have "StorageClassName t \<noteq> None" if "PVCTemplate (Spec (read_sp h g)) = Some u" "StorageClassName u \<noteq> None" for u
    using run_free [OF free_reserve reserves(2)] reserves(3) copy_of_reads(2) [OF c(1), of h] that by auto
  then show ?case using drifted_write_template [OF c(2,1), of "\<lambda>_. t"] reserves(4) by (simp add: cache_inv_def)
qed

lemma cache_uses_inv:
  assumes "exact cp" "ok_sp h g" "wf_sp (read_sp h g)" "(cache_use cp cl env g)\<^sup>*\<^sup>* ([], h) s"
  shows "cache_inv h g s"
  using assms(4)
proof (induction rule: rtranclp_induct)
  case base
  then show ?case using assms(2) by (simp add: cache_inv_def drifted_def)
qed (use assms(1-3) cache_use_inv in blast)

text \<open>C25: what the cache's object turns into. The cache copies its StatefulPod by the generated \<open>DeepCopyInto\<close> for every worker that asks,
  and the workers assign to their copies as the operations do, in any order and whatever is answered: pod entries in any way, claim entries as
  the claim events, the lost and timed-out pods and the record of an ordinal do, and the claim template as the reservation does. Whatever a later
  copy then reads, its metadata, size, pod template and pod entries are the original's, its claim entries have kept their number and
  ordinals and have the program's phases or old ones, and a claim template that was there is there, with a storage class if it
  had one. So the answers to a read are among those the interleaving of the workers allows. (The copies of the Kubernetes types
  are exact, the original is allocated and its status well formed.)\<close>

theorem cached_object_drifts:
  assumes "exact cp" "ok_sp h g" "wf_sp (read_sp h g)" "(cache_use cp cl env g)\<^sup>*\<^sup>* ([], h) (gs, h')"
    "StatefulPod_DeepCopyInto cp g h' = (g', h'')"
  shows "cache_drift (read_sp h g) (read_sp h'' g') \<and> sp_Meta (read_sp h'' g') = sp_Meta (read_sp h g) \<and>
    (read_sp h g \<in> versions c \<longrightarrow> serve c (Get (sp_key (read_sp h g))) (Inr (read_sp h'' g')) c)"
proof -
  have "cache_inv h g (gs, h')" by (rule cache_uses_inv [OF assms(1-4)])
  then have d: "drifted h g h'" by (simp add: cache_inv_def)
  then have r: "read_sp h'' g' = read_sp h' g" using sp_copier.copies [OF _ assms(5)] assms(1) by (simp add: drifted_def)
  have "cache_drift (read_sp h g) (read_sp h'' g')" using d unfolding r by (simp add: drifted_def)
  moreover have "sp_Meta (read_sp h'' g') = sp_Meta (read_sp h g)" unfolding r by (simp add: read_sp_def)
  ultimately show ?thesis using serve.gets [of "read_sp h g" c "read_sp h'' g'"] by simp
qed

theorem cached_object_drifts_witness:
  "\<exists>g1 h1 v g2 h2. StatefulPod_DeepCopyInto demo_copiers demo_g demo_mem = (g1, h1) \<and>
    StatefulPod_DeepCopyInto demo_copiers demo_g (write_pvc g1 0 (\<lambda>_. v) h1) = (g2, h2) \<and>
    cache_drift (read_sp demo_mem demo_g) (read_sp h2 g2) \<and> map pvs_Status (pvcs_of (read_sp h2 g2)) = [''Deleting'']"
proof -
  obtain g1 h1 where c1: "StatefulPod_DeepCopyInto demo_copiers demo_g demo_mem = (g1, h1)" by fastforce
  define v where "v = (pvc_arr demo_mem 0 ! 0)\<lparr>gv_Status := ''Deleting''\<rparr>"
  obtain g2 h2 where c2: "StatefulPod_DeepCopyInto demo_copiers demo_g (write_pvc g1 0 (\<lambda>_. v) h1) = (g2, h2)" by fastforce
  have copy: "copy_of demo_mem demo_g g1" by (rule DeepCopyInto_copy_of [OF c1])
  have e: "extends demo_mem h1" "read_sp h1 g1 = read_sp demo_mem demo_g" using sp_copier.copies [OF _ c1] by simp_all
  have arr: "pvc_arr h1 0 = pvc_arr demo_mem 0" "3 \<le> lim h1" using e(1) by (simp_all add: extends_def demo_mem_def)
  have pvcs: "pvcs_of (read_sp h1 g1) = [read_pvc h1 (pvc_arr demo_mem 0 ! 0)]" "pvcs_of (read_sp h1 demo_g) = [read_pvc h1 (pvc_arr demo_mem 0 ! 0)]"
    using copy arr(1) by (simp_all add: copy_of_def read_sp_def read_status_def demo_g_def slice_of_def) (simp_all add: demo_mem_def)
  have pods: "length (pods_of (read_sp h1 g1)) = 1" unfolding e(2) by (simp add: demo_g_def demo_mem_def read_sp_def read_status_def slice_of_def)
  have wf: "wf_sp (read_sp demo_mem demo_g)"
    by (simp add: wf_status_def demo_g_def demo_mem_def read_sp_def read_status_def read_pod_def read_pvc_def slice_of_def)
  have v: "ok_pvc h1 v" "read_pvc h1 v = (read_pvc h1 (pvc_arr demo_mem 0 ! 0))\<lparr>pvs_Status := ''Deleting''\<rparr>"
    using arr(2) by (simp_all add: v_def ok_pvc_def ok_ptr_def ok_slice_def read_pvc_def) (simp_all add: demo_mem_def)
  have m: "mark_deleting (read_sp h1 g1) (int 0) = Ret ((read_sp h1 g1)\<lparr>Status := (Status (read_sp h1 g1))\<lparr>
      PodStatusMes := (pods_of (read_sp h1 g1))[0 := (pods_of (read_sp h1 g1) ! 0)\<lparr>ps_Status := ''Deleting''\<rparr>],
      PVCStatusMes := [(read_pvc h1 (pvc_arr demo_mem 0 ! 0))\<lparr>pvs_Status := ''Deleting''\<rparr>]\<rparr>\<rparr>)"
    using pods pvcs(1) by (simp add: mark_deleting_def go_assign_def)
  have "cache_use demo_copiers mem_client demo_env demo_g ([], demo_mem) ([g1], h1)" by (rule cache_use.hands_out [OF c1])
  moreover have "cache_use demo_copiers mem_client demo_env demo_g ([g1], h1) ([g1], write_pvc g1 0 (\<lambda>_. v) h1)"
    by (rule cache_use.marks [OF _ m v(1)]) (simp_all add: v(2))
  ultimately have "(cache_use demo_copiers mem_client demo_env demo_g)\<^sup>*\<^sup>* ([], demo_mem) ([g1], write_pvc g1 0 (\<lambda>_. v) h1)"
    by (simp add: converse_rtranclp_into_rtranclp)
  note uses = this
  have "ok_sp (write_pvc g1 0 (\<lambda>_. v) h1) demo_g" using cache_uses_inv [OF demo_copy wf uses] by (simp add: cache_inv_def drifted_def)
  then have r: "read_sp h2 g2 = read_sp (write_pvc g1 0 (\<lambda>_. v) h1) demo_g" using sp_copier.copies [OF _ c2] by simp
  have "pvcs_of (read_sp (write_pvc g1 0 (\<lambda>_. v) h1) demo_g) = [read_pvc h1 v]"
    using read_write_pvc [of g1 demo_g 0 h1 "\<lambda>_. v"] copy pvcs(2) by (simp add: copy_of_def)
  then have "map pvs_Status (pvcs_of (read_sp h2 g2)) = [''Deleting'']" by (simp add: r v(2))
  with c1 c2 cached_object_drifts [OF demo_copy wf uses c2, THEN conjunct1] show ?thesis
    by (intro exI [of _ g1] exI [of _ h1] exI [of _ v] exI [of _ g2] exI [of _ h2] conjI)
qed

section \<open>The event filter sees the shared entries\<close>

text \<open>The event filter compares the claim entries of the cached object with those of the new one to drop such updates. Because
  the cached object shares them, it does not drop the update of the worker that assigned them: when a
  worker changes the phase of a claim entry through its copy and stores the result, the event's old object already has the new
  entries and the event passes; with the old object as it was stored it would be dropped.\<close>

theorem claim_update_passes_filter:
  assumes "exact cp" "ok_sp h g" "StatefulPod_DeepCopyInto cp g h = (g', h')" "i < length (pvcs_of (read_sp h g))"
    "pvs_Status (pvcs_of (read_sp h g) ! i) \<noteq> phase" "h'' = write_pvc g' i (\<lambda>v. v\<lparr>gv_Status := phase\<rparr>) h'"
  shows "StatefulPodPredicate_Update \<lparr>ev_MetaNew = m, ev_ObjectOld = EvStatefulPod (read_sp h'' g),
      ev_ObjectNew = EvStatefulPod (read_sp h'' g')\<rparr> = Ret True \<and>
    StatefulPodPredicate_Update \<lparr>ev_MetaNew = m, ev_ObjectOld = EvStatefulPod (read_sp h g),
      ev_ObjectNew = EvStatefulPod (read_sp h'' g')\<rparr> = Ret False"
proof -
  let ?f = "\<lambda>v. v\<lparr>gv_Status := phase\<rparr>"
  have c: "copy_of h g g'" by (rule DeepCopyInto_copy_of [OF assms(3)])
  have copy: "extends h h'" "read_sp h' g' = read_sp h g" using sp_copier.copies [OF _ assms(3)] assms(1,2) by simp_all
  have own: "read_sp h' g = read_sp h g" using sp_frame [OF copy(1) assms(2)] by simp
  have new: "read_sp h'' x = set_pvcs ((pvcs_of (read_sp h g))[i := (pvcs_of (read_sp h g) ! i)\<lparr>pvs_Status := phase\<rparr>]) (read_sp h g)"
    if "g_PVCStatusMes (g_State g') = g_PVCStatusMes (g_State x)" "read_sp h' x = read_sp h g" for x
  proof -
    have "pvcs_of (read_sp h' x) = map (read_pvc h') (slice_of (pvc_arr h') (g_PVCStatusMes (g_State x)))"
      by (simp add: read_sp_def read_status_def)
    then have "read_pvc h' (?f (slice_of (pvc_arr h') (g_PVCStatusMes (g_State x)) ! i)) =
        (pvcs_of (read_sp h' x) ! i)\<lparr>pvs_Status := phase\<rparr>"
      using assms(4) that(2) by (auto simp: read_pvc_def)
    then show ?thesis using read_write_pvc [OF that(1), of i h' ?f] assms(4) unfolding assms(6) that(2) by simp
  qed
  have "(pvcs_of (read_sp h g))[i := (pvcs_of (read_sp h g) ! i)\<lparr>pvs_Status := phase\<rparr>] \<noteq> pvcs_of (read_sp h g)"
    using assms(4,5) by (metis PVCStatus.select_convs(3) PVCStatus.surjective PVCStatus.update_convs(3) nth_list_update_eq)
  then show ?thesis
    using new [OF refl copy(2)] new [OF _ own] c by (simp add: StatefulPodPredicate_Update_def copy_of_def)
qed

theorem claim_update_passes_filter_witness:
  "\<exists>g' h'. StatefulPod_DeepCopyInto demo_copiers demo_g demo_mem = (g', h') \<and>
    StatefulPodPredicate_Update \<lparr>ev_MetaNew = None,
      ev_ObjectOld = EvStatefulPod (read_sp (write_pvc g' 0 (\<lambda>v. v\<lparr>gv_Status := ''Bound''\<rparr>) h') demo_g),
      ev_ObjectNew = EvStatefulPod (read_sp (write_pvc g' 0 (\<lambda>v. v\<lparr>gv_Status := ''Bound''\<rparr>) h') g')\<rparr> = Ret True"
proof -
  obtain g' h' where c: "StatefulPod_DeepCopyInto demo_copiers demo_g demo_mem = (g', h')" by fastforce
  have len: "0 < length (pvcs_of (read_sp demo_mem demo_g))" using demo_pvcs by (metis length_map length_Cons zero_less_Suc)
  then have "pvs_Status (pvcs_of (read_sp demo_mem demo_g) ! 0) = ''Pending''" using demo_pvcs by (metis nth_map nth_Cons_0)
  with claim_update_passes_filter [OF demo_copy c len _ refl] c show ?thesis by simp
qed

end
