(* ===== verification/Spec2Isabelle.thy ===== *)
theory Spec2Isabelle
  imports Process Fleet SelfHealing Deletion Sequential CacheSharing
begin

text \<open>
  A model of iapetos, a Kubernetes operator, and the theorems about it. The custom resource
  \<open>StatefulPod\<close> asks for \<open>size\<close> pods with stable names \<open>name-0\<close>, \<open>name-1\<close>, ..., each with a claim
  of its own if there is a claim template, and a service in front of them.

  How the program works. \<open>controllers/statefulpod\_controller.go\<close> is called with a name; it finds out
  whether the name is a StatefulPod, a pod or a claim by asking for each in turn.
  A StatefulPod goes to \<open>CoreCtrl\<close> (\<open>controllers/statefulpod/stateful\_pod.go\<close>), which compares the number of
  settled ordinals with the size and creates the next ordinal, removes the last, deletes everything, or
  repairs. A pod or claim goes to a monitor that records its state in the two status lists of the
  StatefulPod its annotations name. All parts go through \<open>services/\<close>, one service per kind of object, to the
  client. Events of the program's own pods and claims come back as requests (\<open>controllers/eventhandler.go\<close>),
  and some updates of StatefulPods are filtered (\<open>controllers/eventpredicate.go\<close>).

  Theories and sources, in the order of import.
  Prelude, KubeTypes: strings, maps and 32-bit integers; the Kubernetes objects with the fields the program uses.
  ApiV1: \<open>api/v1\<close>, the custom resource and its well-formed status.
  Prog: a function that calls the API server is a tree of its calls; its runs against a client, Go's panics, contracts.
  Tools: \<open>tools/tools.go\<close> and the part of \<open>strconv\<close> it uses.
  Resource, PodService, PVCService, SvcService, PVService, StatefulPodService: \<open>services/\<close>, the interface
  \<open>ServiceInf\<close> as the locales \<open>reader\<close>, \<open>versioned\<close> and \<open>remover\<close>, interpreted by each service.
  Contracts: what the program guarantees and relies on, with the status invariant.
  PodCtrl, PVCCtrl, PVCtrl, SvcCtrl: \<open>controllers/statefulpod/child\_resource\_controller\<close>.
  StatefulPodCtrl: \<open>stateful\_pod.go\<close>. Reconciler: the reconciler, the event handlers, the filter and the watches.
  DeepCopy: \<open>api/v1/zz\_generated.deepcopy.go\<close> on an explicit memory.
  Process: \<open>main.go\<close>, \<open>initconfig\<close> and the start of \<open>api\<close>: flags, configuration files, environment, and the order in which the process comes up.
  A definition carries the name of its Go function, with its receiver in front where names clash; a part of a long
  function that has a definition of its own names its lines. What a function writes through the pointer to the
  StatefulPod is part of its result.

  What is proved.
  This theory with Interleaving: for any interleaving of any number of workers with users and with any behaviour of the rest of the cluster,
  the status lists of every stored version stay well-formed, their phases are those the program knows and their ordinals do not wrap,
  and under complete specs no worker panics.
  Isolation: which requests the program makes at all, that the objects it creates carry the name of the reconciled StatefulPod as their parent, and that what a
  request changes stays in the namespace of the request.
  Growth, GrowthCases: \<open>CoreCtrl\<close> carries out an abstract plan that depends on the size, the two phases of the last entry
  and the deletion mark only; growth touches one ordinal, in the order service, pod, claim, status; what each refusal leads to.
  Shrinking, Removal: one step of shrinking; on deletion the finalizer goes last, after all pods, claims and volumes were dealt with.
  Maintenance: the two scans find the first entry that disagrees; a vanished pod is created again; a settled StatefulPod stays.
  Monitoring: node readiness, lost nodes, running pods, terminations and timeouts. UpdateLoop: the two \<open>goto\<close> loops.
  Templates: names, labels, annotations of children and the way back from their events. EventFlow: requests from events to status entries, and which of
  the program's own writes pass the filter.
  Rounds, Settling, Convergence: growth comes to its end. A round reconciles the StatefulPod, then, with the kubelet and the provisioner at work between,
  the pod and the claim of one ordinal (\<open>one\_round\<close>); after as many rounds as the size an empty status is complete,
  with a service, claims and the finalizer where the spec asks for them. SelfHealing: lost pods are there again after as many rounds as were lost, and
  at rest no request of a StatefulPod, its pods or its claims changes anything.
  Stages, Progress, Fleet: the same without a fixed order. The life of a growing StatefulPod is a machine of three counters (\<open>stage\<close>: ordinals asked for,
  started, settled) whose moves are monotone; each move of the program (a reconciliation, the event of a pod, the event of a claim) is a move of
  that machine for its StatefulPod and leaves the stages of the others alone, so any schedule of any number of StatefulPods is simulated by the
  counters, a schedule that has the useful moves among its moves completes them all, and a StatefulPod that is scaled up keeps what it has.
  Here a reconciliation is one step; how API calls of several workers interleave is the matter of Interleaving.
  Teardown, Deletion: so do shrinking and deletion on a server with graceful deletion, where each reconciliation is followed by a step of the rest
  of the cluster (\<open>turn\<close>); the bounds on the rounds compose by \<open>leads\<close>.
  Cluster, Sequential: a server in memory for the concrete cases, and its runs as interleavings.
  DeepCopyCorrect, CacheSharing: the deep copies are equal to the original but share its claim entries and claim template; what the cached object may
  become while workers run the operations on their copies (\<open>cache\_use\<close>), which the interleavings take into account (\<open>cache\_drift\<close>).

  The server of the runs. Theorems about runs assume what Kubernetes documents (\<open>optimistic\<close>, \<open>creates\<close>, \<open>cooperative\<close>): a read finds what is
  stored; an update of an object that is not there is NotFound, one under an old version a conflict, and one under the current version is accepted and
  keeps the mark of the deletion; it stores the object, or removes it, if the object is being deleted and the update takes its last finalizer
  (\<open>let\_go\<close>, \<open>written\<close>). Validation is no part of it: that a server may refuse an update for good is \<open>update\_spins\<close>. The theorems on
  arbitrary answers (the contracts, Interleaving) assume none of this. The host of the convergence theorems (\<open>hosted\<close>) is ideal: when a pod starts or a claim is
  bound, nothing else of the object changes.

  Bounds and fuel. The loop of the StatefulPod update and the deletion loop of \<open>MonitorPodStatus\<close> are \<open>goto\<close> loops
  without a bound and take their rounds as fuel. Against a server with optimistic concurrency two rounds are enough for the update (\<open>update\_overwrites\<close>);
  theorems ask for at least 2; the cases in which no number of rounds is enough are theorems too.
  Ordinals are Go \<open>int\<close> (here \<open>int\<close>, never near \<open>2 ^ 63\<close>), stored as \<open>int32\<close> words with wrap-around; durations
  saturate as Go's \<open>Sub\<close> does.

  What enters as a parameter: the client (a function from requests to answers, or any answer within a contract), the clock, the configuration, the
  owner reference and the printing of quantities (\<open>Env\<close>), the copies of Kubernetes' own types, and, for the start of the process, the libraries that
  read files, parse them and build the manager (\<open>Runtime\<close>).

  Not modelled. Logging, the constructors that pass the client on, the tests. The work queue is not modelled: a requeue is an
  answer, and which requests come is up to the environment. Of Go's aliasing the model has the writes through the StatefulPod, the shared
  annotation map of the pod template and the sharing between cache and copies, not the spare capacity of slices.
\<close>

section \<open>Several workers at once\<close>

text \<open>C1: the status lists stay well-formed under any interleaving. Take any number of workers that run \<open>Reconcile\<close> one
  API call at a time, reads that answer with any version a StatefulPod ever had (also one whose shared parts other workers wrote to),
  updates that fail at any time, users who create,
  change and delete StatefulPods, and pods, claims, volumes and nodes that behave in any way at all: every
  version of a StatefulPod that is ever stored has two status lists of the same length in which
  entry \<open>i\<close> is the entry of ordinal \<open>i\<close>.\<close>

theorem status_always_well_formed:
  assumes "reachable env False c" "sp \<in> versions c \<or> store c nn = Some sp"
  shows "length (pods_of sp) = length (pvcs_of sp) \<and>
    (\<forall>i < length (pods_of sp). ps_Index (pods_of sp ! i) = Some (int32_of (int i)) \<and>
       pvs_Index (pvcs_of sp ! i) = Some (int32_of (int i)))"
proof -
  have "sp \<in> versions c" "\<forall>sp \<in> versions c. good False sp"
    using reachable_inv [OF assms(1)] assms(2) by (auto simp: cluster_inv_def)
  then show ?thesis by (simp add: good_def wf_status_def)
qed

theorem status_always_well_formed_witness:
  "\<exists>c sp. reachable demo_env False c \<and> store c (NN ''ns'' ''db'') = Some sp \<and> length (pvcs_of sp) = 1 \<and>
    ps_Index (pods_of sp ! 0) = Some (int32_of 0) \<and> pvs_Index (pvcs_of sp ! 0) = Some (int32_of 0)"
proof -
  obtain c sp where c: "reachable demo_env False c" "store c (NN ''ns'' ''db'') = Some sp" "length (pods_of sp) = 1"
    using fresh_sp_reconciled by blast
  with status_always_well_formed [OF c(1), of sp "NN ''ns'' ''db''"] show ?thesis by (intro exI) auto
qed

text \<open>C16: the phases of the status are those the controller knows. Under the same interleavings, every version of a StatefulPod that is ever
  stored records each pod as preparing, running, deleting or timed out, and each claim as pending, bound, deleting or, where there is none,
  with an empty phase: the cases that \<open>getIndex\<close>, maintenance and the monitors tell apart are all there are.\<close>

theorem status_phases_typed:
  assumes "reachable env False c" "sp \<in> versions c \<or> store c nn = Some sp"
  shows "(\<forall>p \<in> set (pods_of sp). ps_Status p \<in> {''Preparing'', ''Running'', ''Deleting'', ''CreateTimeOut''}) \<and>
    (\<forall>v \<in> set (pvcs_of sp). pvs_Status v \<in> {'''', ''Pending'', ''Bound'', ''Deleting''})"
proof -
  have "sp \<in> versions c" "\<forall>sp \<in> versions c. good False sp"
    using reachable_inv [OF assms(1)] assms(2) by (auto simp: cluster_inv_def)
  then show ?thesis by (simp add: good_def typed_def pod_phases_def claim_phases_def)
qed

theorem status_phases_typed_witness:
  "\<exists>c sp. reachable demo_env False c \<and> store c (NN ''ns'' ''db'') = Some sp \<and> length (pods_of sp) = 1 \<and>
    ps_Status (pods_of sp ! 0) \<in> {''Preparing'', ''Running'', ''Deleting'', ''CreateTimeOut''}"
proof -
  obtain c sp where c: "reachable demo_env False c" "store c (NN ''ns'' ''db'') = Some sp" "length (pods_of sp) = 1"
    using fresh_sp_reconciled by blast
  moreover from this have "pods_of sp ! 0 \<in> set (pods_of sp)" by simp
  ultimately show ?thesis using status_phases_typed [OF c(1), of sp "NN ''ns'' ''db''"] by blast
qed

text \<open>C17: the ordinals never wrap. An entry holds its ordinal in 32 bits, converted from an integer without a check (\<open>IntToIntr32\<close>). Under the same
  interleavings every stored version has fewer than \<open>2 ^ 31\<close> entries and the index of each, read as the signed number it is, is the position
  of the entry in its list; so no two entries share an index and none is negative.\<close>

theorem ordinals_never_wrap:
  assumes "reachable env False c" "sp \<in> versions c \<or> store c nn = Some sp"
  shows "int (length (pods_of sp)) < 2 ^ 31 \<and>
    map (\<lambda>p. map_option int_of_int32 (ps_Index p)) (pods_of sp) = map (Some \<circ> int) [0..<length (pods_of sp)] \<and>
    map (\<lambda>v. map_option int_of_int32 (pvs_Index v)) (pvcs_of sp) = map (Some \<circ> int) [0..<length (pods_of sp)]"
proof -
  have "sp \<in> versions c" "\<forall>sp \<in> versions c. good False sp"
    using reachable_inv [OF assms(1)] assms(2) by (auto simp: cluster_inv_def)
  then have g: "wf_sp sp" "int (length (pods_of sp)) < 2 ^ 31" by (simp_all add: good_def typed_def)
  have "int_of_int32 (int32_of (int i)) = int i" if "i < length (pods_of sp)" for i
    using that g(2) by (intro int_of_int32_of) simp_all
  then show ?thesis using g by (auto simp: wf_status_def intro!: nth_equalityI)
qed

theorem ordinals_never_wrap_witness:
  "\<exists>c sp. reachable demo_env False c \<and> store c (NN ''ns'' ''db'') = Some sp \<and>
    map (\<lambda>p. map_option int_of_int32 (ps_Index p)) (pods_of sp) = [Some 0]"
proof -
  obtain c sp where c: "reachable demo_env False c" "store c (NN ''ns'' ''db'') = Some sp" "length (pods_of sp) = 1"
    using fresh_sp_reconciled by blast
  with ordinals_never_wrap [OF c(1), of sp "NN ''ns'' ''db''"] show ?thesis by auto
qed

text \<open>C2: no Go panic: under the same interleavings, if users only write complete specs (a size that is set and not negative; with a claim
  template also a first volume that names a claim, and a storage class), nodes have a
  condition and the pods and claims that are read carry an index that is not negative, then no worker ever reaches an
  index out of range, a slice out of range or a nil dereference.\<close>

theorem reconcile_never_panics:
  assumes "reachable env True c" "m \<in> set (workers c)"
  shows "m \<noteq> Panic p"
  using reachable_inv [OF assms(1)] assms(2) by (auto simp: cluster_inv_def)

theorem reconcile_never_panics_witness:
  "reachable demo_env True (start_cluster\<lparr>workers := [Reconcile demo_env 2 (NN ''ns'' ''db'')]\<rparr>) \<and>
   Reconcile demo_env 2 (NN ''ns'' ''db'') \<noteq> Panic IndexOutOfRange"
proof -
  have "step demo_env True start_cluster (start_cluster\<lparr>workers := [Reconcile demo_env 2 (NN ''ns'' ''db'')]\<rparr>)"
    using step.start [of demo_env True start_cluster 2 "NN ''ns'' ''db''"] by (simp add: start_cluster_def)
  then have "reachable demo_env True (start_cluster\<lparr>workers := [Reconcile demo_env 2 (NN ''ns'' ''db'')]\<rparr>)"
    using reachable_start reachable_step by blast
  with reconcile_never_panics [OF this] show ?thesis by simp
qed

end
